(* ===== verification/Prelude.thy ===== *)
theory Prelude
  imports Main
begin

text \<open>
  What every component shares: results of code that may raise, Python text and the few
  string operations of the standard library that the components use, and the notion of a
  reachable state of a step relation with its one induction principle.
\<close>

named_theorems result_simps \<open>inversion of successful results\<close>
named_theorems vocab_simps \<open>closed vocabularies of the product, unfolded to their members\<close>

section \<open>Results\<close>

text \<open>
  A Python function that may raise returns \<open>Inl e\<close> for the exception and \<open>Inr x\<close> for the
  value. The combinators below sequence such calls in the order the code makes them.
\<close>

type_synonym ('e, 'a) result = "'e + 'a"

fun bind_result :: "('e, 'a) result \<Rightarrow> ('a \<Rightarrow> ('e, 'b) result) \<Rightarrow> ('e, 'b) result" where
  "bind_result (Inl e) f = Inl e"
| "bind_result (Inr x) f = f x"

fun map_error :: "('e \<Rightarrow> 'f) \<Rightarrow> ('e, 'a) result \<Rightarrow> ('f, 'a) result" where
  "map_error h (Inl e) = Inl (h e)"
| "map_error h (Inr x) = Inr x"

fun traverse :: "('a \<Rightarrow> ('e, 'b) result) \<Rightarrow> 'a list \<Rightarrow> ('e, 'b list) result" where
  "traverse f [] = Inr []"
| "traverse f (x # xs) =
     bind_result (f x) (\<lambda>y. bind_result (traverse f xs) (\<lambda>ys. Inr (y # ys)))"

definition succeeds :: "('e, 'a) result \<Rightarrow> bool" where
  "succeeds r = (case r of Inl _ \<Rightarrow> False | Inr _ \<Rightarrow> True)"

lemma bind_result_Inr [result_simps]:
  "bind_result m f = Inr y \<longleftrightarrow> (\<exists>x. m = Inr x \<and> f x = Inr y)"
  by (cases m) auto

lemma bind_result_Inl [result_simps]:
  "bind_result m f = Inl e \<longleftrightarrow> m = Inl e \<or> (\<exists>x. m = Inr x \<and> f x = Inl e)"
  by (cases m) auto

lemma map_error_Inr [simp]: "map_error h m = Inr y \<longleftrightarrow> m = Inr y"
  by (cases m) auto

lemma map_error_Inl: "map_error h m = Inl e \<longleftrightarrow> (\<exists>d. m = Inl d \<and> e = h d)"
  by (cases m) auto

lemma succeeds_Inl [simp]: "\<not> succeeds (Inl e)"
  by (simp add: succeeds_def)

lemma succeeds_Inr [simp]: "succeeds (Inr x)"
  by (simp add: succeeds_def)

lemma succeeds_iff: "succeeds r \<longleftrightarrow> (\<exists>x. r = Inr x)"
  by (cases r) auto

lemma bind_result_cong [fundef_cong]:
  "m = m' \<Longrightarrow> (\<And>x. m' = Inr x \<Longrightarrow> f x = f' x) \<Longrightarrow> bind_result m f = bind_result m' f'"
  by (cases m') auto

lemma traverse_cong [fundef_cong]:
  "xs = ys \<Longrightarrow> (\<And>x. x \<in> set ys \<Longrightarrow> f x = g x) \<Longrightarrow> traverse f xs = traverse g ys"
  by (induction ys arbitrary: xs) auto

lemma traverse_Inr_iff:
  "traverse f xs = Inr ys \<longleftrightarrow> list_all2 (\<lambda>x y. f x = Inr y) xs ys"
proof (induction xs arbitrary: ys)
  case Nil
  show ?case by auto
next
  case (Cons x xs)
  then show ?case by (cases ys) (auto simp: bind_result_Inr)
qed

lemma traverse_length: "traverse f xs = Inr ys \<Longrightarrow> length ys = length xs"
  by (simp add: traverse_Inr_iff list_all2_lengthD)

lemma list_all2_partner:
  "list_all2 P xs ys \<Longrightarrow> x \<in> set xs \<Longrightarrow> \<exists>y \<in> set ys. P x y"
  "list_all2 P xs ys \<Longrightarrow> y \<in> set ys \<Longrightarrow> \<exists>x \<in> set xs. P x y"
  by (metis in_set_conv_nth list_all2_conv_all_nth)+

lemma filter_single: "filter P xs = [x] \<Longrightarrow> x \<in> set xs \<and> P x"
  by (drule arg_cong [of _ _ set]) auto

section \<open>Text\<close>

text \<open>
  A Python \<open>str\<close> is a sequence of code points. Literals of the source are written
  \<open>str ''...''\<close>.
\<close>

type_synonym code_point = nat
type_synonym pytext = "code_point list"

definition str :: "string \<Rightarrow> pytext" where
  "str s = map of_char s"

lemma str_Nil [simp]: "str '''' = []"
  by (simp add: str_def)

lemma str_eq_iff [simp]: "str s = str t \<longleftrightarrow> s = t"
proof -
  have "inj (of_char :: char \<Rightarrow> nat)"
    by (rule injI) simp
  then show ?thesis by (simp add: str_def inj_map_eq_map)
qed

lemma str_eq_Nil_iff [simp]: "str s = [] \<longleftrightarrow> s = []"
  by (simp add: str_def)

lemma length_str [simp]: "length (str s) = length s"
  by (simp add: str_def)

text \<open>The code points for which \<open>str.isspace\<close> holds, which \<open>str.strip\<close> removes.\<close>

definition py_space :: "code_point \<Rightarrow> bool" where
  "py_space c \<longleftrightarrow> 9 \<le> c \<and> c \<le> 13 \<or> 28 \<le> c \<and> c \<le> 32 \<or> c = 133 \<or> c = 160 \<or> c = 5760 \<or>
     8192 \<le> c \<and> c \<le> 8202 \<or> c = 8232 \<or> c = 8233 \<or> c = 8239 \<or> c = 8287 \<or> c = 12288"

definition strip :: "pytext \<Rightarrow> pytext" where
  "strip s = rev (dropWhile py_space (rev (dropWhile py_space s)))"

text \<open>The test \<open>not s.strip()\<close>.\<close>

definition blank :: "pytext \<Rightarrow> bool" where
  "blank s \<longleftrightarrow> list_all py_space s"

lemma strip_eq_Nil_iff: "strip s = [] \<longleftrightarrow> blank s"
proof
  assume "strip s = []"
  then have "\<forall>c \<in> set (dropWhile py_space s). py_space c"
    by (simp add: strip_def dropWhile_eq_Nil_conv)
  then have "dropWhile py_space s = []"
    by (metis hd_dropWhile hd_in_set)
  then show "blank s"
    by (simp add: blank_def dropWhile_eq_Nil_conv list_all_iff)
next
  assume "blank s"
  then have "dropWhile py_space s = []"
    by (auto simp: blank_def list_all_iff dest: set_dropWhileD)
  then show "strip s = []"
    by (simp only: strip_def rev.simps dropWhile.simps)
qed

lemma blank_Nil [simp]: "blank []"
  by (simp add: blank_def)

fun startswith :: "pytext \<Rightarrow> pytext \<Rightarrow> bool" where
  "startswith s [] = True"
| "startswith [] (p # ps) = False"
| "startswith (c # s) (p # ps) = (c = p \<and> startswith s ps)"

lemma startswith_iff: "startswith s p \<longleftrightarrow> (\<exists>r. s = p @ r)"
  by (induction s p rule: startswith.induct) auto

text \<open>\<open>s.split(sep)\<close> for a one-character separator.\<close>

fun split_on :: "code_point \<Rightarrow> pytext \<Rightarrow> pytext list" where
  "split_on d [] = [[]]"
| "split_on d (c # s) =
     (if c = d then [] # split_on d s
      else case split_on d s of [] \<Rightarrow> [[c]] | p # ps \<Rightarrow> (c # p) # ps)"

lemma split_on_not_Nil [simp]: "split_on d s \<noteq> []"
  by (cases s) (auto split: list.split)

lemma lower_hex_digits:
  "list_all (\<lambda>c. 48 \<le> c \<and> c \<le> 57 \<or> 97 \<le> c \<and> c \<le> 102) s \<longleftrightarrow>
     (\<forall>c \<in> set s. c \<in> set (str ''0123456789abcdef''))"
  for s :: pytext
proof -
  have "(48 \<le> c \<and> c \<le> 57 \<or> 97 \<le> c \<and> c \<le> 102) = (c \<in> set (str ''0123456789abcdef''))" for c :: nat
    by (simp add: str_def) presburger
  then show ?thesis by (simp add: list_all_iff)
qed

text \<open>Decimal digits: \<open>int(digits)\<close> and \<open>str(n)\<close>.\<close>

definition is_digit :: "code_point \<Rightarrow> bool" where
  "is_digit c \<longleftrightarrow> 48 \<le> c \<and> c \<le> 57"

definition num :: "pytext \<Rightarrow> nat" where
  "num ds = foldl (\<lambda>a c. 10 * a + (c - 48)) 0 ds"

fun show_nat :: "nat \<Rightarrow> pytext" where
  "show_nat n = (if n < 10 then [48 + n] else show_nat (n div 10) @ [48 + n mod 10])"

declare show_nat.simps [simp del]

definition show_int :: "int \<Rightarrow> pytext" where
  "show_int i = (if i < 0 then 45 # show_nat (nat (- i)) else show_nat (nat i))"

lemma num_append: "num (ds @ [c]) = 10 * num ds + (c - 48)"
  by (simp add: num_def)

lemma num_show_nat [simp]: "num (show_nat n) = n"
proof (induction n rule: show_nat.induct)
  case (1 n)
  show ?case
  proof (cases "n < 10")
    case True
    then show ?thesis by (simp add: show_nat.simps [of n] num_def)
  next
    case False
    with "1.IH" show ?thesis by (simp add: show_nat.simps [of n] num_append)
  qed
qed

lemma show_nat_digits: "\<forall>c \<in> set (show_nat n). is_digit c"
proof (induction n rule: show_nat.induct)
  case (1 n)
  show ?case
  proof (cases "n < 10")
    case True
    then show ?thesis by (simp add: show_nat.simps [of n] is_digit_def)
  next
    case False
    with "1.IH" show ?thesis by (auto simp: show_nat.simps [of n] is_digit_def)
  qed
qed

lemma show_nat_not_Nil [simp]: "show_nat n \<noteq> []"
  by (simp add: show_nat.simps [of n])

lemma show_nat_inject [simp]: "show_nat m = show_nat n \<longleftrightarrow> m = n"
  by (metis num_show_nat)

lemma show_nat_no_minus: "show_nat n \<noteq> 45 # ds"
proof
  assume eq: "show_nat n = 45 # ds"
  have "is_digit 45" using show_nat_digits [of n] unfolding eq by simp
  then show False by (simp add: is_digit_def)
qed

lemma show_int_not_Nil [simp]: "show_int i \<noteq> []"
  by (simp add: show_int_def)

lemma show_int_inject [simp]: "show_int i = show_int j \<longleftrightarrow> i = j"
  by (auto simp: show_int_def show_nat_no_minus dest: sym)

text \<open>\<open>tuple(dict.fromkeys(xs))\<close>: the first occurrence of each element, in order.\<close>

fun dedup :: "'a list \<Rightarrow> 'a list" where
  "dedup [] = []"
| "dedup (x # xs) = x # filter (\<lambda>y. y \<noteq> x) (dedup xs)"

lemma set_dedup [simp]: "set (dedup xs) = set xs"
  by (induction xs) auto

lemma distinct_dedup [simp]: "distinct (dedup xs)"
  by (induction xs) auto

lemma dedup_eq_Nil_iff [simp]: "dedup xs = [] \<longleftrightarrow> xs = []"
  by (cases xs) auto

section \<open>Reachable states\<close>

inductive reachable :: "('s \<Rightarrow> bool) \<Rightarrow> ('s \<Rightarrow> 's \<Rightarrow> bool) \<Rightarrow> 's \<Rightarrow> bool"
  for init :: "'s \<Rightarrow> bool" and step :: "'s \<Rightarrow> 's \<Rightarrow> bool" where
  reach_init: "init s \<Longrightarrow> reachable init step s"
| reach_step: "reachable init step s \<Longrightarrow> step s t \<Longrightarrow> reachable init step t"

text \<open>
  The contract between a machine and the facts about its runs: an invariant that holds
  initially and that every step keeps.
\<close>

locale invariant_system =
  fixes init :: "'s \<Rightarrow> bool"
    and step :: "'s \<Rightarrow> 's \<Rightarrow> bool"
    and invar :: "'s \<Rightarrow> bool"
  assumes invar_init: "init s \<Longrightarrow> invar s"
    and invar_step: "invar s \<Longrightarrow> step s t \<Longrightarrow> invar t"
begin

lemma invar_reachable: "reachable init step s \<Longrightarrow> invar s"
  by (induction rule: reachable.induct) (auto intro: invar_init invar_step)

lemma invar_run: "step\<^sup>*\<^sup>* s t \<Longrightarrow> invar s \<Longrightarrow> invar t"
  by (induction rule: rtranclp_induct) (auto intro: invar_step)

end

text \<open>
  A machine whose steps are stamped with a revision: the contract optimistic concurrency
  relies on. An accepted step either leaves the state as it was or moves the revision up
  by exactly one.
\<close>

locale revisioned =
  fixes step :: "'s \<Rightarrow> 's \<Rightarrow> bool"
    and rev_of :: "'s \<Rightarrow> int"
  assumes rev_step: "step s t \<Longrightarrow> t = s \<or> rev_of t = rev_of s + 1"
begin

lemma rev_run: "step\<^sup>*\<^sup>* s t \<Longrightarrow> rev_of s \<le> rev_of t"
proof (induction rule: rtranclp_induct)
  case base
  show ?case by simp
next
  case (step u v)
  from rev_step [OF step.hyps(2)] step.IH show ?case by auto
qed

lemma same_rev_same_state: "step\<^sup>*\<^sup>* s t \<Longrightarrow> rev_of s = rev_of t \<Longrightarrow> s = t"
proof (induction rule: rtranclp_induct)
  case base
  show ?case by simp
next
  case (step u v)
  have le: "rev_of s \<le> rev_of u" by (rule rev_run [OF step.hyps(1)])
  from rev_step [OF step.hyps(2)] show ?case
  proof
    assume "v = u"
    with step.IH step.prems show ?thesis by simp
  next
    assume "rev_of v = rev_of u + 1"
    with le step.prems show ?thesis by simp
  qed
qed

end

end
