(* ===== verification/States.thy ===== *)
theory States
  imports Prelude
begin

text \<open>
  The canonical state vocabulary of the domain package (\<open>states.py\<close>): the enumerations of the
  product and the admissible pairings of a run's status and outcome.
\<close>

section \<open>Vocabulary\<close>

datatype run_status =
    QUEUED | LEASED | RUNNING | FINALIZING | COMPLETED | INTERRUPTED | CANCELLED

datatype outcome = NOT_EVALUATED | PASS | FAIL | INCONCLUSIVE

datatype condition = TRUE | FALSE | UNKNOWN

datatype finding_status = CANDIDATE | REPRODUCED | DISMISSED | RESOLVED

datatype patch_status =
    PROPOSED | APPROVED | BUILDING | VERIFYING | VERIFIED | REVIEW_ACCEPTED | REJECTED
  | STALE | FAILED

datatype review_verdict = ACCEPT | CHANGES_REQUESTED | UNABLE_TO_ASSESS

datatype runner_status = OFFLINE | PREFLIGHT_REQUIRED | READY | BUSY | QUARANTINED

datatype approval_scope = RUN_EFFECTS | PATCH_APPLY | GITHUB_PUBLISH

text \<open>The string value of each member, as a \<open>StrEnum\<close> prints and stores it.\<close>

fun run_status_value :: "run_status \<Rightarrow> pytext" where
  "run_status_value QUEUED = str ''QUEUED''"
| "run_status_value LEASED = str ''LEASED''"
| "run_status_value RUNNING = str ''RUNNING''"
| "run_status_value FINALIZING = str ''FINALIZING''"
| "run_status_value COMPLETED = str ''COMPLETED''"
| "run_status_value INTERRUPTED = str ''INTERRUPTED''"
| "run_status_value CANCELLED = str ''CANCELLED''"

fun outcome_value :: "outcome \<Rightarrow> pytext" where
  "outcome_value NOT_EVALUATED = str ''NOT_EVALUATED''"
| "outcome_value PASS = str ''PASS''"
| "outcome_value FAIL = str ''FAIL''"
| "outcome_value INCONCLUSIVE = str ''INCONCLUSIVE''"

fun condition_value :: "condition \<Rightarrow> pytext" where
  "condition_value TRUE = str ''TRUE''"
| "condition_value FALSE = str ''FALSE''"
| "condition_value UNKNOWN = str ''UNKNOWN''"

section \<open>Status and outcome\<close>

definition TERMINAL_STATUSES :: "run_status set" where
  "TERMINAL_STATUSES = {COMPLETED, INTERRUPTED, CANCELLED}"

definition NONTERMINAL_STATUSES :: "run_status set" where
  "NONTERMINAL_STATUSES = {QUEUED, LEASED, RUNNING, FINALIZING}"

definition NORMAL_PROGRESSION :: "run_status \<rightharpoonup> run_status" where
  "NORMAL_PROGRESSION =
     [QUEUED \<mapsto> LEASED, LEASED \<mapsto> RUNNING, RUNNING \<mapsto> FINALIZING, FINALIZING \<mapsto> COMPLETED]"

definition is_terminal :: "run_status \<Rightarrow> bool" where
  "is_terminal status \<longleftrightarrow> status \<in> TERMINAL_STATUSES"

text \<open>
  The final \<open>raise AssertionError\<close> of the source is unreachable
  (\<open>statuses_partition\<close> below); it is the value \<open>None\<close>.
\<close>

definition admissible_outcomes_opt :: "run_status \<Rightarrow> bool \<Rightarrow> outcome set option" where
  "admissible_outcomes_opt status execution_began =
     (if status \<in> NONTERMINAL_STATUSES then Some {NOT_EVALUATED}
      else if status = COMPLETED then Some {PASS, FAIL, INCONCLUSIVE}
      else if status = INTERRUPTED then Some {INCONCLUSIVE}
      else if status = CANCELLED then
        Some (if execution_began then {INCONCLUSIVE} else {NOT_EVALUATED})
      else None)"

definition admissible_outcomes :: "run_status \<Rightarrow> bool \<Rightarrow> outcome set" where
  "admissible_outcomes status execution_began =
     (case admissible_outcomes_opt status execution_began of None \<Rightarrow> {} | Some os \<Rightarrow> os)"

definition is_admissible_pair :: "run_status \<Rightarrow> outcome \<Rightarrow> bool \<Rightarrow> bool" where
  "is_admissible_pair status oc execution_began \<longleftrightarrow>
     oc \<in> admissible_outcomes status execution_began"

lemmas status_set_defs [vocab_simps] =
  TERMINAL_STATUSES_def NONTERMINAL_STATUSES_def NORMAL_PROGRESSION_def is_terminal_def

lemma statuses_partition:
  "NONTERMINAL_STATUSES \<union> TERMINAL_STATUSES = UNIV \<and> NONTERMINAL_STATUSES \<inter> TERMINAL_STATUSES = {}"
proof -
  have "s \<in> NONTERMINAL_STATUSES \<longleftrightarrow> s \<notin> TERMINAL_STATUSES" for s
    by (cases s) (simp_all add: vocab_simps)
  then show ?thesis by auto
qed

lemma admissible_outcomes_total: "admissible_outcomes_opt status began \<noteq> None"
  by (cases status) (simp_all add: admissible_outcomes_opt_def vocab_simps)

lemma admissible_outcomes_nonempty: "admissible_outcomes status began \<noteq> {}"
  by (cases status) (simp_all add: admissible_outcomes_def admissible_outcomes_opt_def vocab_simps)

lemma is_admissible_pair_simps [simp]:
  "is_admissible_pair QUEUED oc b \<longleftrightarrow> oc = NOT_EVALUATED"
  "is_admissible_pair LEASED oc b \<longleftrightarrow> oc = NOT_EVALUATED"
  "is_admissible_pair RUNNING oc b \<longleftrightarrow> oc = NOT_EVALUATED"
  "is_admissible_pair FINALIZING oc b \<longleftrightarrow> oc = NOT_EVALUATED"
  "is_admissible_pair COMPLETED oc b \<longleftrightarrow> oc \<noteq> NOT_EVALUATED"
  "is_admissible_pair INTERRUPTED oc b \<longleftrightarrow> oc = INCONCLUSIVE"
  "is_admissible_pair CANCELLED oc b \<longleftrightarrow> oc = (if b then INCONCLUSIVE else NOT_EVALUATED)"
  by (cases oc; auto simp: is_admissible_pair_def admissible_outcomes_def
        admissible_outcomes_opt_def vocab_simps)+

end
