(* ===== verification/Timestamps.thy ===== *)
theory Timestamps
  imports Prelude "HOL-Library.List_Lexorder"
begin

text \<open>
  RFC3339 UTC timestamps (\<open>timestamps.py\<close>). Authority decisions turn on comparing two
  timestamps, so the file models the parser digit by digit: the accepted shape, the field
  ranges of \<open>datetime.fromisoformat\<close> and its truncation of the fraction to microseconds.
  An aware \<open>datetime\<close> is the UTC fields it denotes together with its offset; aware UTC values
  compare field by field.

  \<open>\d\<close> of the source pattern also matches non-ASCII decimal digits; \<open>fromisoformat\<close> then refuses
  the value with the same exception, so the model refuses them at once.
\<close>

section \<open>Instants\<close>

datatype instant = Instant
  (year: nat) (month: nat) (day: nat) (hour: nat) (minute: nat) (second: nat) (microsecond: nat)

definition instant_fields :: "instant \<Rightarrow> nat list" where
  "instant_fields i = [year i, month i, day i, hour i, minute i, second i, microsecond i]"

lemma instant_fields_inject: "instant_fields i = instant_fields j \<longleftrightarrow> i = j"
  by (cases i; cases j) (simp add: instant_fields_def)

instantiation instant :: linorder
begin

definition less_eq_instant :: "instant \<Rightarrow> instant \<Rightarrow> bool" where
  "less_eq_instant i j \<longleftrightarrow> instant_fields i \<le> instant_fields j"

definition less_instant :: "instant \<Rightarrow> instant \<Rightarrow> bool" where
  "less_instant i j \<longleftrightarrow> instant_fields i < instant_fields j"

instance
  by standard
    (auto simp: less_eq_instant_def less_instant_def less_le_not_le instant_fields_inject
      intro: order_trans)

end

definition leap :: "nat \<Rightarrow> bool" where
  "leap y \<longleftrightarrow> y mod 4 = 0 \<and> (y mod 100 \<noteq> 0 \<or> y mod 400 = 0)"

definition days_in_month :: "nat \<Rightarrow> nat \<Rightarrow> nat" where
  "days_in_month y m =
     (if m = 2 then (if leap y then 29 else 28)
      else if m \<in> {4, 6, 9, 11} then 30 else 31)"

definition valid_instant :: "instant \<Rightarrow> bool" where
  "valid_instant i \<longleftrightarrow>
     1 \<le> year i \<and> year i \<le> 9999 \<and> 1 \<le> month i \<and> month i \<le> 12 \<and>
     1 \<le> day i \<and> day i \<le> days_in_month (year i) (month i) \<and>
     hour i \<le> 23 \<and> minute i \<le> 59 \<and> second i \<le> 59 \<and> microsecond i \<le> 999999"

section \<open>Parsing\<close>

datatype timestamp_error = TimestampError

text \<open>The part of the pattern up to the seconds, and what follows them.\<close>

definition date_time_shape :: "pytext \<Rightarrow> bool" where
  "date_time_shape s \<longleftrightarrow> 19 \<le> length s \<and>
     list_all (\<lambda>i. is_digit (s ! i)) [0, 1, 2, 3, 5, 6, 8, 9, 11, 12, 14, 15, 17, 18] \<and>
     s ! 4 = 45 \<and> s ! 7 = 45 \<and> s ! 10 = 84 \<and> s ! 13 = 58 \<and> s ! 16 = 58"

text \<open>
  \<open>(\.\d+)?Z$\<close>: the fraction digits and what the \<open>$\<close> leaves, which is nothing or one
  newline.
\<close>

definition zone_shape :: "pytext \<Rightarrow> (pytext \<times> pytext) option" where
  "zone_shape r =
     (case r of
        [] \<Rightarrow> None
      | c # t \<Rightarrow>
          if c = 90 then (if t = [] \<or> t = [10] then Some ([], t) else None)
          else if c = 46 then
            (let ds = takeWhile is_digit t; z = dropWhile is_digit t
             in if ds \<noteq> [] \<and> (z = [90] \<or> z = [90, 10]) then Some (ds, tl z) else None)
          else None)"

definition RFC3339_UTC :: "pytext \<Rightarrow> (pytext \<times> pytext) option" where
  "RFC3339_UTC s = (if date_time_shape s then zone_shape (drop 19 s) else None)"

text \<open>Microseconds of a fraction: six digits, padded or cut off.\<close>

definition micros :: "pytext \<Rightarrow> nat" where
  "micros ds = num (take 6 (ds @ [48, 48, 48, 48, 48, 48]))"

text \<open>\<open>datetime.fromisoformat\<close> on a value the pattern accepted; a trailing newline is refused.\<close>

definition fromisoformat :: "pytext \<Rightarrow> pytext \<times> pytext \<Rightarrow> instant option" where
  "fromisoformat s p =
     (let i = Instant (num (take 4 s)) (num (take 2 (drop 5 s))) (num (take 2 (drop 8 s)))
                (num (take 2 (drop 11 s))) (num (take 2 (drop 14 s))) (num (take 2 (drop 17 s)))
                (micros (fst p))
      in if snd p = [] \<and> valid_instant i then Some i else None)"

definition parse_rfc3339_utc :: "pytext \<Rightarrow> (timestamp_error, instant) result" where
  "parse_rfc3339_utc value =
     (case RFC3339_UTC value of
        None \<Rightarrow> Inl TimestampError
      | Some p \<Rightarrow>
          (case fromisoformat value p of
             None \<Rightarrow> Inl TimestampError
           | Some parsed \<Rightarrow> Inr parsed))"

section \<open>Formatting\<close>

datatype py_datetime = Naive instant | Aware instant int

fun pad :: "nat \<Rightarrow> nat \<Rightarrow> pytext" where
  "pad 0 n = []"
| "pad (Suc k) n = pad k (n div 10) @ [48 + n mod 10]"

definition isoformat_utc :: "instant \<Rightarrow> pytext" where
  "isoformat_utc i =
     pad 4 (year i) @ [45] @ pad 2 (month i) @ [45] @ pad 2 (day i) @ [84] @
     pad 2 (hour i) @ [58] @ pad 2 (minute i) @ [58] @ pad 2 (second i) @ [46] @
     pad 6 (microsecond i) @ [90]"

definition to_rfc3339_utc :: "py_datetime \<Rightarrow> (timestamp_error, pytext) result" where
  "to_rfc3339_utc value =
     (case value of
        Naive _ \<Rightarrow> Inl TimestampError
      | Aware utc _ \<Rightarrow> Inr (isoformat_utc utc))"

section \<open>Comparison\<close>

definition is_expired :: "pytext \<Rightarrow> pytext \<Rightarrow> (timestamp_error, bool) result" where
  "is_expired now expires_at =
     bind_result (parse_rfc3339_utc now) (\<lambda>n.
     bind_result (parse_rfc3339_utc expires_at) (\<lambda>e. Inr (e \<le> n)))"

definition is_after :: "pytext \<Rightarrow> pytext \<Rightarrow> (timestamp_error, bool) result" where
  "is_after later earlier =
     bind_result (parse_rfc3339_utc later) (\<lambda>l.
     bind_result (parse_rfc3339_utc earlier) (\<lambda>e. Inr (e < l)))"

section \<open>Facts\<close>

lemma pad_numeral:
  "pad (numeral k) n = pad (pred_numeral k) (n div 10) @ [48 + n mod 10]"
  by (simp only: numeral_eq_Suc [of k] pad.simps)

lemma length_pad [simp]: "length (pad k n) = k"
  by (induction k arbitrary: n) auto

lemma digits_pad: "\<forall>c \<in> set (pad k n). is_digit c"
  by (induction k arbitrary: n) (auto simp: is_digit_def)

lemma is_digit_pad_nth [simp]: "i < k \<Longrightarrow> is_digit (pad k n ! i)"
  using digits_pad [of k n] by (metis length_pad nth_mem)

lemma num_pad: "num (pad k n) = n mod 10 ^ k"
proof (induction k arbitrary: n)
  case 0
  show ?case by (simp add: num_def)
next
  case (Suc k)
  have "n mod (10 * 10 ^ k) = 10 * (n div 10 mod 10 ^ k) + n mod 10"
    by (rule mod_mult2_eq)
  then show ?case by (simp add: num_append Suc.IH)
qed

lemma takeWhile_pad: "takeWhile is_digit (pad k n @ 90 # t) = pad k n"
  by (subst takeWhile_append2) (use digits_pad in \<open>auto simp: is_digit_def\<close>)

lemma dropWhile_pad: "dropWhile is_digit (pad k n @ 90 # t) = 90 # t"
  by (subst dropWhile_append2) (use digits_pad in \<open>auto simp: is_digit_def\<close>)

lemma isoformat_matches:
  "RFC3339_UTC (isoformat_utc i) = Some (pad 6 (microsecond i), [])"
proof -
  have ne: "pad 6 n \<noteq> []" for n
    by (metis length_pad list.size(3) zero_neq_numeral)
  have "date_time_shape (isoformat_utc i)"
    by (simp add: date_time_shape_def isoformat_utc_def nth_append)
  moreover have "drop 19 (isoformat_utc i) = 46 # pad 6 (microsecond i) @ [90]"
    by (simp add: isoformat_utc_def)
  ultimately show ?thesis
    by (simp add: RFC3339_UTC_def zone_shape_def takeWhile_pad dropWhile_pad ne)
qed

lemma parse_isoformat:
  assumes "valid_instant i"
  shows "parse_rfc3339_utc (isoformat_utc i) = Inr i"
proof -
  have day: "day i < 100"
    using assms by (auto simp: valid_instant_def days_in_month_def split: if_splits)
  have bounds: "year i < 10000" "month i < 100" "hour i < 100" "minute i < 100"
      "second i < 100" "microsecond i < 1000000"
    using assms by (auto simp: valid_instant_def)
  have "fromisoformat (isoformat_utc i) (pad 6 (microsecond i), []) = Some i"
    using assms day bounds
    by (cases i) (simp add: fromisoformat_def isoformat_utc_def micros_def num_pad)
  then show ?thesis
    by (simp add: parse_rfc3339_utc_def isoformat_matches)
qed

lemma parse_valid: "parse_rfc3339_utc s = Inr i \<Longrightarrow> valid_instant i"
  by (auto simp: parse_rfc3339_utc_def fromisoformat_def Let_def split: option.splits if_splits)

lemma is_expired_Inr:
  "is_expired n e = Inr b \<longleftrightarrow>
     (\<exists>i j. parse_rfc3339_utc n = Inr i \<and> parse_rfc3339_utc e = Inr j \<and> b = (j \<le> i))"
  by (auto simp: is_expired_def result_simps)

lemma is_after_Inr:
  "is_after l e = Inr b \<longleftrightarrow>
     (\<exists>i j. parse_rfc3339_utc l = Inr i \<and> parse_rfc3339_utc e = Inr j \<and> b = (j < i))"
  by (auto simp: is_after_def result_simps)

lemma micros_truncates: "6 \<le> length ds \<Longrightarrow> micros (ds @ es) = micros ds"
  by (simp add: micros_def)

text \<open>Evaluation of a closed timestamp.\<close>

lemmas timestamp_eval =
  parse_rfc3339_utc_def RFC3339_UTC_def date_time_shape_def zone_shape_def fromisoformat_def
  micros_def num_def str_def is_digit_def valid_instant_def days_in_month_def leap_def Let_def

section \<open>The interface the authority checks rely on\<close>

text \<open>
  A clock by text: two comparisons that agree with a total order of the instants they read,
  and that fail only when a text is not an instant.
\<close>

locale expiry_clock =
  fixes instant_of :: "pytext \<Rightarrow> ('e, 'i::linorder) result"
    and expired :: "pytext \<Rightarrow> pytext \<Rightarrow> ('e, bool) result"
    and after :: "pytext \<Rightarrow> pytext \<Rightarrow> ('e, bool) result"
  assumes expired_iff: "expired n e = Inr b \<longleftrightarrow>
      (\<exists>i j. instant_of n = Inr i \<and> instant_of e = Inr j \<and> b = (j \<le> i))"
    and after_iff: "after l e = Inr b \<longleftrightarrow>
      (\<exists>i j. instant_of l = Inr i \<and> instant_of e = Inr j \<and> b = (j < i))"
begin

lemma expired_stays:
  assumes "expired n e = Inr True" and "after n n' = Inr False"
  shows "expired n' e = Inr True"
  using assms by (auto simp: expired_iff after_iff intro: order_trans)

lemma live_before:
  "expired n e = Inr False \<Longrightarrow> after n' n = Inr False \<Longrightarrow> expired n' e = Inr False"
  by (auto simp: expired_iff after_iff)

lemma contained_expiry:
  "after e g = Inr False \<Longrightarrow> expired n e = Inr False \<Longrightarrow> expired n g = Inr False"
  by (auto simp: expired_iff after_iff)

lemma expired_at_boundary: "instant_of e = Inr i \<Longrightarrow> expired e e = Inr True"
  by (simp add: expired_iff)

end

interpretation utc: expiry_clock parse_rfc3339_utc is_expired is_after
  by unfold_locales (rule is_expired_Inr is_after_Inr)+

section \<open>Properties\<close>

text \<open>
  What is written is read back. An aware datetime, whatever its session offset, is written as
  a text that parses to the same UTC instant, and two written texts compare exactly as their
  instants do, with expiry inclusive of the boundary.
\<close>

theorem written_timestamps_compare:
  assumes "valid_instant i" and "valid_instant j"
    and "to_rfc3339_utc (Aware i o1) = Inr s" and "to_rfc3339_utc (Aware j o2) = Inr t"
  shows "parse_rfc3339_utc s = Inr i \<and> is_expired s t = Inr (j \<le> i) \<and> is_after s t = Inr (j < i)"
  using assms by (auto simp: to_rfc3339_utc_def parse_isoformat is_expired_Inr is_after_Inr)

lemma written_timestamps_compare_witness:
  "is_expired (str ''2026-09-09T12:00:00.000001Z'') (str ''2026-09-09T12:00:00.000000Z'') = Inr True"
  using written_timestamps_compare
    [of "Instant 2026 9 9 12 0 0 1" "Instant 2026 9 9 12 0 0 0" 0
        "str ''2026-09-09T12:00:00.000001Z''" "-25200" "str ''2026-09-09T12:00:00.000000Z''"]
  by (simp add: to_rfc3339_utc_def isoformat_utc_def str_def valid_instant_def days_in_month_def
      leap_def less_eq_instant_def instant_fields_def pad_numeral)

text \<open>
  Expiry is final. A deadline that has been reached stays reached at every later time, and a
  deadline is reached at its own instant.
\<close>

theorem expiry_is_final:
  assumes "is_expired now deadline = Inr True" and "is_after now later = Inr False"
  shows "is_expired later deadline = Inr True \<and> is_expired deadline deadline = Inr True"
  using utc.expired_stays [OF assms] assms(1) utc.expired_at_boundary
  by (auto simp: is_expired_Inr)

lemma expiry_is_final_witness:
  "is_expired (str ''2026-09-09T12:00:01Z'') (str ''2026-09-09T12:00:00Z'') = Inr True"
proof -
  have "is_expired (str ''2026-09-09T12:00:00.000001Z'') (str ''2026-09-09T12:00:00Z'') = Inr True"
    "is_after (str ''2026-09-09T12:00:00.000001Z'') (str ''2026-09-09T12:00:01Z'') = Inr False"
    by (simp_all add: is_expired_def is_after_def timestamp_eval result_simps less_eq_instant_def
        less_instant_def instant_fields_def)
  with expiry_is_final show ?thesis by blast
qed

text \<open>
  Fractions are cut off at six digits. Two timestamps that differ only beyond the microsecond
  are the same instant, so a deadline can be reported as reached before it is.
\<close>

theorem beyond_microseconds_ignored:
  assumes "date_time_shape s" and "length s = 19" and "list_all is_digit ds" and "6 \<le> length ds"
    and "list_all is_digit es"
  shows "parse_rfc3339_utc (s @ 46 # ds @ es @ [90]) = parse_rfc3339_utc (s @ 46 # ds @ [90])"
proof -
  have shape: "date_time_shape (s @ r)" for r
    using assms(1,2) by (simp add: date_time_shape_def nth_append)
  have zone: "zone_shape (46 # fs @ [90]) = Some (fs, [])"
    if "list_all is_digit fs" "fs \<noteq> []" for fs
  proof -
    have "takeWhile is_digit (fs @ [90]) = fs" "dropWhile is_digit (fs @ [90]) = [90]"
      using that(1) by (simp_all add: list_all_iff is_digit_def)
    with that(2) show ?thesis by (simp add: zone_shape_def Let_def)
  qed
  have "fromisoformat (s @ 46 # ds @ es @ [90]) (ds @ es, []) =
      fromisoformat (s @ 46 # ds @ [90]) (ds, [])"
    using assms(2,4) by (simp add: fromisoformat_def micros_truncates take_append drop_append)
  moreover have "ds \<noteq> []" using assms(4) by auto
  ultimately show ?thesis
    using shape zone [of "ds @ es"] zone [of ds] assms
    by (simp add: parse_rfc3339_utc_def RFC3339_UTC_def)
qed

lemma beyond_microseconds_ignored_witness:
  "parse_rfc3339_utc (str ''2026-09-09T12:00:00.0000001Z'') =
   parse_rfc3339_utc (str ''2026-09-09T12:00:00.000000Z'')"
  using beyond_microseconds_ignored
    [of "str ''2026-09-09T12:00:00''" "str ''000000''" "str ''1''"]
  by (simp add: str_def date_time_shape_def is_digit_def)

end
