(* ===== verification/Reducers.thy ===== *)
theory Reducers
  imports States Timestamps
begin

text \<open>
  The pure state transitions of a run (\<open>reducers.py\<close>). Every reducer takes the state and what
  its caller observed and returns the next state or the refusal. Each branch that raises
  \<open>TransitionError\<close> has a constructor of its own; a malformed timestamp met by
  \<open>stopped_in_response_to_cancellation\<close> escapes as \<open>MalformedTimestamp\<close>.
\<close>

section \<open>State and refusals\<close>

record run_state =
  run_id :: pytext
  status :: run_status
  run_outcome :: outcome
  revision :: int
  lease_epoch :: int
  execution_began :: bool
  unresolved_action :: bool
  cancel_requested_at :: "pytext option"
  cancellation_revision :: "int option"
  stop_acknowledged_at :: "pytext option"
  stop_acknowledged_epoch :: "int option"
  ambiguity_reason :: "pytext option"
  quarantined :: bool

datatype transition_error =
    StaleRevision int int
  | TerminalRecord
  | CancellationFence
  | NoNormalProgression
  | CompletionNeedsOutcome
  | NotQueued
  | EpochDoesNotAdvance
  | NotRunning
  | ActionUnresolved
  | NoActionUnresolved
  | StaleAcknowledgement
  | CancellationNotRequested
  | NotPhysicallyStopped
  | AcknowledgementPredatesRequest
  | ReasonMissing
  | NotFinalizing
  | OutcomeInadmissible
  | MalformedTimestamp

type_synonym transition = "(transition_error, run_state) result"

definition new_run :: "pytext \<Rightarrow> run_state" where
  "new_run rid =
     \<lparr>run_id = rid, status = QUEUED, run_outcome = NOT_EVALUATED, revision = 0, lease_epoch = 0,
      execution_began = False, unresolved_action = False, cancel_requested_at = None,
      cancellation_revision = None, stop_acknowledged_at = None, stop_acknowledged_epoch = None,
      ambiguity_reason = None, quarantined = False\<rparr>"

definition cancellation_requested :: "run_state \<Rightarrow> bool" where
  "cancellation_requested s \<longleftrightarrow> cancel_requested_at s \<noteq> None"

definition physically_stopped :: "run_state \<Rightarrow> bool" where
  "physically_stopped s \<longleftrightarrow>
     stop_acknowledged_at s \<noteq> None \<and> stop_acknowledged_epoch s = Some (lease_epoch s)"

definition stopped_in_response_to_cancellation ::
  "run_state \<Rightarrow> (transition_error, bool) result" where
  "stopped_in_response_to_cancellation s =
     (if \<not> physically_stopped s \<or> cancel_requested_at s = None then Inr False
      else map_error (\<lambda>_. MalformedTimestamp)
             (bind_result
               (is_after (the (cancel_requested_at s)) (the (stop_acknowledged_at s)))
               (\<lambda>b. Inr (\<not> b))))"

definition require_expected_revision ::
  "run_state \<Rightarrow> int option \<Rightarrow> (transition_error, unit) result" where
  "require_expected_revision s expected =
     (case expected of
        None \<Rightarrow> Inr ()
      | Some e \<Rightarrow> if e \<noteq> revision s then Inl (StaleRevision e (revision s)) else Inr ())"

definition require_nonterminal :: "run_state \<Rightarrow> (transition_error, unit) result" where
  "require_nonterminal s = (if is_terminal (status s) then Inl TerminalRecord else Inr ())"

text \<open>
  The two checks every reducer opens with, and \<open>_advance\<close>: the changes of a transition together
  with the revision.
\<close>

definition opening_checks :: "run_state \<Rightarrow> int option \<Rightarrow> transition \<Rightarrow> transition" where
  "opening_checks s expected k =
     bind_result (require_expected_revision s expected) (\<lambda>_.
     bind_result (require_nonterminal s) (\<lambda>_. k))"

definition advance :: "run_state \<Rightarrow> (run_state \<Rightarrow> run_state) \<Rightarrow> transition" where
  "advance s changes = Inr ((changes s)\<lparr>revision := revision s + 1\<rparr>)"

section \<open>Reducers\<close>

definition progress :: "run_state \<Rightarrow> int option \<Rightarrow> transition" where
  "progress s expected = opening_checks s expected
     (if cancellation_requested s then Inl CancellationFence
      else case NORMAL_PROGRESSION (status s) of
             None \<Rightarrow> Inl NoNormalProgression
           | Some next_status \<Rightarrow>
               if next_status = COMPLETED then Inl CompletionNeedsOutcome
               else advance s (\<lambda>s. s\<lparr>status := next_status,
                      execution_began := execution_began s \<or> next_status = RUNNING\<rparr>))"

definition admit_to_desktop :: "run_state \<Rightarrow> int \<Rightarrow> int option \<Rightarrow> transition" where
  "admit_to_desktop s epoch expected = opening_checks s expected
     (if cancellation_requested s then Inl CancellationFence
      else if status s \<noteq> QUEUED then Inl NotQueued
      else if epoch \<le> lease_epoch s then Inl EpochDoesNotAdvance
      else advance s (\<lambda>s. s\<lparr>status := LEASED, lease_epoch := epoch\<rparr>))"

definition admit_action :: "run_state \<Rightarrow> int option \<Rightarrow> transition" where
  "admit_action s expected = opening_checks s expected
     (if status s \<noteq> RUNNING then Inl NotRunning
      else if cancellation_requested s then Inl CancellationFence
      else if unresolved_action s then Inl ActionUnresolved
      else advance s (\<lambda>s. s\<lparr>unresolved_action := True, execution_began := True\<rparr>))"

definition resolve_action :: "run_state \<Rightarrow> int option \<Rightarrow> transition" where
  "resolve_action s expected = opening_checks s expected
     (if \<not> unresolved_action s then Inl NoActionUnresolved
      else advance s (\<lambda>s. s\<lparr>unresolved_action := False\<rparr>))"

definition request_cancellation :: "run_state \<Rightarrow> pytext \<Rightarrow> int option \<Rightarrow> transition" where
  "request_cancellation s requested_at expected = opening_checks s expected
     (if cancellation_requested s then Inr s
      else advance s (\<lambda>s. s\<lparr>cancel_requested_at := Some requested_at,
             cancellation_revision := Some (revision s)\<rparr>))"

definition acknowledge_stop :: "run_state \<Rightarrow> pytext \<Rightarrow> int \<Rightarrow> int option \<Rightarrow> transition" where
  "acknowledge_stop s acknowledged_at epoch expected = opening_checks s expected
     (if epoch \<noteq> lease_epoch s then Inl StaleAcknowledgement
      else advance s (\<lambda>s. s\<lparr>stop_acknowledged_at := Some acknowledged_at,
             stop_acknowledged_epoch := Some epoch\<rparr>))"

definition cancel :: "run_state \<Rightarrow> int option \<Rightarrow> transition" where
  "cancel s expected = opening_checks s expected
     (if \<not> cancellation_requested s then Inl CancellationNotRequested
      else
        let provably_never_dispatched =
              status s = QUEUED \<and> \<not> execution_began s \<and> \<not> unresolved_action s;
            finish = advance s (\<lambda>s. s\<lparr>status := CANCELLED,
              run_outcome := (if execution_began s then INCONCLUSIVE else NOT_EVALUATED)\<rparr>)
        in if provably_never_dispatched then finish
           else if unresolved_action s then Inl ActionUnresolved
           else if \<not> physically_stopped s then Inl NotPhysicallyStopped
           else bind_result (stopped_in_response_to_cancellation s)
                  (\<lambda>b. if \<not> b then Inl AcknowledgementPredatesRequest else finish))"

definition interrupt :: "run_state \<Rightarrow> pytext \<Rightarrow> int option \<Rightarrow> transition" where
  "interrupt s reason expected = opening_checks s expected
     (if blank reason then Inl ReasonMissing
      else advance s (\<lambda>s. s\<lparr>status := INTERRUPTED, run_outcome := INCONCLUSIVE,
             ambiguity_reason := Some reason, quarantined := True\<rparr>))"

definition complete :: "run_state \<Rightarrow> outcome \<Rightarrow> int option \<Rightarrow> transition" where
  "complete s oc expected = opening_checks s expected
     (if status s \<noteq> FINALIZING then Inl NotFinalizing
      else if unresolved_action s then Inl ActionUnresolved
      else if oc \<notin> admissible_outcomes COMPLETED False then Inl OutcomeInadmissible
      else advance s (\<lambda>s. s\<lparr>status := COMPLETED, run_outcome := oc\<rparr>))"

section \<open>Inversion: what an accepted transition says\<close>

lemma opening_checks_Inr [result_simps]:
  "opening_checks s expected k = Inr t \<longleftrightarrow>
     (expected = None \<or> expected = Some (revision s)) \<and> \<not> is_terminal (status s) \<and> k = Inr t"
  by (auto simp: opening_checks_def require_expected_revision_def require_nonterminal_def
        bind_result_Inr split: option.splits if_splits)

lemma opening_checks_terminal:
  "is_terminal (status s) \<Longrightarrow> \<exists>e. opening_checks s expected k = Inl e"
  by (auto simp: opening_checks_def require_expected_revision_def require_nonterminal_def
        split: option.splits)

lemma opening_checks_open [simp]:
  "\<not> is_terminal (status s) \<Longrightarrow> opening_checks s None k = k"
  by (simp add: opening_checks_def require_expected_revision_def require_nonterminal_def)

lemma advance_Inr [result_simps]:
  "advance s f = Inr t \<longleftrightarrow> t = (f s)\<lparr>revision := revision s + 1\<rparr>"
  by (auto simp: advance_def)

lemma nonterminal_iff: "\<not> is_terminal st \<longleftrightarrow> st \<in> {QUEUED, LEASED, RUNNING, FINALIZING}"
  by (cases st) (auto simp: vocab_simps)

lemma NORMAL_PROGRESSION_Some:
  "NORMAL_PROGRESSION st = Some st' \<longleftrightarrow>
     (st, st') \<in> {(QUEUED, LEASED), (LEASED, RUNNING), (RUNNING, FINALIZING), (FINALIZING, COMPLETED)}"
  by (cases st) (auto simp: NORMAL_PROGRESSION_def)

lemma progress_Inr:
  "progress s e = Inr t \<Longrightarrow>
     \<not> cancellation_requested s \<and>
     (\<exists>n. (status s, n) \<in> {(QUEUED, LEASED), (LEASED, RUNNING), (RUNNING, FINALIZING)} \<and>
        t = s\<lparr>status := n, execution_began := execution_began s \<or> n = RUNNING,
              revision := revision s + 1\<rparr>)"
  by (auto simp: progress_def result_simps NORMAL_PROGRESSION_Some split: option.splits if_splits)

lemma admit_to_desktop_Inr:
  "admit_to_desktop s epoch e = Inr t \<Longrightarrow>
     \<not> cancellation_requested s \<and> status s = QUEUED \<and> lease_epoch s < epoch \<and>
     t = s\<lparr>status := LEASED, lease_epoch := epoch, revision := revision s + 1\<rparr>"
  by (auto simp: admit_to_desktop_def result_simps split: if_splits)

lemma admit_action_Inr:
  "admit_action s e = Inr t \<Longrightarrow>
     \<not> cancellation_requested s \<and> status s = RUNNING \<and> \<not> unresolved_action s \<and>
     t = s\<lparr>unresolved_action := True, execution_began := True, revision := revision s + 1\<rparr>"
  by (auto simp: admit_action_def result_simps split: if_splits)

lemma resolve_action_Inr:
  "resolve_action s e = Inr t \<Longrightarrow>
     \<not> is_terminal (status s) \<and> unresolved_action s \<and>
     t = s\<lparr>unresolved_action := False, revision := revision s + 1\<rparr>"
  by (auto simp: resolve_action_def result_simps split: if_splits)

lemma request_cancellation_Inr:
  "request_cancellation s at e = Inr t \<Longrightarrow>
     \<not> is_terminal (status s) \<and>
     (cancellation_requested s \<and> t = s \<or>
      \<not> cancellation_requested s \<and>
      t = s\<lparr>cancel_requested_at := Some at, cancellation_revision := Some (revision s),
            revision := revision s + 1\<rparr>)"
  by (auto simp: request_cancellation_def result_simps split: if_splits)

lemma acknowledge_stop_Inr:
  "acknowledge_stop s at epoch e = Inr t \<Longrightarrow>
     \<not> is_terminal (status s) \<and> epoch = lease_epoch s \<and>
     t = s\<lparr>stop_acknowledged_at := Some at, stop_acknowledged_epoch := Some epoch,
           revision := revision s + 1\<rparr>"
  by (auto simp: acknowledge_stop_def result_simps split: if_splits)

lemma interrupt_Inr:
  "interrupt s reason e = Inr t \<Longrightarrow>
     \<not> is_terminal (status s) \<and> \<not> blank reason \<and>
     t = s\<lparr>status := INTERRUPTED, run_outcome := INCONCLUSIVE, ambiguity_reason := Some reason,
           quarantined := True, revision := revision s + 1\<rparr>"
  by (auto simp: interrupt_def result_simps split: if_splits)

lemma complete_Inr:
  "complete s oc e = Inr t \<Longrightarrow>
     status s = FINALIZING \<and> \<not> unresolved_action s \<and> oc \<noteq> NOT_EVALUATED \<and>
     t = s\<lparr>status := COMPLETED, run_outcome := oc, revision := revision s + 1\<rparr>"
  by (cases oc) (auto simp: complete_def result_simps admissible_outcomes_def
        admissible_outcomes_opt_def vocab_simps split: if_splits)

text \<open>What a cancelled run had established.\<close>

definition stop_established :: "run_state \<Rightarrow> bool" where
  "stop_established s \<longleftrightarrow>
     (\<exists>r a i j. cancel_requested_at s = Some r \<and> stop_acknowledged_at s = Some a \<and>
        stop_acknowledged_epoch s = Some (lease_epoch s) \<and>
        parse_rfc3339_utc r = Inr i \<and> parse_rfc3339_utc a = Inr j \<and> i \<le> j)"

lemma stopped_in_response_Inr_True:
  "stopped_in_response_to_cancellation s = Inr True \<longleftrightarrow> stop_established s"
  by (auto simp: stopped_in_response_to_cancellation_def physically_stopped_def
        stop_established_def result_simps is_after_Inr split: if_splits)

lemma cancel_Inr:
  "cancel s e = Inr t \<Longrightarrow>
     \<not> is_terminal (status s) \<and> cancellation_requested s \<and> \<not> unresolved_action s \<and>
     (status s = QUEUED \<and> \<not> execution_began s \<or> stop_established s) \<and>
     t = s\<lparr>status := CANCELLED,
           run_outcome := (if execution_began s then INCONCLUSIVE else NOT_EVALUATED),
           revision := revision s + 1\<rparr>"
  by (auto simp: cancel_def result_simps Let_def stopped_in_response_Inr_True [symmetric]
        split: if_splits)

lemmas accepted =
  progress_Inr admit_to_desktop_Inr admit_action_Inr resolve_action_Inr request_cancellation_Inr
  acknowledge_stop_Inr cancel_Inr interrupt_Inr complete_Inr

end
