(* ===== verification/Run_Lifecycle.thy ===== *)
theory Run_Lifecycle
  imports Reducers
begin

text \<open>
  The machine the reducers of \<open>reducers.py\<close> make: one step per accepted reducer call, the
  invariant every stored run satisfies, and the properties of whole runs: immutable terminal
  records, the cancellation fence, what CANCELLED establishes, and that no run is stuck.
\<close>

section \<open>Steps\<close>

inductive run_step :: "run_state \<Rightarrow> run_state \<Rightarrow> bool" where
  progressed: "progress s e = Inr t \<Longrightarrow> run_step s t"
| desktop_admitted: "admit_to_desktop s epoch e = Inr t \<Longrightarrow> run_step s t"
| action_admitted: "admit_action s e = Inr t \<Longrightarrow> run_step s t"
| action_resolved: "resolve_action s e = Inr t \<Longrightarrow> run_step s t"
| cancellation_asked: "request_cancellation s at e = Inr t \<Longrightarrow> run_step s t"
| stop_acknowledged: "acknowledge_stop s at epoch e = Inr t \<Longrightarrow> run_step s t"
| cancelled: "cancel s e = Inr t \<Longrightarrow> run_step s t"
| interrupted: "interrupt s reason e = Inr t \<Longrightarrow> run_step s t"
| completed: "complete s oc e = Inr t \<Longrightarrow> run_step s t"

inductive_cases run_step_cases: "run_step s t"

definition fresh_run :: "run_state \<Rightarrow> bool" where
  "fresh_run s \<longleftrightarrow> (\<exists>rid. s = new_run rid)"

section \<open>The invariant\<close>

definition outcome_ok :: "run_state \<Rightarrow> bool" where
  "outcome_ok s \<longleftrightarrow> is_admissible_pair (status s) (run_outcome s) (execution_began s)"

definition action_ok :: "run_state \<Rightarrow> bool" where
  "action_ok s \<longleftrightarrow>
     (unresolved_action s \<longrightarrow> execution_began s) \<and>
     (status s \<in> {QUEUED, LEASED} \<longrightarrow> \<not> execution_began s) \<and>
     (status s \<in> {RUNNING, FINALIZING, COMPLETED} \<longrightarrow> execution_began s) \<and>
     (status s \<in> {COMPLETED, CANCELLED} \<longrightarrow> \<not> unresolved_action s)"

definition interruption_ok :: "run_state \<Rightarrow> bool" where
  "interruption_ok s \<longleftrightarrow>
     quarantined s = (status s = INTERRUPTED) \<and>
     (ambiguity_reason s \<noteq> None) = (status s = INTERRUPTED) \<and>
     (\<forall>r. ambiguity_reason s = Some r \<longrightarrow> \<not> blank r)"

definition cancellation_ok :: "run_state \<Rightarrow> bool" where
  "cancellation_ok s \<longleftrightarrow>
     (cancel_requested_at s = None) = (cancellation_revision s = None) \<and>
     (\<forall>r. cancellation_revision s = Some r \<longrightarrow> 0 \<le> r \<and> r < revision s) \<and>
     (status s = CANCELLED \<longrightarrow>
        cancellation_requested s \<and> (execution_began s \<longrightarrow> stop_established s))"

definition epoch_ok :: "run_state \<Rightarrow> bool" where
  "epoch_ok s \<longleftrightarrow> 0 \<le> revision s \<and> 0 \<le> lease_epoch s \<and>
     (stop_acknowledged_at s = None) = (stop_acknowledged_epoch s = None) \<and>
     (\<forall>k. stop_acknowledged_epoch s = Some k \<longrightarrow> k \<le> lease_epoch s)"

definition run_inv :: "run_state \<Rightarrow> bool" where
  "run_inv s \<longleftrightarrow> outcome_ok s \<and> action_ok s \<and> interruption_ok s \<and> cancellation_ok s \<and> epoch_ok s"

lemmas run_inv_defs =
  run_inv_def outcome_ok_def action_ok_def interruption_ok_def cancellation_ok_def epoch_ok_def
  cancellation_requested_def

lemma run_inv_init: "fresh_run s \<Longrightarrow> run_inv s"
  by (auto simp: fresh_run_def new_run_def run_inv_defs)

lemma stop_established_frame:
  "stop_established (s\<lparr>status := a, run_outcome := b, revision := c\<rparr>) = stop_established s"
  by (simp add: stop_established_def)

lemma action_ok_step:
  "action_ok s \<Longrightarrow> run_step s t \<Longrightarrow> action_ok t"
  by (erule run_step_cases; drule accepted; elim conjE disjE exE;
      clarsimp simp: action_ok_def nonterminal_iff; blast?)
lemma outcome_ok_step:
  "outcome_ok s \<Longrightarrow> action_ok s \<Longrightarrow> run_step s t \<Longrightarrow> outcome_ok t"
  by (erule run_step_cases; drule accepted; elim conjE disjE exE;
    clarsimp simp: action_ok_def outcome_ok_def nonterminal_iff; elim disjE; clarsimp)

lemma interruption_ok_step:
  "interruption_ok s \<Longrightarrow> run_step s t \<Longrightarrow> interruption_ok t"
  by (erule run_step_cases; drule accepted; elim conjE disjE exE;
   clarsimp simp: interruption_ok_def nonterminal_iff; elim disjE; clarsimp)

lemma epoch_ok_step:
  "epoch_ok s \<Longrightarrow> run_step s t \<Longrightarrow> epoch_ok t"
  by (erule run_step_cases; drule accepted; elim conjE disjE exE; clarsimp simp: epoch_ok_def; auto?)

lemma cancellation_ok_step:
  "cancellation_ok s \<Longrightarrow> epoch_ok s \<Longrightarrow> run_step s t \<Longrightarrow> cancellation_ok t"
  by (erule run_step_cases; drule accepted; elim conjE disjE exE;
    clarsimp simp: cancellation_ok_def epoch_ok_def cancellation_requested_def nonterminal_iff
      stop_established_frame; elim disjE; fastforce)

lemmas component_steps =
  action_ok_step outcome_ok_step interruption_ok_step epoch_ok_step cancellation_ok_step

lemma run_inv_step: "run_inv s \<Longrightarrow> run_step s t \<Longrightarrow> run_inv t"
  unfolding run_inv_def by (blast intro: component_steps)

interpretation run: invariant_system fresh_run run_step run_inv
  by unfold_locales (auto intro: run_inv_init run_inv_step)

section \<open>Revisions\<close>

lemma run_step_revision: "run_step s t \<Longrightarrow> t = s \<or> revision t = revision s + 1"
  by (erule run_step_cases; drule accepted) auto

interpretation run_rev: revisioned run_step revision
  by unfold_locales (rule run_step_revision)

section \<open>Terminal records\<close>

lemma run_step_nonterminal: "run_step s t \<Longrightarrow> \<not> is_terminal (status s)"
  by (erule run_step_cases; drule accepted) (auto simp: nonterminal_iff)

section \<open>The cancellation fence\<close>

definition fenced_from :: "run_state \<Rightarrow> run_state \<Rightarrow> bool" where
  "fenced_from s t \<longleftrightarrow> cancellation_requested t \<and>
     execution_began t = execution_began s \<and> lease_epoch t = lease_epoch s \<and>
     (unresolved_action t \<longrightarrow> unresolved_action s) \<and>
     status t \<in> {status s, COMPLETED, INTERRUPTED, CANCELLED} \<and>
     cancel_requested_at t = cancel_requested_at s"

lemma fenced_step: "fenced_from s u \<Longrightarrow> run_step u t \<Longrightarrow> fenced_from s t"
  by (erule run_step_cases; drule accepted; elim conjE disjE exE;
      clarsimp simp: fenced_from_def cancellation_requested_def nonterminal_iff)

interpretation fence: invariant_system "\<lambda>t. t = s \<and> cancellation_requested s" run_step "fenced_from s"
proof
  show "t = s \<and> cancellation_requested s \<Longrightarrow> fenced_from s t" for t
    by (simp add: fenced_from_def)
  show "fenced_from s u \<Longrightarrow> run_step u t \<Longrightarrow> fenced_from s t" for u t
    by (rule fenced_step)
qed

section \<open>Properties of runs\<close>

lemma reachable_run_inv: "reachable fresh_run run_step s \<Longrightarrow> run_inv s"
  by (rule run.invar_reachable)

lemma reachable_new_run: "reachable fresh_run run_step (new_run r)"
  by (rule reach_init) (auto simp: fresh_run_def)

text \<open>A run driven to completion, one to cancellation and one that has just been cancelled.\<close>

definition running_example :: run_state where
  "running_example = (new_run (str ''run-1''))\<lparr>status := RUNNING, revision := 2, lease_epoch := 1,
     execution_began := True\<rparr>"

definition stopped_example :: run_state where
  "stopped_example = running_example\<lparr>revision := 4,
     cancel_requested_at := Some (str ''2026-09-09T12:00:00Z''), cancellation_revision := Some 2,
     stop_acknowledged_at := Some (str ''2026-09-09T12:00:00.000001Z''),
     stop_acknowledged_epoch := Some 1\<rparr>"

lemma running_example_reachable: "reachable fresh_run run_step running_example"
proof -
  let ?q = "new_run (str ''run-1'')"
  let ?l = "?q\<lparr>status := LEASED, lease_epoch := 1, revision := 1\<rparr>"
  have "run_step ?q ?l"
    by (rule run_step.desktop_admitted [where epoch = 1 and e = None])
      (simp add: admit_to_desktop_def new_run_def vocab_simps cancellation_requested_def
        advance_def)
  moreover have "run_step ?l running_example"
    by (rule run_step.progressed [where e = "Some 1"])
      (simp add: progress_def result_simps running_example_def new_run_def vocab_simps
        cancellation_requested_def)
  ultimately show ?thesis
    by (meson reach_step reachable_new_run)
qed

lemma stopped_example_reachable: "reachable fresh_run run_step stopped_example"
proof -
  let ?c = "running_example\<lparr>revision := 3,
    cancel_requested_at := Some (str ''2026-09-09T12:00:00Z''), cancellation_revision := Some 2\<rparr>"
  have "run_step running_example ?c"
    by (rule run_step.cancellation_asked [where at = "str ''2026-09-09T12:00:00Z''" and e = None])
      (simp add: request_cancellation_def running_example_def new_run_def vocab_simps
        cancellation_requested_def advance_def)
  moreover have "run_step ?c stopped_example"
    by (rule run_step.stop_acknowledged
          [where at = "str ''2026-09-09T12:00:00.000001Z''" and epoch = 1 and e = None])
      (simp add: acknowledge_stop_def stopped_example_def running_example_def new_run_def
        vocab_simps advance_def)
  ultimately show ?thesis
    by (meson reach_step running_example_reachable)
qed

text \<open>
  Whatever sequence of accepted transitions a run goes through, its status and outcome are an
  admissible pair, it is quarantined exactly when it is INTERRUPTED, and then for a recorded
  reason, and an action is unresolved only in a run that has begun execution and is neither
  completed nor cancelled.
\<close>

theorem run_always_admissible:
  assumes "reachable fresh_run run_step s"
  shows "is_admissible_pair (status s) (run_outcome s) (execution_began s) \<and>
    quarantined s = (status s = INTERRUPTED) \<and>
    (ambiguity_reason s \<noteq> None) = (status s = INTERRUPTED) \<and>
    (unresolved_action s \<longrightarrow>
       execution_began s \<and> status s \<notin> {QUEUED, LEASED, COMPLETED, CANCELLED})"
  using reachable_run_inv [OF assms]
  by (auto simp: run_inv_def outcome_ok_def interruption_ok_def action_ok_def)

theorem run_always_admissible_witness:
  "reachable fresh_run run_step running_example \<and>
   is_admissible_pair (status running_example) (run_outcome running_example)
     (execution_began running_example)"
  using run_always_admissible [OF running_example_reachable] running_example_reachable by blast

text \<open>A terminal record is immutable: no sequence of reducer calls changes any field of it.\<close>

theorem terminal_records_immutable:
  assumes "is_terminal (status s)" and "run_step\<^sup>*\<^sup>* s t"
  shows "t = s"
  using assms(2,1) by (induction rule: rtranclp_induct) (auto dest: run_step_nonterminal)

theorem terminal_records_immutable_witness:
  "{t. run_step\<^sup>*\<^sup>* (running_example\<lparr>status := COMPLETED, run_outcome := PASS\<rparr>) t} =
   {running_example\<lparr>status := COMPLETED, run_outcome := PASS\<rparr>}"
proof -
  let ?s = "running_example\<lparr>status := COMPLETED, run_outcome := PASS\<rparr>"
  have "is_terminal (status ?s)" by (simp add: vocab_simps)
  from terminal_records_immutable [OF this] show ?thesis by auto
qed

text \<open>
  A cancellation request fences the run. From then on, on every path, no action is admitted,
  no desktop is admitted, the lifecycle does not advance and the request is not rewritten: the
  status stays or becomes terminal.
\<close>

theorem cancellation_fences_admission:
  assumes "cancellation_requested s" and "run_step\<^sup>*\<^sup>* s t"
  shows "execution_began t = execution_began s \<and> lease_epoch t = lease_epoch s \<and>
    (unresolved_action t \<longrightarrow> unresolved_action s) \<and>
    status t \<in> {status s, COMPLETED, INTERRUPTED, CANCELLED} \<and>
    cancel_requested_at t = cancel_requested_at s"
proof -
  have "fenced_from s s"
    using assms(1) by (simp add: fenced_from_def)
  with assms(2) have "fenced_from s t"
    by (rule fence.invar_run)
  then show ?thesis by (simp add: fenced_from_def)
qed

theorem cancellation_fences_admission_witness:
  "cancellation_requested stopped_example \<and>
   {t. run_step\<^sup>*\<^sup>* stopped_example t \<and> unresolved_action t} = {}"
proof -
  have req: "cancellation_requested stopped_example"
    by (simp add: cancellation_requested_def stopped_example_def)
  have idle: "\<not> unresolved_action stopped_example"
    by (simp add: stopped_example_def running_example_def new_run_def)
  show ?thesis
    using req idle cancellation_fences_admission [OF req] by blast
qed

text \<open>
  CANCELLED is only entered with no action unresolved, after a request, and either from a
  queued run that never dispatched anything or with a stop acknowledged for the current lease
  epoch at or after the time of the request. The outcome says whether execution had begun.
\<close>

theorem cancelled_means_stopped:
  assumes "cancel s e = Inr t"
  shows "\<not> unresolved_action s \<and> cancellation_requested s \<and> status t = CANCELLED \<and>
    run_outcome t = (if execution_began s then INCONCLUSIVE else NOT_EVALUATED) \<and>
    (status s = QUEUED \<and> \<not> execution_began s \<or>
     (\<exists>r a i j. cancel_requested_at s = Some r \<and> stop_acknowledged_at s = Some a \<and>
        stop_acknowledged_epoch s = Some (lease_epoch s) \<and>
        parse_rfc3339_utc r = Inr i \<and> parse_rfc3339_utc a = Inr j \<and> i \<le> j))"
  using cancel_Inr [OF assms] by (auto simp: stop_established_def)

lemma example_times:
  "parse_rfc3339_utc (str ''2026-09-09T12:00:00Z'') = Inr (Instant 2026 9 9 12 0 0 0)"
  "parse_rfc3339_utc (str ''2026-09-09T12:00:00.000001Z'') = Inr (Instant 2026 9 9 12 0 0 1)"
  by (simp_all add: timestamp_eval)

lemma stopped_example_cancels:
  "cancel stopped_example (Some 4) =
     Inr (stopped_example\<lparr>status := CANCELLED, run_outcome := INCONCLUSIVE, revision := 5\<rparr>)"
  by (simp add: cancel_def opening_checks_def require_expected_revision_def
      require_nonterminal_def stopped_example_def running_example_def new_run_def vocab_simps
      cancellation_requested_def physically_stopped_def stopped_in_response_to_cancellation_def
      is_after_def example_times less_instant_def instant_fields_def advance_def)

theorem cancelled_means_stopped_witness:
  "cancel stopped_example (Some 4) =
     Inr (stopped_example\<lparr>status := CANCELLED, run_outcome := INCONCLUSIVE, revision := 5\<rparr>) \<and>
   cancellation_requested stopped_example"
  using cancelled_means_stopped [OF stopped_example_cancels] stopped_example_cancels by blast

lemma stale_opening:
  assumes "r \<noteq> revision u"
  shows "opening_checks u (Some r) k = Inl (StaleRevision r (revision u))"
  using assms by (simp add: opening_checks_def require_expected_revision_def)

text \<open>
  Optimistic concurrency. Once a transition has changed a run, every reducer refuses a call
  that still carries the revision from before it, however many transitions follow.
\<close>

theorem stale_writers_refused:
  assumes "run_step s t" and "t \<noteq> s" and "run_step\<^sup>*\<^sup>* t u"
  shows "progress u (Some (revision s)) = Inl (StaleRevision (revision s) (revision u)) \<and>
    admit_to_desktop u k (Some (revision s)) = Inl (StaleRevision (revision s) (revision u)) \<and>
    admit_action u (Some (revision s)) = Inl (StaleRevision (revision s) (revision u)) \<and>
    resolve_action u (Some (revision s)) = Inl (StaleRevision (revision s) (revision u)) \<and>
    request_cancellation u at (Some (revision s)) = Inl (StaleRevision (revision s) (revision u)) \<and>
    acknowledge_stop u at k (Some (revision s)) = Inl (StaleRevision (revision s) (revision u)) \<and>
    cancel u (Some (revision s)) = Inl (StaleRevision (revision s) (revision u)) \<and>
    interrupt u why (Some (revision s)) = Inl (StaleRevision (revision s) (revision u)) \<and>
    complete u oc (Some (revision s)) = Inl (StaleRevision (revision s) (revision u))"
proof -
  have "revision t = revision s + 1"
    using run_step_revision [OF assms(1)] assms(2) by blast
  moreover have "revision t \<le> revision u"
    by (rule run_rev.rev_run [OF assms(3)])
  ultimately have "revision s \<noteq> revision u" by simp
  then show ?thesis
    by (simp add: stale_opening progress_def admit_to_desktop_def admit_action_def
        resolve_action_def request_cancellation_def acknowledge_stop_def cancel_def interrupt_def
        complete_def)
qed

theorem stale_writers_refused_witness:
  "cancel (stopped_example\<lparr>status := CANCELLED, run_outcome := INCONCLUSIVE, revision := 5\<rparr>) (Some 4)
     = Inl (StaleRevision 4 5)"
proof -
  let ?t = "stopped_example\<lparr>status := CANCELLED, run_outcome := INCONCLUSIVE, revision := 5\<rparr>"
  have rev: "revision stopped_example = 4" by (simp add: stopped_example_def)
  have "run_step stopped_example ?t"
    by (rule run_step.cancelled [OF stopped_example_cancels])
  moreover have "?t \<noteq> stopped_example"
  proof
    assume "?t = stopped_example"
    then have "revision ?t = revision stopped_example" by metis
    then show False by (simp add: rev)
  qed
  ultimately show ?thesis
    using stale_writers_refused [of stopped_example ?t ?t] by (simp add: rev)
qed

section \<open>No run is stuck\<close>

lemma resolve_reaches:
  "\<not> is_terminal (status s) \<Longrightarrow>
     \<exists>t. run_step\<^sup>*\<^sup>* s t \<and> \<not> unresolved_action t \<and> status t = status s \<and>
       cancel_requested_at t = cancel_requested_at s"
proof (cases "unresolved_action s")
  case True
  moreover assume "\<not> is_terminal (status s)"
  ultimately have "resolve_action s None = Inr (s\<lparr>unresolved_action := False, revision := revision s + 1\<rparr>)"
    by (simp add: resolve_action_def advance_def)
  then have "run_step s (s\<lparr>unresolved_action := False, revision := revision s + 1\<rparr>)"
    by (rule run_step.action_resolved)
  then show ?thesis
    by (intro exI [of _ "s\<lparr>unresolved_action := False, revision := revision s + 1\<rparr>"])
      (simp add: r_into_rtranclp)
next
  case False
  then show ?thesis by auto
qed

lemma request_reaches:
  assumes "\<not> is_terminal (status s)" and "\<not> unresolved_action s"
    and "\<forall>r. cancel_requested_at s = Some r \<longrightarrow> succeeds (parse_rfc3339_utc r)"
  shows "\<exists>t r. run_step\<^sup>*\<^sup>* s t \<and> \<not> unresolved_action t \<and> status t = status s \<and>
    cancel_requested_at t = Some r \<and> succeeds (parse_rfc3339_utc r)"
proof (cases "cancel_requested_at s")
  case (Some r)
  with assms show ?thesis by auto
next
  case None
  let ?r = "str ''2026-09-09T12:00:00Z''"
  let ?t = "s\<lparr>cancel_requested_at := Some ?r, cancellation_revision := Some (revision s),
    revision := revision s + 1\<rparr>"
  have "request_cancellation s ?r None = Inr ?t"
    using assms(1) None
    by (simp add: request_cancellation_def cancellation_requested_def advance_def)
  then have "run_step s ?t" by (rule run_step.cancellation_asked)
  then have "run_step\<^sup>*\<^sup>* s ?t" by (rule r_into_rtranclp)
  then show ?thesis
    using assms(2) by (intro exI [of _ ?t] exI [of _ ?r]) (simp add: example_times)
qed

lemma acknowledged_cancels:
  assumes "\<not> is_terminal (status s)" and "\<not> unresolved_action s"
    and "cancel_requested_at s = Some r" and "succeeds (parse_rfc3339_utc r)"
  shows "\<exists>t. run_step\<^sup>*\<^sup>* s t \<and> status t = CANCELLED"
proof -
  obtain i where i: "parse_rfc3339_utc r = Inr i"
    using assms(4) by (auto simp: succeeds_iff)
  let ?u = "s\<lparr>stop_acknowledged_at := Some r, stop_acknowledged_epoch := Some (lease_epoch s),
    revision := revision s + 1\<rparr>"
  have "acknowledge_stop s r (lease_epoch s) None = Inr ?u"
    using assms(1) by (simp add: acknowledge_stop_def advance_def)
  then have one: "run_step s ?u" by (rule run_step.stop_acknowledged)
  have "stopped_in_response_to_cancellation ?u = Inr True"
    using assms(3) i by (auto simp: stopped_in_response_Inr_True stop_established_def)
  then have "\<exists>t. cancel ?u None = Inr t"
    using assms by (simp add: cancel_def cancellation_requested_def physically_stopped_def
        advance_def Let_def)
  then obtain t where c: "cancel ?u None = Inr t" ..
  have "status t = CANCELLED"
    using cancel_Inr [OF c] by simp
  with c have "cancel ?u None = Inr t" "status t = CANCELLED" by auto
  then show ?thesis
    using one by (meson converse_rtranclp_into_rtranclp r_into_rtranclp run_step.cancelled)
qed

text \<open>
  No run is stuck. Every nonterminal run, in any state it can be in, can still be interrupted,
  and unless it was asked to cancel with a text that is not a timestamp it can be brought to
  CANCELLED by resolving its action, requesting cancellation and acknowledging the stop.
\<close>

theorem every_run_can_be_stopped:
  assumes "\<not> is_terminal (status s)"
    and "\<forall>r. cancel_requested_at s = Some r \<longrightarrow> succeeds (parse_rfc3339_utc r)"
  shows "(\<exists>t. run_step s t \<and> status t = INTERRUPTED) \<and>
    (\<exists>t. run_step\<^sup>*\<^sup>* s t \<and> status t = CANCELLED)"
proof
  have "\<not> blank (str ''lost'')" by (simp add: blank_def str_def py_space_def)
  then obtain t where "interrupt s (str ''lost'') None = Inr t" and "status t = INTERRUPTED"
    using assms(1) by (auto simp: interrupt_def advance_def)
  then show "\<exists>t. run_step s t \<and> status t = INTERRUPTED"
    by (blast intro: run_step.interrupted)
next
  obtain u where u: "run_step\<^sup>*\<^sup>* s u" "\<not> unresolved_action u" "status u = status s"
      "cancel_requested_at u = cancel_requested_at s"
    using resolve_reaches [OF assms(1)] by blast
  then obtain v r where v: "run_step\<^sup>*\<^sup>* u v" "\<not> unresolved_action v" "status v = status s"
      "cancel_requested_at v = Some r" "succeeds (parse_rfc3339_utc r)"
    using request_reaches [of u] assms by auto
  from acknowledged_cancels [OF _ v(2,4,5)] v(3) assms(1)
  obtain t where "run_step\<^sup>*\<^sup>* v t" "status t = CANCELLED" by auto
  with u(1) v(1) show "\<exists>t. run_step\<^sup>*\<^sup>* s t \<and> status t = CANCELLED"
    by (meson rtranclp_trans)
qed

theorem every_run_can_be_stopped_witness:
  "\<exists>t. run_step\<^sup>*\<^sup>* running_example t \<and> status t = CANCELLED"
  by (rule every_run_can_be_stopped [THEN conjunct2])
    (simp_all add: running_example_def new_run_def vocab_simps)

end
