(* ===== verification/Sha256.thy ===== *)
theory Sha256
  imports Prelude "HOL-Library.Word"
begin

text \<open>
  SHA-256 of the standard library (\<open>hashlib.sha256\<close>), which every digest of the product goes
  through: FIPS 180-4 on 32-bit words, over a list of byte values.
\<close>

unbundle bit_operations_syntax

type_synonym byte = nat
type_synonym sha_word = "32 word"
type_synonym sha_state =
  "sha_word \<times> sha_word \<times> sha_word \<times> sha_word \<times> sha_word \<times> sha_word \<times> sha_word \<times> sha_word"

text \<open>
  The constants are the first 32 fractional bits of the square roots of the first eight primes and
  of the cube roots of the first 64. \<open>root_below n k x\<close> is the largest r below 2 ^ n whose
  k-th power is at most x, found bit by bit.
\<close>

fun root_from :: "nat \<Rightarrow> nat \<Rightarrow> nat \<Rightarrow> nat \<Rightarrow> nat" where
  "root_from 0 k x r = r"
| "root_from (Suc n) k x r = root_from n k x (if (r + 2 ^ n) ^ k \<le> x then r + 2 ^ n else r)"

definition root_below :: "nat \<Rightarrow> nat \<Rightarrow> nat \<Rightarrow> nat" where
  "root_below n k x = root_from n k x 0"

definition root_bits :: "nat \<Rightarrow> nat \<Rightarrow> sha_word" where
  "root_bits k p = of_nat (root_below 40 k (p * 2 ^ (32 * k)))"

definition primes_to :: "nat \<Rightarrow> nat list" where
  "primes_to n = filter (\<lambda>p. list_all (\<lambda>d. p mod d \<noteq> 0) [2..<p]) [2..<Suc n]"

definition round_constants :: "sha_word list" where
  "round_constants = map (root_bits 3) (primes_to 311)"

definition initial_state :: sha_state where
  "initial_state =
     (root_bits 2 2, root_bits 2 3, root_bits 2 5, root_bits 2 7, root_bits 2 11, root_bits 2 13,
      root_bits 2 17, root_bits 2 19)"

lemma root_from_correct:
  assumes "r ^ k \<le> x" and "x < (r + 2 ^ n) ^ k"
  shows "root_from n k x r ^ k \<le> x \<and> x < (root_from n k x r + 1) ^ k"
  using assms by (induction n arbitrary: r) (auto simp: mult_2 add.assoc)

definition ch :: "sha_word \<Rightarrow> sha_word \<Rightarrow> sha_word \<Rightarrow> sha_word" where
  "ch x y z = (x AND y) XOR (NOT x AND z)"

definition maj :: "sha_word \<Rightarrow> sha_word \<Rightarrow> sha_word \<Rightarrow> sha_word" where
  "maj x y z = (x AND y) XOR (x AND z) XOR (y AND z)"

definition big_sigma0 :: "sha_word \<Rightarrow> sha_word" where
  "big_sigma0 x = word_rotr 2 x XOR word_rotr 13 x XOR word_rotr 22 x"

definition big_sigma1 :: "sha_word \<Rightarrow> sha_word" where
  "big_sigma1 x = word_rotr 6 x XOR word_rotr 11 x XOR word_rotr 25 x"

definition small_sigma0 :: "sha_word \<Rightarrow> sha_word" where
  "small_sigma0 x = word_rotr 7 x XOR word_rotr 18 x XOR drop_bit 3 x"

definition small_sigma1 :: "sha_word \<Rightarrow> sha_word" where
  "small_sigma1 x = word_rotr 17 x XOR word_rotr 19 x XOR drop_bit 10 x"

text \<open>The message schedule, most recent word first.\<close>

fun extend_schedule :: "nat \<Rightarrow> sha_word list \<Rightarrow> sha_word list" where
  "extend_schedule 0 ws = ws"
| "extend_schedule (Suc n) ws =
     extend_schedule n
       ((small_sigma1 (ws ! 1) + ws ! 6 + small_sigma0 (ws ! 14) + ws ! 15) # ws)"

definition schedule :: "sha_word list \<Rightarrow> sha_word list" where
  "schedule block = rev (extend_schedule 48 (rev block))"

fun sha_round :: "sha_word \<times> sha_word \<Rightarrow> sha_state \<Rightarrow> sha_state" where
  "sha_round (k, w) (a, b, c, d, e, f, g, h) =
     (let t1 = h + big_sigma1 e + ch e f g + k + w;
          t2 = big_sigma0 a + maj a b c
      in (t1 + t2, a, b, c, d + t1, e, f, g))"

fun add_state :: "sha_state \<Rightarrow> sha_state \<Rightarrow> sha_state" where
  "add_state (a, b, c, d, e, f, g, h) (a', b', c', d', e', f', g', h') =
     (a + a', b + b', c + c', d + d', e + e', f + f', g + g', h + h')"

definition compress :: "sha_word list \<Rightarrow> sha_state \<Rightarrow> sha_state" where
  "compress block s = add_state s (fold sha_round (zip round_constants (schedule block)) s)"

text \<open>Padding to whole blocks, and the blocks as words.\<close>

fun be_bytes :: "nat \<Rightarrow> nat \<Rightarrow> byte list" where
  "be_bytes 0 n = []"
| "be_bytes (Suc k) n = be_bytes k (n div 256) @ [n mod 256]"

definition pad_message :: "byte list \<Rightarrow> byte list" where
  "pad_message m =
     m @ [128] @ replicate ((119 - length m mod 64) mod 64) 0 @ be_bytes 8 (8 * length m)"

fun words_of :: "byte list \<Rightarrow> sha_word list" where
  "words_of (a # b # c # d # bs) =
     of_nat (((a * 256 + b) * 256 + c) * 256 + d) # words_of bs"
| "words_of _ = []"

fun absorb :: "nat \<Rightarrow> sha_word list \<Rightarrow> sha_state \<Rightarrow> sha_state" where
  "absorb 0 ws s = s"
| "absorb (Suc n) ws s = absorb n (drop 16 ws) (compress (take 16 ws) s)"

fun state_bytes :: "sha_state \<Rightarrow> byte list" where
  "state_bytes (a, b, c, d, e, f, g, h) =
     concat (map (\<lambda>x. be_bytes 4 (unat x)) [a, b, c, d, e, f, g, h])"

definition sha256 :: "byte list \<Rightarrow> byte list" where
  "sha256 m =
     (let ws = words_of (pad_message m)
      in state_bytes (absorb (length ws div 16) ws initial_state))"

section \<open>Lower-case hexadecimal\<close>

definition hex_digit :: "nat \<Rightarrow> code_point" where
  "hex_digit n = (if n < 10 then 48 + n else 87 + n)"

definition hex :: "byte list \<Rightarrow> pytext" where
  "hex bs = concat (map (\<lambda>b. [hex_digit (b div 16), hex_digit (b mod 16)]) bs)"

definition is_lower_hex :: "code_point \<Rightarrow> bool" where
  "is_lower_hex c \<longleftrightarrow> 48 \<le> c \<and> c \<le> 57 \<or> 97 \<le> c \<and> c \<le> 102"

text \<open>The tests \<open>re.fullmatch("[0-9a-f]{64}", s)\<close> and \<open>len(s) == 64 and all(c in HEX)\<close>.\<close>

definition is_sha256_hex :: "pytext \<Rightarrow> bool" where
  "is_sha256_hex s \<longleftrightarrow> length s = 64 \<and> list_all is_lower_hex s"

lemma length_be_bytes [simp]: "length (be_bytes k n) = k"
  by (induction k arbitrary: n) auto

lemma be_bytes_bound: "b \<in> set (be_bytes k n) \<Longrightarrow> b < 256"
  by (induction k arbitrary: n) auto

lemma length_state_bytes [simp]: "length (state_bytes s) = 32"
  by (cases s rule: state_bytes.cases) simp

lemma state_bytes_bound: "b \<in> set (state_bytes s) \<Longrightarrow> b < 256"
  by (cases s rule: state_bytes.cases) (auto dest: be_bytes_bound)

lemma length_sha256 [simp]: "length (sha256 m) = 32"
  by (simp add: sha256_def Let_def)

lemma sha256_bound: "b \<in> set (sha256 m) \<Longrightarrow> b < 256"
  by (simp add: sha256_def Let_def state_bytes_bound)

lemma length_hex [simp]: "length (hex bs) = 2 * length bs"
  by (induction bs) (simp_all add: hex_def)

lemma hex_digit_lower: "n < 16 \<Longrightarrow> is_lower_hex (hex_digit n)"
  by (auto simp: is_lower_hex_def hex_digit_def)

lemma hex_lower: "\<forall>b \<in> set bs. b < 256 \<Longrightarrow> list_all is_lower_hex (hex bs)"
  by (induction bs) (auto simp: hex_def hex_digit_lower)

lemma is_sha256_hex_sha256: "is_sha256_hex (hex (sha256 m))"
  by (simp add: is_sha256_hex_def hex_lower sha256_bound)

lemma hex_digit_inject: "m < 16 \<Longrightarrow> n < 16 \<Longrightarrow> hex_digit m = hex_digit n \<longleftrightarrow> m = n"
  by (auto simp: hex_digit_def split: if_splits)

lemma hex_inject:
  assumes "\<forall>b \<in> set bs. b < 256" and "\<forall>b \<in> set cs. b < 256"
  shows "hex bs = hex cs \<longleftrightarrow> bs = cs"
  using assms
proof (induction bs arbitrary: cs)
  case Nil
  then show ?case by (cases cs) (auto simp: hex_def)
next
  case (Cons b bs)
  show ?case
  proof (cases cs)
    case Nil
    then show ?thesis by (simp add: hex_def)
  next
    case (Cons c cs')
    have "b div 16 = c div 16 \<and> b mod 16 = c mod 16 \<longleftrightarrow> b = c"
      by (metis div_mult_mod_eq)
    moreover have "hex bs = hex cs' \<longleftrightarrow> bs = cs'"
      using Cons.prems \<open>cs = c # cs'\<close> by (intro Cons.IH) auto
    ultimately show ?thesis
      using Cons.prems \<open>cs = c # cs'\<close>
      by (auto simp: hex_def hex_digit_inject less_mult_imp_div_less)
  qed
qed

end
