(* ===== verification/Canonical.thy ===== *)
theory Canonical
  imports Sha256 Complex_Main "HOL-Library.Multiset" "HOL-Library.List_Lexorder"
begin

text \<open>
  RFC8785 canonical JSON and its SHA-256 digest (\<open>canonical.py\<close>). A Python value is a \<open>pyval\<close>;
  a finite float is the rational it denotes (so the two zeros coincide), a dictionary the list
  of its items in insertion order.
\<close>

section \<open>Python values\<close>

datatype pyfloat = FNan | FInf bool | FFinite rat

datatype dict_key = KText pytext | KOther

datatype pyval =
    PNone
  | PBool bool
  | PInt int
  | PFloat pyfloat
  | PStr pytext
  | PList "pyval list"
  | PTuple "pyval list"
  | PDict "(dict_key \<times> pyval) list"
  | POther

datatype canon_error = CanonicalizationError | UnicodeEncodeError

definition MAX_SAFE_INTEGER :: int where
  "MAX_SAFE_INTEGER = 2 ^ 53 - 1"

definition MIN_SAFE_INTEGER :: int where
  "MIN_SAFE_INTEGER = - (2 ^ 53) + 1"

section \<open>Strings\<close>

definition high_surrogate :: "code_point \<Rightarrow> bool" where
  "high_surrogate c \<longleftrightarrow> 0xD800 \<le> c \<and> c \<le> 0xDBFF"

definition low_surrogate :: "code_point \<Rightarrow> bool" where
  "low_surrogate c \<longleftrightarrow> 0xDC00 \<le> c \<and> c \<le> 0xDFFF"

text \<open>\<open>_reject_lone_surrogates\<close>: True when the loop runs to the end without raising.\<close>

fun no_lone_surrogates :: "pytext \<Rightarrow> bool" where
  "no_lone_surrogates [] = True"
| "no_lone_surrogates [c] = (\<not> high_surrogate c \<and> \<not> low_surrogate c)"
| "no_lone_surrogates (c # d # s) =
     (if high_surrogate c then low_surrogate d \<and> no_lone_surrogates s
      else if low_surrogate c then False
      else no_lone_surrogates (d # s))"

definition SHORT_ESCAPES :: "code_point \<rightharpoonup> pytext" where
  "SHORT_ESCAPES =
     [0x08 \<mapsto> [92, 98], 0x09 \<mapsto> [92, 116], 0x0A \<mapsto> [92, 110], 0x0C \<mapsto> [92, 102],
      0x0D \<mapsto> [92, 114], 0x22 \<mapsto> [92, 34], 0x5C \<mapsto> [92, 92]]"

definition escape :: "code_point \<Rightarrow> pytext" where
  "escape c =
     (case SHORT_ESCAPES c of
        Some e \<Rightarrow> e
      | None \<Rightarrow> if c < 0x20 then [92, 117, 48, 48, hex_digit (c div 16), hex_digit (c mod 16)]
                else [c])"

definition serialize_string :: "pytext \<Rightarrow> (canon_error, pytext) result" where
  "serialize_string s =
     (if \<not> no_lone_surrogates s then Inl CanonicalizationError
      else Inr ([34] @ concat (map escape s) @ [34]))"

section \<open>Numbers\<close>

definition serialize_int :: "int \<Rightarrow> (canon_error, pytext) result" where
  "serialize_int i =
     (if MIN_SAFE_INTEGER \<le> i \<and> i \<le> MAX_SAFE_INTEGER then Inr (show_int i)
      else Inl CanonicalizationError)"

definition serialize_float :: "pyfloat \<Rightarrow> (canon_error, pytext) result" where
  "serialize_float f =
     (case f of
        FNan \<Rightarrow> Inl CanonicalizationError
      | FInf _ \<Rightarrow> Inl CanonicalizationError
      | FFinite q \<Rightarrow>
          if snd (quotient_of q) \<noteq> 1 then Inl CanonicalizationError
          else serialize_int (fst (quotient_of q)))"

section \<open>Encodings\<close>

definition scalar :: "code_point \<Rightarrow> bool" where
  "scalar c \<longleftrightarrow> c < 0x110000 \<and> \<not> high_surrogate c \<and> \<not> low_surrogate c"

definition utf16_char :: "code_point \<Rightarrow> byte list" where
  "utf16_char c =
     (if c < 0x10000 then [c div 256, c mod 256]
      else let h = 0xD800 + (c - 0x10000) div 1024; l = 0xDC00 + (c - 0x10000) mod 1024
           in [h div 256, h mod 256, l div 256, l mod 256])"

definition utf8_char :: "code_point \<Rightarrow> byte list" where
  "utf8_char c =
     (if c < 0x80 then [c]
      else if c < 0x800 then [0xC0 + c div 64, 0x80 + c mod 64]
      else if c < 0x10000 then [0xE0 + c div 4096, 0x80 + c div 64 mod 64, 0x80 + c mod 64]
      else [0xF0 + c div 262144, 0x80 + c div 4096 mod 64, 0x80 + c div 64 mod 64,
            0x80 + c mod 64])"

definition encode_utf8 :: "pytext \<Rightarrow> (canon_error, byte list) result" where
  "encode_utf8 s =
     (if list_all scalar s then Inr (concat (map utf8_char s)) else Inl UnicodeEncodeError)"

text \<open>\<open>_utf16_sort_key\<close> of an encodable key.\<close>

definition utf16_bytes :: "pytext \<Rightarrow> byte list" where
  "utf16_bytes s = concat (map utf16_char s)"

fun key_text :: "dict_key \<Rightarrow> pytext" where
  "key_text (KText s) = s"
| "key_text KOther = []"

definition utf16_sort_key :: "dict_key \<times> pyval \<Rightarrow> byte list" where
  "utf16_sort_key kv = utf16_bytes (key_text (fst kv))"

definition valid_key :: "dict_key \<times> pyval \<Rightarrow> bool" where
  "valid_key kv = (case fst kv of KText s \<Rightarrow> no_lone_surrogates s | KOther \<Rightarrow> False)"

definition encodable_key :: "dict_key \<times> pyval \<Rightarrow> bool" where
  "encodable_key kv = list_all scalar (key_text (fst kv))"

section \<open>Values\<close>

fun join_comma :: "pytext list \<Rightarrow> pytext" where
  "join_comma [] = []"
| "join_comma [p] = p"
| "join_comma (p # q # ps) = p @ 44 # join_comma (q # ps)"

function (sequential) serialize :: "pyval \<Rightarrow> (canon_error, pytext) result" where
  "serialize PNone = Inr (str ''null'')"
| "serialize (PBool b) = Inr (if b then str ''true'' else str ''false'')"
| "serialize (PStr s) = serialize_string s"
| "serialize (PInt i) = serialize_int i"
| "serialize (PFloat f) = serialize_float f"
| "serialize (PList vs) =
     bind_result (traverse serialize vs) (\<lambda>ps. Inr (91 # join_comma ps @ [93]))"
| "serialize (PTuple vs) =
     bind_result (traverse serialize vs) (\<lambda>ps. Inr (91 # join_comma ps @ [93]))"
| "serialize (PDict kvs) =
     (if \<not> list_all valid_key kvs then Inl CanonicalizationError
      else if \<not> list_all encodable_key kvs then Inl UnicodeEncodeError
      else bind_result
             (traverse
               (\<lambda>kv. bind_result (serialize_string (key_text (fst kv))) (\<lambda>k.
                      bind_result (serialize (snd kv)) (\<lambda>v. Inr (k @ 58 # v))))
               (sort_key utf16_sort_key kvs))
             (\<lambda>ps. Inr (123 # join_comma ps @ [125])))"
| "serialize POther = Inl CanonicalizationError"
  by pat_completeness auto

lemma size_dict_value: "kv \<in> set kvs \<Longrightarrow> size (snd kv) < Suc (size_list (size_prod (\<lambda>_. 0) size) kvs)"
proof (induction kvs)
  case (Cons x kvs)
  then show ?case by (cases x) auto
qed simp

lemma size_list_value: "v \<in> set vs \<Longrightarrow> size v < Suc (size_list size vs)"
  by (induction vs) auto

termination serialize
  by (relation "measure size") (auto dest: size_list_value size_dict_value)

definition canonicalize :: "pyval \<Rightarrow> (canon_error, pytext) result" where
  "canonicalize v = serialize v"

definition digest :: "pyval \<Rightarrow> (canon_error, pytext) result" where
  "digest v =
     bind_result (canonicalize v) (\<lambda>s. bind_result (encode_utf8 s) (\<lambda>bs. Inr (hex (sha256 bs))))"

end
