(* ===== verification/Canonical_Digest.thy ===== *)
theory Canonical_Digest
  imports Canonical
begin

text \<open>
  What the canonical form and its digest establish: the form is unambiguous, so that equal digests
  mean equal contents or a SHA-256 collision on two named messages; it does not depend on the
  order a dictionary was built in; and what the canonicalizer refuses.
\<close>

section \<open>Normal forms\<close>

text \<open>
  Two values have one normal form when they differ only in what canonical JSON cannot express:
  integral floats and integers, tuples and lists, and the insertion order of dictionaries.
\<close>

fun norm_float :: "pyfloat \<Rightarrow> pyval" where
  "norm_float (FFinite q) = PInt (fst (quotient_of q))"
| "norm_float f = PFloat f"

primrec norm :: "pyval \<Rightarrow> pyval" where
  "norm PNone = PNone"
| "norm (PBool b) = PBool b"
| "norm (PInt i) = PInt i"
| "norm (PFloat f) = norm_float f"
| "norm (PStr s) = PStr s"
| "norm (PList vs) = PList (map norm vs)"
| "norm (PTuple vs) = PList (map norm vs)"
| "norm (PDict kvs) = PDict (sort_key utf16_sort_key (map (map_prod id norm) kvs))"
| "norm POther = POther"

lemma sort_key_map_commute:
  assumes "\<And>x. f (g x) = h x"
  shows "sort_key f (map g xs) = map g (sort_key h xs)"
proof -
  have insort: "insort_key f (g x) (map g ys) = map g (insort_key h x ys)" for x ys
    using assms by (induction ys) auto
  show ?thesis
    by (induction xs) (auto simp: insort)
qed

lemma norm_dict:
  "norm (PDict kvs) = PDict (map (map_prod id norm) (sort_key utf16_sort_key kvs))"
  by (simp add: utf16_sort_key_def sort_key_map_commute [where h = utf16_sort_key])

section \<open>Prefix codes\<close>

text \<open>
  A code is read back from the front of a longer text. Each layer of the canonical form is read
  by a reader of its own, and unambiguity of the layer is a corollary.
\<close>

definition reads :: "('b list \<Rightarrow> 'a \<times> 'b list) \<Rightarrow> ('a \<Rightarrow> 'b list) \<Rightarrow> 'a set \<Rightarrow> bool" where
  "reads rd code A \<longleftrightarrow> (\<forall>x \<in> A. \<forall>r. rd (code x @ r) = (x, r))"

lemma reads_inject:
  "reads rd code A \<Longrightarrow> x \<in> A \<Longrightarrow> y \<in> A \<Longrightarrow> code x @ r = code y @ r' \<Longrightarrow> x = y \<and> r = r'"
  unfolding reads_def by (metis prod.inject)

lemma reads_concat_inject:
  assumes "reads rd code A" and "\<forall>x \<in> A. code x \<noteq> []"
    and "set xs \<subseteq> A" and "set ys \<subseteq> A" and "concat (map code xs) = concat (map code ys)"
  shows "xs = ys"
  using assms(3-5)
proof (induction xs arbitrary: ys)
  case Nil
  then show ?case using assms(2) by (cases ys) auto
next
  case (Cons x xs)
  show ?case
  proof (cases ys)
    case Nil
    with Cons.prems assms(2) show ?thesis by auto
  next
    case (Cons y ys')
    with Cons.prems have eq: "code x @ concat (map code xs) = code y @ concat (map code ys')"
      by simp
    have "x \<in> A" "y \<in> A" using Cons.prems Cons by auto
    from reads_inject [OF assms(1) this eq]
    have "x = y" "concat (map code xs) = concat (map code ys')" by auto
    with Cons.IH [of ys'] Cons.prems \<open>ys = y # ys'\<close> show ?thesis by auto
  qed
qed

lemma reads_until_inject:
  assumes "reads rd code A" and stop: "\<forall>x \<in> A. code x \<noteq> [] \<and> hd (code x) \<noteq> q"
    and "set xs \<subseteq> A" and "set ys \<subseteq> A"
    and "concat (map code xs) @ q # r = concat (map code ys) @ q # r'"
  shows "xs = ys \<and> r = r'"
  using assms(3-5)
proof (induction xs arbitrary: ys)
  case Nil
  show ?case
  proof (cases ys)
    case (Cons y ys')
    with Nil.prems stop have "code y \<noteq> []" "hd (code y) \<noteq> q" by auto
    with Nil.prems Cons show ?thesis by (cases "code y") auto
  qed (use Nil.prems in auto)
next
  case (Cons x xs)
  show ?case
  proof (cases ys)
    case Nil
    with Cons.prems stop have "code x \<noteq> []" "hd (code x) \<noteq> q" by auto
    with Cons.prems Nil show ?thesis by (cases "code x") auto
  next
    case (Cons y ys')
    with Cons.prems have eq: "code x @ (concat (map code xs) @ q # r) =
        code y @ (concat (map code ys') @ q # r')" by simp
    have "x \<in> A" "y \<in> A" using Cons.prems Cons by auto
    from reads_inject [OF assms(1) this eq]
    have "x = y" "concat (map code xs) @ q # r = concat (map code ys') @ q # r'" by auto
    with Cons.IH [of ys'] Cons.prems \<open>ys = y # ys'\<close> show ?thesis by auto
  qed
qed

subsection \<open>UTF-8\<close>

fun read_utf8 :: "byte list \<Rightarrow> code_point \<times> byte list" where
  "read_utf8 (a # r) =
     (if a < 0x80 then (a, r)
      else if a < 0xE0 then (64 * (a - 0xC0) + (r ! 0 - 0x80), drop 1 r)
      else if a < 0xF0 then (4096 * (a - 0xE0) + 64 * (r ! 0 - 0x80) + (r ! 1 - 0x80), drop 2 r)
      else (262144 * (a - 0xF0) + 4096 * (r ! 0 - 0x80) + 64 * (r ! 1 - 0x80) + (r ! 2 - 0x80),
            drop 3 r))"
| "read_utf8 [] = (0, [])"

lemma split_base: "d * (n div d) + n mod d = (n::nat)"
  by simp

lemma split_4096: "4096 * (c div 4096) + 64 * (c div 64 mod 64) + c mod 64 = (c::nat)"
proof -
  have "c div 64 = 64 * (c div 4096) + c div 64 mod 64"
    using split_base [of 64 "c div 64"] by (simp add: div_mult2_eq [symmetric])
  then show ?thesis using split_base [of 64 c] by linarith
qed

lemma split_262144:
  "262144 * (c div 262144) + 4096 * (c div 4096 mod 64) + 64 * (c div 64 mod 64) + c mod 64 = (c::nat)"
proof -
  have "c div 4096 = 64 * (c div 262144) + c div 4096 mod 64"
    using split_base [of 64 "c div 4096"] by (simp add: div_mult2_eq [symmetric])
  then show ?thesis using split_4096 [of c] by linarith
qed

lemma reads_utf8: "reads read_utf8 utf8_char {c. c < 0x110000}"
proof -
  have "read_utf8 (utf8_char c @ r) = (c, r)" if "c < 0x110000" for c r
  proof -
    consider "c < 0x80" | "0x80 \<le> c" "c < 0x800" | "0x800 \<le> c" "c < 0x10000" | "0x10000 \<le> c"
      by linarith
    then show ?thesis
    proof cases
      case 1
      then show ?thesis by (simp add: utf8_char_def)
    next
      case 2
      then have "c div 64 < 32" by (simp add: less_mult_imp_div_less)
      with 2 show ?thesis by (simp add: utf8_char_def)
    next
      case 3
      then have "c div 4096 < 16" by (simp add: less_mult_imp_div_less)
      with 3 show ?thesis by (simp add: utf8_char_def split_4096)
    next
      case 4
      then show ?thesis by (simp add: utf8_char_def split_262144)
    qed
  qed
  then show ?thesis by (simp add: reads_def)
qed

lemma encode_utf8_inject:
  assumes "encode_utf8 s = Inr bs" and "encode_utf8 t = Inr bs"
  shows "s = t"
proof (rule reads_concat_inject [OF reads_utf8])
  show "\<forall>c \<in> {c. c < 0x110000}. utf8_char c \<noteq> []" by (simp add: utf8_char_def)
  show "set s \<subseteq> {c. c < 0x110000}" "set t \<subseteq> {c. c < 0x110000}"
    and "concat (map utf8_char s) = concat (map utf8_char t)"
    using assms by (auto simp: encode_utf8_def list_all_iff scalar_def split: if_splits)
qed

subsection \<open>UTF-16, the order of keys\<close>

fun read_utf16 :: "byte list \<Rightarrow> code_point \<times> byte list" where
  "read_utf16 (a # b # r) =
     (let u = 256 * a + b
      in if high_surrogate u
         then (0x10000 + 1024 * (u - 0xD800) + (256 * (r ! 0) + r ! 1 - 0xDC00), drop 2 r)
         else (u, r))"
| "read_utf16 r = (0, r)"

lemma reads_utf16: "reads read_utf16 utf16_char {c. scalar c}"
proof -
  have "read_utf16 (utf16_char c @ r) = (c, r)" if "scalar c" for c r
  proof (cases "c < 0x10000")
    case True
    with that show ?thesis by (simp add: utf16_char_def scalar_def)
  next
    case False
    define d where "d = c - 0x10000"
    have d: "d div 1024 < 1024" "d mod 1024 < 1024" "c = 0x10000 + d"
      using False that by (auto simp: d_def scalar_def less_mult_imp_div_less)
    then have "high_surrogate (0xD800 + d div 1024)" by (simp add: high_surrogate_def)
    with False d show ?thesis
      by (simp add: utf16_char_def d_def [symmetric] Let_def)
  qed
  then show ?thesis by (simp add: reads_def)
qed

lemma utf16_bytes_inject:
  assumes "list_all scalar s" and "list_all scalar t" and "utf16_bytes s = utf16_bytes t"
  shows "s = t"
proof (rule reads_concat_inject [OF reads_utf16])
  show "\<forall>c \<in> {c. scalar c}. utf16_char c \<noteq> []" by (simp add: utf16_char_def Let_def)
qed (use assms in \<open>auto simp: utf16_bytes_def list_all_iff\<close>)

subsection \<open>Escaped strings\<close>

definition hex_value :: "code_point \<Rightarrow> nat" where
  "hex_value c = (if c \<le> 57 then c - 48 else c - 87)"

fun short_unescape :: "code_point \<Rightarrow> code_point" where
  "short_unescape k =
     (if k = 98 then 8 else if k = 116 then 9 else if k = 110 then 10 else if k = 102 then 12
      else if k = 114 then 13 else k)"

fun read_escape :: "pytext \<Rightarrow> code_point \<times> pytext" where
  "read_escape (c # s) =
     (if c = 92 then
        (if s ! 0 = 117 then (16 * hex_value (s ! 3) + hex_value (s ! 4), drop 5 s)
         else (short_unescape (s ! 0), drop 1 s))
      else (c, s))"
| "read_escape [] = (0, [])"

lemma hex_value_hex_digit [simp]: "n < 16 \<Longrightarrow> hex_value (hex_digit n) = n"
  by (simp add: hex_value_def hex_digit_def)

lemma reads_escape: "reads read_escape escape UNIV"
proof -
  have "read_escape (escape c @ r) = (c, r)" for c r
    by (auto simp: escape_def SHORT_ESCAPES_def less_mult_imp_div_less)
  then show ?thesis by (simp add: reads_def)
qed

lemma escape_head: "escape c \<noteq> [] \<and> hd (escape c) \<noteq> 34"
  by (auto simp: escape_def SHORT_ESCAPES_def)

lemma serialize_string_inject:
  assumes "serialize_string s = Inr p" and "serialize_string t = Inr q" and "p @ r = q @ r'"
  shows "s = t \<and> r = r'"
proof (rule reads_until_inject [OF reads_escape])
  show "\<forall>c \<in> UNIV. escape c \<noteq> [] \<and> hd (escape c) \<noteq> 34" by (simp add: escape_head)
qed (use assms in \<open>auto simp: serialize_string_def split: if_splits\<close>)

subsection \<open>Numbers\<close>

text \<open>What may follow a value: nothing, or the punctuation that ends it.\<close>

definition delimited :: "pytext \<Rightarrow> bool" where
  "delimited r \<longleftrightarrow> r = [] \<or> hd r \<in> {44, 93, 125}"

lemma show_int_chars: "c \<in> set (show_int i) \<Longrightarrow> is_digit c \<or> c = 45"
  using show_nat_digits by (auto simp: show_int_def split: if_splits)

lemma show_int_read:
  "delimited r \<Longrightarrow> takeWhile (\<lambda>c. is_digit c \<or> c = 45) (show_int i @ r) = show_int i"
proof -
  assume "delimited r"
  then have "takeWhile (\<lambda>c. is_digit c \<or> c = 45) r = []"
    by (cases r) (auto simp: delimited_def is_digit_def)
  then show ?thesis
    by (subst takeWhile_append2) (auto dest: show_int_chars)
qed

lemma show_int_delimited_inject:
  assumes "show_int i @ r = show_int j @ r'" and "delimited r" and "delimited r'"
  shows "i = j \<and> r = r'"
proof -
  have "show_int i = show_int j"
    using show_int_read [of r i] show_int_read [of r' j] assms by simp
  with assms(1) show ?thesis by simp
qed

section \<open>Unambiguity of the canonical form\<close>

text \<open>The first character of a canonical value tells what kind of value it is.\<close>

primrec kind :: "pyval \<Rightarrow> nat" where
  "kind PNone = 0"
| "kind (PBool b) = (if b then 1 else 2)"
| "kind (PStr s) = 3"
| "kind (PInt i) = 4"
| "kind (PFloat f) = 4"
| "kind (PList vs) = 5"
| "kind (PTuple vs) = 5"
| "kind (PDict kvs) = 6"
| "kind POther = 7"

definition head_kind :: "code_point \<Rightarrow> nat" where
  "head_kind c =
     (if c = 110 then 0 else if c = 116 then 1 else if c = 102 then 2 else if c = 34 then 3
      else if c = 91 then 5 else if c = 123 then 6 else 4)"

lemma serialize_int_Inr: "serialize_int i = Inr s \<Longrightarrow> s = show_int i"
  by (simp add: serialize_int_def split: if_splits)

lemma serialize_float_Inr:
  "serialize_float f = Inr s \<Longrightarrow> \<exists>i. norm_float f = PInt i \<and> s = show_int i"
  by (auto simp: serialize_float_def split: pyfloat.splits if_splits dest: serialize_int_Inr)

lemma show_int_head: "show_int i \<noteq> [] \<and> head_kind (hd (show_int i)) = 4"
  using show_int_chars [of "hd (show_int i)" i] by (auto simp: head_kind_def is_digit_def)

lemma serialize_head: "serialize v = Inr s \<Longrightarrow> s \<noteq> [] \<and> head_kind (hd s) = kind v"
proof (cases v)
  case (PInt i)
  moreover assume "serialize v = Inr s"
  ultimately have "s = show_int i" by (simp add: serialize_int_Inr)
  with PInt show ?thesis by (simp add: show_int_head)
next
  case (PFloat f)
  moreover assume "serialize v = Inr s"
  ultimately obtain i where "s = show_int i" by (auto dest: serialize_float_Inr)
  with PFloat show ?thesis by (simp add: show_int_head)
qed (auto simp: result_simps str_def head_kind_def serialize_string_def split: if_splits)

lemma serialize_kind_4:
  "serialize v = Inr s \<Longrightarrow> kind v = 4 \<Longrightarrow> \<exists>i. norm v = PInt i \<and> s = show_int i"
  by (cases v) (auto split: if_splits dest: serialize_int_Inr serialize_float_Inr)

lemma serialize_kind_5:
  "serialize v = Inr s \<Longrightarrow> kind v = 5 \<Longrightarrow>
     \<exists>vs ps. (v = PList vs \<or> v = PTuple vs) \<and> traverse serialize vs = Inr ps \<and>
       s = 91 # join_comma ps @ [93] \<and> norm v = PList (map norm vs)"
  by (cases v) (auto simp: result_simps split: if_splits)

definition serialize_item :: "dict_key \<times> pyval \<Rightarrow> (canon_error, pytext) result" where
  "serialize_item kv =
     bind_result (serialize_string (key_text (fst kv))) (\<lambda>k.
     bind_result (serialize (snd kv)) (\<lambda>v. Inr (k @ 58 # v)))"

lemma serialize_kind_6:
  "serialize v = Inr s \<Longrightarrow> kind v = 6 \<Longrightarrow>
     \<exists>kvs ps. v = PDict kvs \<and> list_all valid_key kvs \<and> list_all encodable_key kvs \<and>
       traverse serialize_item (sort_key utf16_sort_key kvs) = Inr ps \<and>
       s = 123 # join_comma ps @ [125]"
  by (cases v) (auto simp: result_simps serialize_item_def [abs_def] split: if_splits)

lemma join_comma_Cons:
  "join_comma (p # ps) = p @ (if ps = [] then [] else 44 # join_comma ps)"
  by (cases ps) auto

lemma traverse_Cons:
  "traverse f (x # xs) = Inr ps \<longleftrightarrow> (\<exists>p ps'. f x = Inr p \<and> traverse f xs = Inr ps' \<and> ps = p # ps')"
  by (auto simp: result_simps)

lemma join_unambiguous:
  assumes each: "\<And>v w s t r r'. v \<in> set vs \<Longrightarrow> f v = Inr s \<Longrightarrow> f w = Inr t \<Longrightarrow> s @ r = t @ r' \<Longrightarrow>
      delimited r \<Longrightarrow> delimited r' \<Longrightarrow> n v = n w \<and> r = r'"
    and head: "\<And>v s. f v = Inr s \<Longrightarrow> s \<noteq> [] \<and> hd s \<notin> {93, 125}"
    and vs: "traverse f vs = Inr ps" and ws: "traverse f ws = Inr qs"
    and eq: "join_comma ps @ c # r = join_comma qs @ c # r'" and c: "c \<in> {93, 125}"
  shows "map n vs = map n ws \<and> r = r'"
  using each vs ws eq
proof (induction vs arbitrary: ws ps qs)
  case Nil
  show ?case
  proof (cases ws)
    case (Cons w ws')
    with Nil.prems(3) have "traverse f (w # ws') = Inr qs" by simp
    then obtain q qs' where q: "f w = Inr q" "qs = q # qs'"
      unfolding traverse_Cons by blast
    then have "hd (join_comma qs @ c # r') = hd q" "hd q \<notin> {93, 125}"
      using head [OF q(1)] by (auto simp: join_comma_Cons)
    moreover have "hd (join_comma qs @ c # r') = c"
      using arg_cong [OF Nil.prems(4), of hd] Nil.prems(2) by simp
    ultimately show ?thesis using c by simp
  qed (use Nil.prems in auto)
next
  case (Cons v vs)
  from Cons.prems(2) obtain p ps' where p: "f v = Inr p" "traverse f vs = Inr ps'" "ps = p # ps'"
    unfolding traverse_Cons by blast
  show ?case
  proof (cases ws)
    case Nil
    have "hd (join_comma ps @ c # r) = hd p" "hd p \<notin> {93, 125}"
      using head [OF p(1)] p(3) by (auto simp: join_comma_Cons)
    moreover have "hd (join_comma ps @ c # r) = c"
      using arg_cong [OF Cons.prems(4), of hd] Cons.prems(3) Nil by simp
    ultimately show ?thesis using c by simp
  next
    case (Cons w ws')
    with Cons.prems(3) have "traverse f (w # ws') = Inr qs" by simp
    then obtain q qs' where q: "f w = Inr q" "traverse f ws' = Inr qs'" "qs = q # qs'"
      unfolding traverse_Cons by blast
    let ?R = "(if ps' = [] then [] else 44 # join_comma ps') @ c # r"
    let ?S = "(if qs' = [] then [] else 44 # join_comma qs') @ c # r'"
    have "p @ ?R = q @ ?S"
      using Cons.prems(4) p(3) q(3) by (simp add: join_comma_Cons)
    moreover have "delimited ?R" "delimited ?S" using c by (auto simp: delimited_def)
    ultimately have "n v = n w" and RS: "?R = ?S"
      using Cons.prems(1) [of v p w q ?R ?S] p(1) q(1) by auto
    have "map n vs = map n ws' \<and> r = r'"
    proof (cases "ps' = []")
      case True
      with RS c have "qs' = []" "r = r'" by (auto split: if_splits)
      with True show ?thesis
        using traverse_length [OF p(2)] traverse_length [OF q(2)] by simp
    next
      case False
      with RS c have tail: "join_comma ps' @ c # r = join_comma qs' @ c # r'"
        by (auto split: if_splits)
      show ?thesis
      proof (rule Cons.IH [OF _ p(2) q(2) tail])
        fix x y a b k l
        assume "x \<in> set vs" and parts: "f x = Inr a" "f y = Inr b" "a @ k = b @ l" "delimited k" "delimited l"
        then have "x \<in> set (v # vs)" by simp
        from Cons.prems(1) [OF this parts] show "n x = n y \<and> k = l" .
      qed
    qed
    with \<open>n v = n w\<close> \<open>ws = w # ws'\<close> show ?thesis by simp
  qed
qed

lemma serialize_not_closing: "serialize v = Inr s \<Longrightarrow> s \<noteq> [] \<and> hd s \<notin> {93, 125}"
proof -
  assume ser: "serialize v = Inr s"
  have "hd s \<notin> {93, 125}" if num: "kind v = 4"
  proof -
    from serialize_kind_4 [OF ser num] obtain i where "s = show_int i" by blast
    then have "hd s \<in> set (show_int i)" using show_int_head [of i] by (simp add: hd_in_set)
    from show_int_chars [OF this] show ?thesis by (auto simp: is_digit_def)
  qed
  with serialize_head [OF ser] show ?thesis by (auto simp: head_kind_def)
qed

lemma serialize_item_head: "serialize_item kv = Inr s \<Longrightarrow> s \<noteq> [] \<and> hd s \<notin> {93, 125}"
  by (auto simp: serialize_item_def result_simps serialize_string_def split: if_splits)

definition item_content :: "dict_key \<times> pyval \<Rightarrow> pytext \<times> pyval" where
  "item_content kv = (key_text (fst kv), norm (snd kv))"

lemma item_content_valid:
  assumes "list_all valid_key kvs" and "list_all valid_key kws"
    and "map item_content kvs = map item_content kws"
  shows "map (map_prod id norm) kvs = map (map_prod id norm) kws"
proof -
  have key: "valid_key kv \<Longrightarrow> map_prod id norm kv = map_prod KText id (item_content kv)" for kv
    by (cases kv) (auto simp: valid_key_def item_content_def split: dict_key.splits)
  have "map (map_prod id norm) kvs = map (map_prod KText id) (map item_content kvs)"
    "map (map_prod id norm) kws = map (map_prod KText id) (map item_content kws)"
    using assms(1,2) key by (auto simp: list_all_iff)
  with assms(3) show ?thesis by simp
qed

lemma serialize_item_unambiguous:
  assumes IH: "\<And>w s t r r'. serialize (snd kv) = Inr s \<Longrightarrow> serialize w = Inr t \<Longrightarrow> s @ r = t @ r' \<Longrightarrow>
      delimited r \<Longrightarrow> delimited r' \<Longrightarrow> norm (snd kv) = norm w \<and> r = r'"
    and "serialize_item kv = Inr s" and "serialize_item kw = Inr t" and "s @ r = t @ r'"
    and "delimited r" and "delimited r'"
  shows "item_content kv = item_content kw \<and> r = r'"
proof -
  obtain k v where kv: "serialize_string (key_text (fst kv)) = Inr k" "serialize (snd kv) = Inr v"
      "s = k @ 58 # v"
    using assms(2) by (auto simp: serialize_item_def result_simps)
  obtain l w where kw: "serialize_string (key_text (fst kw)) = Inr l" "serialize (snd kw) = Inr w"
      "t = l @ 58 # w"
    using assms(3) by (auto simp: serialize_item_def result_simps)
  have "k @ 58 # v @ r = l @ 58 # w @ r'"
    using assms(4) kv(3) kw(3) by simp
  from serialize_string_inject [OF kv(1) kw(1) this]
  have "key_text (fst kv) = key_text (fst kw)" "v @ r = w @ r'" by auto
  with IH [OF kv(2) kw(2)] assms(5,6) show ?thesis by (auto simp: item_content_def)
qed

lemma serialize_unambiguous:
  "serialize v = Inr s \<Longrightarrow> serialize w = Inr t \<Longrightarrow> s @ r = t @ r' \<Longrightarrow> delimited r \<Longrightarrow> delimited r' \<Longrightarrow>
     norm v = norm w \<and> r = r'"
proof (induction v arbitrary: s w t r r' rule: measure_induct_rule [where f = size])
  case (less v)
  have kinds: "kind v = kind w"
    using serialize_head [OF less.prems(1)] serialize_head [OF less.prems(2)] less.prems(3)
    by (metis hd_append2)
  consider (lit) "kind v \<in> {0, 1, 2}" | (string) "kind v = 3" | (number) "kind v = 4"
    | (list) "kind v = 5" | (dict) "kind v = 6"
    using less.prems(1) by (cases v) auto
  then show ?case
  proof cases
    case lit
    with kinds less.prems show ?thesis
      by (cases v; cases w) (auto split: if_splits)
  next
    case string
    with kinds less.prems show ?thesis
      by (cases v; cases w) (auto split: if_splits dest: serialize_string_inject)
  next
    case number
    with kinds less.prems show ?thesis
      by (auto dest!: serialize_kind_4 dest: show_int_delimited_inject)
  next
    case list
    from serialize_kind_5 [OF less.prems(1) list] obtain vs ps where
      v: "v = PList vs \<or> v = PTuple vs" "traverse serialize vs = Inr ps"
        "s = 91 # join_comma ps @ [93]" "norm v = PList (map norm vs)" by blast
    from serialize_kind_5 [OF less.prems(2)] kinds list obtain ws qs where
      w: "traverse serialize ws = Inr qs" "t = 91 # join_comma qs @ [93]"
        "norm w = PList (map norm ws)" by auto
    have small: "u \<in> set vs \<Longrightarrow> size u < size v" for u
      using v(1) size_list_value [of u vs] by auto
    have "map norm vs = map norm ws \<and> r = r'"
    proof (rule join_unambiguous [OF _ serialize_not_closing v(2) w(1), where n = norm and c = 93])
      fix x y p q a b
      assume mem: "x \<in> set vs"
        and parts: "serialize x = Inr p" "serialize y = Inr q" "p @ a = q @ b" "delimited a" "delimited b"
      show "norm x = norm y \<and> a = b"
        by (rule less.IH [OF small [OF mem] parts])
    qed (use less.prems(3) v(3) w(2) in simp_all)
    with v(4) w(3) show ?thesis by simp
  next
    case dict
    from serialize_kind_6 [OF less.prems(1) dict] obtain kvs ps where
      v: "v = PDict kvs" "list_all valid_key kvs"
        "traverse serialize_item (sort_key utf16_sort_key kvs) = Inr ps"
        "s = 123 # join_comma ps @ [125]" by blast
    from serialize_kind_6 [OF less.prems(2)] kinds dict obtain kws qs where
      w: "w = PDict kws" "list_all valid_key kws"
        "traverse serialize_item (sort_key utf16_sort_key kws) = Inr qs"
        "t = 123 # join_comma qs @ [125]" by auto
    have small: "kv \<in> set (sort_key utf16_sort_key kvs) \<Longrightarrow> size (snd kv) < size v" for kv
      using v(1) size_dict_value [of kv kvs] by auto
    have "map item_content (sort_key utf16_sort_key kvs) = map item_content (sort_key utf16_sort_key kws)
        \<and> r = r'"
    proof (rule join_unambiguous [OF _ serialize_item_head v(3) w(3), where n = item_content and c = 125])
      fix kv kw p q x y
      assume mem: "kv \<in> set (sort_key utf16_sort_key kvs)"
        and items: "serialize_item kv = Inr p" "serialize_item kw = Inr q" "p @ x = q @ y"
          "delimited x" "delimited y"
      show "item_content kv = item_content kw \<and> x = y"
        by (rule serialize_item_unambiguous [OF less.IH [OF small [OF mem]] items])
    qed (use less.prems(3) v(4) w(4) in simp_all)
    moreover have "list_all valid_key (sort_key utf16_sort_key kvs)"
      "list_all valid_key (sort_key utf16_sort_key kws)"
      using v(2) w(2) by (simp_all add: list_all_iff)
    ultimately show ?thesis
      unfolding v(1) w(1) norm_dict by (blast dest: item_content_valid)
  qed
qed

section \<open>The canonical form is a normal form\<close>

lemma sort_key_idem: "sort_key f (sort_key f xs) = sort_key f xs"
  by (rule sort_key_id_if_sorted) simp

lemma traverse_map: "traverse f (map g xs) = traverse (\<lambda>x. f (g x)) xs"
  by (induction xs) simp_all

lemma traverse_agree:
  "traverse f xs = Inr ys \<Longrightarrow> (\<And>x y. x \<in> set xs \<Longrightarrow> f x = Inr y \<Longrightarrow> g x = Inr y) \<Longrightarrow>
     traverse g xs = Inr ys"
  by (auto simp: traverse_Inr_iff list_all2_conv_all_nth)

lemma serialize_norm_float: "serialize_float f = Inr s \<Longrightarrow> serialize (norm_float f) = Inr s"
  by (auto simp: serialize_float_def split: pyfloat.splits if_splits)

lemma serialize_norm: "serialize v = Inr s \<Longrightarrow> serialize (norm v) = Inr s"
proof (induction v arbitrary: s rule: measure_induct_rule [where f = size])
  case (less v)
  consider (leaf) "kind v \<in> {0, 1, 2, 3, 4}" | (list) "kind v = 5" | (dict) "kind v = 6"
    using less.prems by (cases v) auto
  then show ?case
  proof cases
    case leaf
    with less.prems show ?thesis by (cases v) (auto simp: serialize_norm_float split: if_splits)
  next
    case list
    from serialize_kind_5 [OF less.prems list] obtain vs ps where
      v: "v = PList vs \<or> v = PTuple vs" "traverse serialize vs = Inr ps"
        "s = 91 # join_comma ps @ [93]" "norm v = PList (map norm vs)" by blast
    have "size u < size v" if "u \<in> set vs" for u
      using that v(1) size_list_value [of u vs] by auto
    with less.IH have "traverse (\<lambda>u. serialize (norm u)) vs = Inr ps"
      by (intro traverse_agree [OF v(2)]) auto
    with v(3,4) show ?thesis by (simp add: traverse_map result_simps)
  next
    case dict
    from serialize_kind_6 [OF less.prems dict] obtain kvs ps where
      v: "v = PDict kvs" "list_all valid_key kvs" "list_all encodable_key kvs"
        "traverse serialize_item (sort_key utf16_sort_key kvs) = Inr ps"
        "s = 123 # join_comma ps @ [125]" by blast
    let ?n = "map_prod id norm"
    have "size (snd kv) < size v" if "kv \<in> set (sort_key utf16_sort_key kvs)" for kv
      using that v(1) size_dict_value [of kv kvs] by auto
    with less.IH have "traverse (\<lambda>kv. serialize_item (?n kv)) (sort_key utf16_sort_key kvs) = Inr ps"
      by (intro traverse_agree [OF v(4)]) (auto simp: serialize_item_def result_simps)
    then have "traverse serialize_item (sort_key utf16_sort_key (sort_key utf16_sort_key (map ?n kvs)))
        = Inr ps"
      unfolding sort_key_idem using norm_dict [of kvs]
      by (simp only: pyval.inject norm.simps traverse_map)
    moreover have "list_all valid_key (sort_key utf16_sort_key (map ?n kvs))"
      "list_all encodable_key (sort_key utf16_sort_key (map ?n kvs))"
      using v(2,3) by (auto simp: list_all_iff valid_key_def encodable_key_def)
    ultimately show ?thesis
      using v(1,5) by (simp add: serialize_item_def [abs_def] result_simps)
  qed
qed

section \<open>What the digest establishes\<close>

text \<open>The bytes that are hashed.\<close>

definition message :: "pyval \<Rightarrow> (canon_error, byte list) result" where
  "message v = bind_result (canonicalize v) encode_utf8"

lemma digest_message: "digest v = bind_result (message v) (\<lambda>bs. Inr (hex (sha256 bs)))"
  by (cases "canonicalize v") (simp_all add: digest_def message_def result_simps)

lemma canonicalize_iff:
  assumes "canonicalize v = Inr s" and "canonicalize w = Inr t"
  shows "s = t \<longleftrightarrow> norm v = norm w"
proof
  assume "s = t"
  with assms serialize_unambiguous [of v s w t "[]" "[]"] show "norm v = norm w"
    by (auto simp: canonicalize_def delimited_def)
next
  assume "norm v = norm w"
  with assms serialize_norm [of v s] serialize_norm [of w t] show "s = t"
    by (auto simp: canonicalize_def)
qed

lemma message_inject: "message v = Inr m \<Longrightarrow> message w = Inr m \<Longrightarrow> norm v = norm w"
proof -
  assume "message v = Inr m" and "message w = Inr m"
  then obtain s t where s: "canonicalize v = Inr s" "canonicalize w = Inr t"
      and "encode_utf8 s = Inr m" "encode_utf8 t = Inr m"
    by (auto simp: message_def bind_result_Inr)
  then have "s = t" by (blast intro: encode_utf8_inject)
  with canonicalize_iff [OF s] show ?thesis by simp
qed

text \<open>Two values whose hashed bytes differ and hash to the same value.\<close>

definition collides :: "pyval \<Rightarrow> pyval \<Rightarrow> bool" where
  "collides v w \<longleftrightarrow>
     (\<exists>m n. message v = Inr m \<and> message w = Inr n \<and> m \<noteq> n \<and> sha256 m = sha256 n)"

lemma digest_inject:
  assumes "digest v = Inr d" and "digest w = Inr d"
  shows "collides v w \<or> norm v = norm w"
proof -
  from assms obtain m n where m: "message v = Inr m" "message w = Inr n"
      and "hex (sha256 m) = hex (sha256 n)"
    by (cases "message v"; cases "message w") (auto simp: digest_message)
  then have "sha256 m = sha256 n"
    by (simp add: hex_inject sha256_bound)
  with m message_inject show ?thesis unfolding collides_def by blast
qed

lemma norm_dict_items:
  assumes "norm (PDict kvs) = norm (PDict kws)"
  shows "map_prod id norm ` set kvs = map_prod id norm ` set kws"
  using arg_cong [OF assms [unfolded norm_dict pyval.inject], of set] by simp

text \<open>Of two objects with the same fields, the values of each field.\<close>

lemma norm_fields:
  assumes "norm (PDict kvs) = norm (PDict kws)" and "map fst kvs = map fst kws"
    and "distinct (map fst kws)"
  shows "map (norm \<circ> snd) kvs = map (norm \<circ> snd) kws"
proof (rule nth_equalityI)
  show len: "length (map (norm \<circ> snd) kvs) = length (map (norm \<circ> snd) kws)"
    using map_eq_imp_length_eq [OF assms(2)] by simp
  fix i assume "i < length (map (norm \<circ> snd) kvs)"
  then have i: "i < length kvs" "i < length kws" using len by simp_all
  have "(fst (kvs ! i), norm (snd (kvs ! i))) \<in> map_prod id norm ` set kws"
    using norm_dict_items [OF assms(1)] i(1)
    by (metis fst_conv id_apply image_eqI map_prod_simp nth_mem prod.collapse)
  then obtain j where j: "j < length kws" "fst (kws ! j) = fst (kvs ! i)"
      "norm (snd (kws ! j)) = norm (snd (kvs ! i))"
    by (auto simp: in_set_conv_nth)
  have "fst (kws ! j) = fst (kws ! i)"
    using j(2) assms(2) i by (metis nth_map)
  with assms(3) i j(1) have "j = i"
    by (metis length_map nth_eq_iff_index_eq nth_map)
  with j(3) i show "map (norm \<circ> snd) kvs ! i = map (norm \<circ> snd) kws ! i" by simp
qed

text \<open>
  C23: equal digests mean equal contents. If two values have the same digest, they have the same
  normal form, or the two byte strings that were hashed are a SHA-256 collision.
\<close>

theorem digest_binds_content:
  assumes "succeeds (digest v)" and "digest v = digest w"
  shows "norm v = norm w \<or>
    (\<exists>m n. message v = Inr m \<and> message w = Inr n \<and> m \<noteq> n \<and> sha256 m = sha256 n)"
proof -
  from assms obtain d where "digest v = Inr d" "digest w = Inr d"
    by (auto simp: succeeds_iff)
  then show ?thesis by (rule digest_inject [unfolded collides_def, THEN disj_commute [THEN iffD1]])
qed

lemma digest_binds_content_witness:
  "norm (PList [PInt 1, PNone]) = norm (PTuple [PFloat (FFinite 1), PNone])"
proof -
  let ?v = "PList [PInt 1, PNone]" and ?w = "PTuple [PFloat (FFinite 1), PNone]"
  have "message ?v = Inr (str ''[1,null]'')" "message ?w = Inr (str ''[1,null]'')"
    by (simp_all add: message_def canonicalize_def result_simps serialize_int_def serialize_float_def
        MAX_SAFE_INTEGER_def MIN_SAFE_INTEGER_def serialize_string_def high_surrogate_def
        low_surrogate_def escape_def SHORT_ESCAPES_def str_def encode_utf8_def scalar_def utf8_char_def
        show_int_def show_nat.simps)
  with digest_binds_content [of ?v ?w] show ?thesis
    by (simp add: digest_message result_simps succeeds_def)
qed

section \<open>Order independence\<close>

lemma sort_key_permutation:
  assumes "mset xs = mset ys" and "inj_on f (set xs)" and "distinct xs"
  shows "sort_key f xs = sort_key f ys"
proof (rule properties_for_sort_key)
  show "mset (sort_key f ys) = mset xs" using assms(1) by simp
  have sets: "set ys = set xs" "distinct ys"
    using mset_eq_setD [OF assms(1)] mset_eq_imp_distinct_iff [OF assms(1)] assms(3) by simp_all
  fix k assume "k \<in> set (sort_key f ys)"
  then have k: "k \<in> set xs" using sets by simp
  have only: "filter (\<lambda>x. f k = f x) zs = [k]" if zs: "set zs = set xs" "distinct zs" for zs
  proof -
    have "filter (\<lambda>x. f k = f x) zs = filter (\<lambda>x. k = x) zs"
      using k zs(1) assms(2) by (auto intro!: filter_cong dest: inj_onD)
    moreover have "filter (\<lambda>x. k = x) zs = [k]" if "distinct zs" "k \<in> set zs" for zs
      using that by (induction zs) (auto simp: filter_empty_conv)
    ultimately show ?thesis using zs k by simp
  qed
  show "filter (\<lambda>x. f k = f x) (sort_key f ys) = filter (\<lambda>x. f k = f x) xs"
    using only [of xs] only [of "sort_key f ys"] sets assms(3) by simp
qed simp

lemma utf16_sort_key_inj:
  assumes "distinct (map fst kvs)" and "list_all valid_key kvs" and "list_all encodable_key kvs"
  shows "inj_on utf16_sort_key (set kvs)"
proof (rule inj_onI)
  fix x y assume xy: "x \<in> set kvs" "y \<in> set kvs" "utf16_sort_key x = utf16_sort_key y"
  then have "valid_key x" "valid_key y" "encodable_key x" "encodable_key y"
    using assms(2,3) by (auto simp: list_all_iff)
  then have "fst x = fst y"
    using xy(3) utf16_bytes_inject
    by (auto simp: valid_key_def encodable_key_def utf16_sort_key_def split: dict_key.splits)
  with xy(1,2) assms(1) show "x = y" by (auto simp: distinct_map dest: inj_onD)
qed

text \<open>
  Neither the canonical form nor the digest of a dictionary depends on the order in which its
  items were inserted.
\<close>

theorem digest_ignores_insertion_order:
  assumes "mset kvs = mset kws" and "distinct (map fst kvs)"
  shows "canonicalize (PDict kvs) = canonicalize (PDict kws) \<and> digest (PDict kvs) = digest (PDict kws)"
proof -
  have all: "list_all P kvs = list_all P kws" for P :: "dict_key \<times> pyval \<Rightarrow> bool"
    using mset_eq_setD [OF assms(1)] by (simp add: list_all_iff)
  have "distinct kvs" using assms(2) by (simp add: distinct_map)
  with assms utf16_sort_key_inj have "sort_key utf16_sort_key kvs = sort_key utf16_sort_key kws"
    if "list_all valid_key kvs" "list_all encodable_key kvs"
    using that by (intro sort_key_permutation) auto
  with all have "serialize (PDict kvs) = serialize (PDict kws)" by auto
  then show ?thesis by (simp add: digest_def canonicalize_def)
qed

lemma digest_ignores_insertion_order_witness:
  "canonicalize (PDict [(KText (str ''b''), PInt 1), (KText (str ''a''), PNone)]) =
   canonicalize (PDict [(KText (str ''a''), PNone), (KText (str ''b''), PInt 1)])"
  using digest_ignores_insertion_order
    [of "[(KText (str ''b''), PInt 1), (KText (str ''a''), PNone)]"
        "[(KText (str ''a''), PNone), (KText (str ''b''), PInt 1)]"]
  by (simp add: str_def add_mset_commute)

section \<open>Shape and refusals\<close>

text \<open>\<open>holds v x\<close>: the value x occurs somewhere inside v.\<close>

inductive holds :: "pyval \<Rightarrow> pyval \<Rightarrow> bool" where
  here: "holds v v"
| in_list: "u \<in> set vs \<Longrightarrow> holds u x \<Longrightarrow> holds (PList vs) x"
| in_tuple: "u \<in> set vs \<Longrightarrow> holds u x \<Longrightarrow> holds (PTuple vs) x"
| in_dict: "kv \<in> set kvs \<Longrightarrow> holds (snd kv) x \<Longrightarrow> holds (PDict kvs) x"

lemma traverse_succeeds: "succeeds (traverse f xs) \<longleftrightarrow> (\<forall>x \<in> set xs. succeeds (f x))"
  by (induction xs) (auto simp: result_simps succeeds_iff)

lemma bind_succeeds: "succeeds (bind_result r f) \<Longrightarrow> succeeds r"
  by (cases r) (auto simp: result_simps)

lemma serialize_parts: "holds v x \<Longrightarrow> succeeds (serialize v) \<Longrightarrow> succeeds (serialize x)"
proof (induction rule: holds.induct)
  case (in_list u vs x)
  then show ?case by (auto dest!: bind_succeeds simp: traverse_succeeds)
next
  case (in_tuple u vs x)
  then show ?case by (auto dest!: bind_succeeds simp: traverse_succeeds)
next
  case (in_dict kv kvs x)
  then have "succeeds (serialize_item kv)"
    by (auto dest!: bind_succeeds simp: traverse_succeeds serialize_item_def split: if_splits)
  then have "succeeds (serialize (snd kv))"
    by (auto simp: serialize_item_def result_simps succeeds_iff)
  with in_dict show ?case by simp
qed

definition portable_number :: "pyval \<Rightarrow> bool" where
  "portable_number v =
     (case v of
        PInt i \<Rightarrow> \<bar>i\<bar> < 2 ^ 53
      | PFloat (FFinite q) \<Rightarrow> q = of_int \<lfloor>q\<rfloor> \<and> \<bar>q\<bar> < 2 ^ 53
      | PFloat _ \<Rightarrow> False
      | _ \<Rightarrow> True)"

lemma serialize_portable: "succeeds (serialize x) \<Longrightarrow> portable_number x"
proof (cases x)
  case (PFloat f)
  moreover assume "succeeds (serialize x)"
  ultimately obtain q where q: "f = FFinite q" "snd (quotient_of q) = 1"
      "succeeds (serialize_int (fst (quotient_of q)))"
    by (auto simp: serialize_float_def split: pyfloat.splits if_splits)
  have "q = of_int (fst (quotient_of q))"
    using quotient_of_div [of q "fst (quotient_of q)" 1] q(2) by (simp add: prod_eq_iff)
  then obtain i where i: "q = of_int i" "succeeds (serialize_int i)" using q(3) by blast
  then have "\<bar>i\<bar> < 2 ^ 53"
    by (auto simp: serialize_int_def MAX_SAFE_INTEGER_def MIN_SAFE_INTEGER_def split: if_splits)
  then have "\<bar>q\<bar> < 2 ^ 53"
    unfolding i(1) by (simp flip: of_int_abs of_int_power add: of_int_less_numeral_iff)
  with PFloat q(1) i(1) show ?thesis by (simp add: portable_number_def)
qed (auto simp: portable_number_def serialize_int_def MAX_SAFE_INTEGER_def MIN_SAFE_INTEGER_def
      split: if_splits)

text \<open>
  A digest, when there is one, is exactly 64 lower-case hexadecimal characters; and there is
  none for a value that holds, at any depth of lists and dictionaries, a number with more than
  one representation: a non-integral or non-finite float, or one outside the JSON safe range.
\<close>

theorem digest_well_formed:
  assumes "digest v = Inr d"
  shows "is_sha256_hex d \<and> (\<forall>x. holds v x \<longrightarrow> portable_number x)"
proof
  from assms obtain m where "d = hex (sha256 m)"
    by (auto simp: digest_message bind_result_Inr)
  then show "is_sha256_hex d" by (simp add: is_sha256_hex_sha256)
  have "succeeds (serialize v)"
    using assms by (cases "serialize v") (auto simp: digest_def canonicalize_def result_simps)
  then show "\<forall>x. holds v x \<longrightarrow> portable_number x"
    by (blast intro: serialize_portable dest: serialize_parts)
qed

lemma digest_well_formed_witness:
  "\<exists>d. digest (PList [PNone]) = Inr d \<and> is_sha256_hex d \<and> \<not> holds (PList [PNone]) (PFloat FNan)"
proof -
  have "\<exists>d. digest (PList [PNone]) = Inr d"
    by (simp add: digest_def canonicalize_def result_simps encode_utf8_def str_def scalar_def
        high_surrogate_def low_surrogate_def)
  then obtain d where d: "digest (PList [PNone]) = Inr d" by blast
  have "\<not> portable_number (PFloat FNan)" by (simp add: portable_number_def)
  with digest_well_formed [OF d] d show ?thesis by blast
qed

lemma no_lone_surrogates_serialize:
  "no_lone_surrogates s \<Longrightarrow> canonicalize (PStr s) = Inr ([34] @ concat (map escape s) @ [34])"
  by (simp add: canonicalize_def serialize_string_def)

lemma escape_surrogate: "high_surrogate c \<Longrightarrow> escape c = [c]"
  by (auto simp: escape_def SHORT_ESCAPES_def high_surrogate_def)

text \<open>
  The surrogate check is not enough. A string in which every high surrogate code point is
  followed by a low one passes \<open>_reject_lone_surrogates\<close> and is canonicalized, yet its digest is
  the raw encoding error the check is there to prevent, because such a pair of code points is not
  the character it would encode in UTF-16.
\<close>

theorem paired_surrogates_break_digest:
  assumes "no_lone_surrogates s" and "c \<in> set s" and "high_surrogate c"
  shows "succeeds (canonicalize (PStr s)) \<and> digest (PStr s) = Inl UnicodeEncodeError"
proof -
  have "c \<in> set (concat (map escape s))"
    using assms(2) escape_surrogate [OF assms(3)] by force
  then have "\<not> list_all scalar ([34] @ concat (map escape s) @ [34])"
    using assms(3) by (auto simp: list_all_iff scalar_def)
  then show ?thesis
    using assms(1) by (simp add: digest_def no_lone_surrogates_serialize result_simps encode_utf8_def)
qed

lemma paired_surrogates_break_digest_witness:
  "digest (PStr [0xD83D, 0xDE00]) = Inl UnicodeEncodeError"
  using paired_surrogates_break_digest [of "[0xD83D, 0xDE00]" "0xD83D"]
  by (simp add: high_surrogate_def low_surrogate_def)

end
