(* ===== verification/Authority.thy ===== *)
theory Authority
  imports States Timestamps
begin

text \<open>
  Approvals, execution grants and the child authorizations minted from them
  (\<open>authority.py\<close>). Each refusal of the source is an error of its own; a malformed time is the
  TimestampError the comparison raises. Every check takes the current time as an argument, as
  the code does.
\<close>

section \<open>Records\<close>

datatype authority_error =
    ApprovalRevoked | ApprovalExpired | ScopeMismatch | DifferentWorkspace | DifferentTarget
  | TargetDigestChanged | RevisionMoved
  | GrantRevoked | GrantNotRevalidated | GrantExpired | GrantRevised
  | JourneyNotPermitted | PolicyNotPermitted | EffectsBroadened | ActionBudgetExceeded
  | WallTimeExceeded | OutlivesGrant | IssuerMissing
  | NotThisGrant | ChildExpired | ChildDifferentWorkspace | ChildDifferentRun
  | MalformedTime

record approval =
  approval_id :: pytext
  scope :: approval_scope
  actor_id :: pytext
  ap_workspace_id :: pytext
  target_id :: pytext
  target_digest :: pytext
  expected_revision :: int
  ap_expires_at :: pytext
  ap_revoked :: bool

record execution_grant =
  grant_id :: pytext
  gr_workspace_id :: pytext
  gr_project_id :: pytext
  environment :: pytext
  allowed_journey_version_ids :: "pytext set"
  allowed_policy_version_ids :: "pytext set"
  gr_permitted_effects :: "pytext set"
  gr_action_budget :: int
  gr_wall_time_budget_seconds :: int
  gr_expires_at :: pytext
  revision :: int
  gr_revoked :: bool
  revalidation_required :: bool

record child_authorization =
  authorization_id :: pytext
  run_id :: pytext
  ch_workspace_id :: pytext
  ch_project_id :: pytext
  journey_version_id :: pytext
  policy_version_id :: pytext
  permitted_effects :: "pytext set"
  action_budget :: int
  wall_time_budget_seconds :: int
  ch_expires_at :: pytext
  parent_grant_id :: pytext
  parent_grant_revision :: int
  issuing_service_identity :: pytext
  ch_scope :: approval_scope

type_synonym 'a authorized = "(authority_error, 'a) result"

text \<open>The constructors' \<open>__post_init__\<close>: a record exists only with a readable expiry.\<close>

definition readable :: "pytext \<Rightarrow> bool" where
  "readable t \<longleftrightarrow> succeeds (parse_rfc3339_utc t)"

definition construct_approval :: "approval \<Rightarrow> approval authorized" where
  "construct_approval a = (if readable (ap_expires_at a) then Inr a else Inl MalformedTime)"

definition construct_grant :: "execution_grant \<Rightarrow> execution_grant authorized" where
  "construct_grant g = (if readable (gr_expires_at g) then Inr g else Inl MalformedTime)"

definition construct_child :: "child_authorization \<Rightarrow> child_authorization authorized" where
  "construct_child c = (if readable (ch_expires_at c) then Inr c else Inl MalformedTime)"

section \<open>Checks\<close>

definition require :: "bool \<Rightarrow> 'e \<Rightarrow> ('e, unit) result" where
  "require b e = (if b then Inr () else Inl e)"

lemma require_Inr [simp]: "require b e = Inr u \<longleftrightarrow> b"
  by (simp add: require_def)

text \<open>\<open>if is_expired(...): raise\<close> and \<open>if is_after(...): raise\<close>.\<close>

definition require_not ::
  "(timestamp_error, bool) result \<Rightarrow> authority_error \<Rightarrow> unit authorized" where
  "require_not t e =
     (case t of Inl _ \<Rightarrow> Inl MalformedTime | Inr b \<Rightarrow> require (\<not> b) e)"

lemma require_not_Inr [simp]: "require_not t e = Inr u \<longleftrightarrow> t = Inr False"
  by (auto simp: require_not_def require_def split: sum.splits)

abbreviation seq :: "('e, unit) result \<Rightarrow> ('e, 'a) result \<Rightarrow> ('e, 'a) result" where
  "seq r s \<equiv> bind_result r (\<lambda>_. s)"

definition approval_check ::
  "approval \<Rightarrow> pytext \<Rightarrow> approval_scope \<Rightarrow> pytext \<Rightarrow> pytext \<Rightarrow> pytext \<Rightarrow> int \<Rightarrow> unit authorized" where
  "approval_check self now act_scope workspace_id act_target_id act_target_digest current_revision =
     seq (require (\<not> ap_revoked self) ApprovalRevoked)
    (seq (require_not (is_expired now (ap_expires_at self)) ApprovalExpired)
    (seq (require (scope self = act_scope) ScopeMismatch)
    (seq (require (ap_workspace_id self = workspace_id) DifferentWorkspace)
    (seq (require (target_id self = act_target_id) DifferentTarget)
    (seq (require (target_digest self = act_target_digest) TargetDigestChanged)
         (require (expected_revision self = current_revision) RevisionMoved))))))"

definition check_usable :: "execution_grant \<Rightarrow> pytext \<Rightarrow> int option \<Rightarrow> unit authorized" where
  "check_usable self now expected =
     seq (require (\<not> gr_revoked self) GrantRevoked)
    (seq (require (\<not> revalidation_required self) GrantNotRevalidated)
    (seq (require_not (is_expired now (gr_expires_at self)) GrantExpired)
         (require (expected = None \<or> expected = Some (revision self)) GrantRevised)))"

definition assert_child_within_grant ::
  "execution_grant \<Rightarrow> pytext \<Rightarrow> pytext \<Rightarrow> pytext set \<Rightarrow> int \<Rightarrow> int \<Rightarrow> pytext \<Rightarrow> unit authorized" where
  "assert_child_within_grant grant journey policy effects actions wall_time expires_at =
     seq (require (journey \<in> allowed_journey_version_ids grant) JourneyNotPermitted)
    (seq (require (policy \<in> allowed_policy_version_ids grant) PolicyNotPermitted)
    (seq (require (effects \<subseteq> gr_permitted_effects grant) EffectsBroadened)
    (seq (require (\<not> actions > gr_action_budget grant) ActionBudgetExceeded)
    (seq (require (\<not> wall_time > gr_wall_time_budget_seconds grant) WallTimeExceeded)
         (require_not (is_after expires_at (gr_expires_at grant)) OutlivesGrant)))))"

definition mint_child_authorization ::
  "execution_grant \<Rightarrow> pytext \<Rightarrow> pytext \<Rightarrow> pytext \<Rightarrow> pytext \<Rightarrow> pytext \<Rightarrow> pytext set \<Rightarrow> int \<Rightarrow> int \<Rightarrow>
     pytext \<Rightarrow> pytext \<Rightarrow> child_authorization authorized" where
  "mint_child_authorization grant now new_id run journey policy effects actions wall_time
       expires_at issuer =
     seq (check_usable grant now None)
    (seq (assert_child_within_grant grant journey policy effects actions wall_time expires_at)
    (seq (require (strip issuer \<noteq> []) IssuerMissing)
         (construct_child
           \<lparr>authorization_id = new_id, run_id = run,
            ch_workspace_id = gr_workspace_id grant, ch_project_id = gr_project_id grant,
            journey_version_id = journey, policy_version_id = policy,
            permitted_effects = effects, action_budget = actions,
            wall_time_budget_seconds = wall_time, ch_expires_at = expires_at,
            parent_grant_id = grant_id grant, parent_grant_revision = revision grant,
            issuing_service_identity = issuer, ch_scope = RUN_EFFECTS\<rparr>)))"

definition check_child_at_dispatch ::
  "child_authorization \<Rightarrow> execution_grant \<Rightarrow> pytext \<Rightarrow> pytext \<Rightarrow> pytext \<Rightarrow> unit authorized" where
  "check_child_at_dispatch child parent now workspace run =
     seq (require (parent_grant_id child = grant_id parent) NotThisGrant)
    (seq (require_not (is_expired now (ch_expires_at child)) ChildExpired)
    (seq (require (ch_workspace_id child = workspace) ChildDifferentWorkspace)
    (seq (require (run_id child = run) ChildDifferentRun)
    (seq (check_usable parent now (Some (parent_grant_revision child)))
         (assert_child_within_grant parent (journey_version_id child) (policy_version_id child)
            (permitted_effects child) (action_budget child) (wall_time_budget_seconds child)
            (ch_expires_at child))))))"

definition authorizes_patch :: "approval_scope \<Rightarrow> bool" where
  "authorizes_patch s \<longleftrightarrow> s = PATCH_APPLY"

definition authorizes_merge_or_deploy :: "approval_scope \<Rightarrow> bool" where
  "authorizes_merge_or_deploy s \<longleftrightarrow> False"

section \<open>Facts\<close>

lemma seq_Inr [simp]: "seq r s = Inr x \<longleftrightarrow> r = Inr () \<and> s = Inr x"
  by (cases r) (simp_all add: result_simps)

text \<open>Containment of a child in its grant, along every axis.\<close>

definition contained :: "child_authorization \<Rightarrow> execution_grant \<Rightarrow> bool" where
  "contained c g \<longleftrightarrow>
     journey_version_id c \<in> allowed_journey_version_ids g \<and>
     policy_version_id c \<in> allowed_policy_version_ids g \<and>
     permitted_effects c \<subseteq> gr_permitted_effects g \<and>
     action_budget c \<le> gr_action_budget g \<and>
     wall_time_budget_seconds c \<le> gr_wall_time_budget_seconds g \<and>
     is_after (ch_expires_at c) (gr_expires_at g) = Inr False"

lemma assert_child_within_grant_iff:
  "assert_child_within_grant g (journey_version_id c) (policy_version_id c) (permitted_effects c)
     (action_budget c) (wall_time_budget_seconds c) (ch_expires_at c) = Inr () \<longleftrightarrow> contained c g"
  by (auto simp: assert_child_within_grant_def contained_def)

definition live :: "execution_grant \<Rightarrow> pytext \<Rightarrow> bool" where
  "live g now \<longleftrightarrow> \<not> gr_revoked g \<and> \<not> revalidation_required g \<and>
     is_expired now (gr_expires_at g) = Inr False"

lemma check_usable_iff:
  "check_usable g now r = Inr () \<longleftrightarrow> live g now \<and> (r = None \<or> r = Some (revision g))"
  by (auto simp: check_usable_def live_def)

lemma dispatch_iff:
  "check_child_at_dispatch c g now w r = Inr () \<longleftrightarrow>
     parent_grant_id c = grant_id g \<and> is_expired now (ch_expires_at c) = Inr False \<and>
     ch_workspace_id c = w \<and> run_id c = r \<and> live g now \<and>
     parent_grant_revision c = revision g \<and> contained c g"
  by (auto simp: check_child_at_dispatch_def check_usable_iff assert_child_within_grant_iff)

lemma mint_Inr:
  "mint_child_authorization g now i r j p e a wt x issuer = Inr c \<Longrightarrow>
     live g now \<and> contained c g \<and> strip issuer \<noteq> [] \<and>
     parent_grant_id c = grant_id g \<and> parent_grant_revision c = revision g \<and>
     ch_workspace_id c = gr_workspace_id g \<and> ch_project_id c = gr_project_id g \<and>
     authorization_id c = i \<and> run_id c = r \<and> ch_expires_at c = x \<and>
     issuing_service_identity c = issuer \<and> ch_scope c = RUN_EFFECTS"
  by (auto simp: mint_child_authorization_def check_usable_iff assert_child_within_grant_def
      contained_def construct_child_def split: if_splits)

section \<open>Properties\<close>

text \<open>
  An approval authorizes one act, until it expires. Any two acts the same approval lets
  through agree in scope, workspace, target, digest and revision, and a time at which it was seen
  expired is never followed by one at which it lets anything through.
\<close>

theorem approval_authorizes_one_act:
  assumes "approval_check a now s w t d r = Inr ()"
  shows "(approval_check a now' s' w' t' d' r' = Inr () \<longrightarrow>
            s' = s \<and> w' = w \<and> t' = t \<and> d' = d \<and> r' = r) \<and>
    (\<forall>before. is_expired before (ap_expires_at a) = Inr True \<longrightarrow>
       is_after before now \<noteq> Inr False)"
proof -
  have "is_expired now (ap_expires_at a) \<noteq> Inr True"
    using assms by (simp add: approval_check_def)
  with utc.expired_stays show ?thesis
    using assms by (auto simp: approval_check_def)
qed

definition sample_approval :: approval where
  "sample_approval =
     \<lparr>approval_id = str ''a1'', scope = PATCH_APPLY, actor_id = str ''u1'',
      ap_workspace_id = str ''w1'', target_id = str ''t1'', target_digest = str ''d1'',
      expected_revision = 3, ap_expires_at = str ''2026-09-09T12:00:00Z'', ap_revoked = False\<rparr>"

lemma approval_authorizes_one_act_witness:
  "approval_check sample_approval (str ''2026-09-09T11:59:59Z'') RUN_EFFECTS (str ''w1'')
     (str ''t1'') (str ''d1'') 3 \<noteq> Inr ()"
proof -
  have "approval_check sample_approval (str ''2026-09-09T11:59:59.5Z'') PATCH_APPLY (str ''w1'')
      (str ''t1'') (str ''d1'') 3 = Inr ()"
    by (simp add: approval_check_def sample_approval_def is_expired_def timestamp_eval result_simps
        less_eq_instant_def instant_fields_def)
  from approval_authorizes_one_act [OF this] show ?thesis by blast
qed

text \<open>
  Minting keeps its promise. A minted child passes the dispatch check for its own run and
  workspace at every later time before its own expiry, against the grant it came from, because it
  cannot outlive the grant; and against any changed grant (revoked, restored without revalidation,
  or at another revision) it never passes.
\<close>

theorem minted_child_dispatches:
  assumes "mint_child_authorization g now i r j p e a wt x issuer = Inr c"
    and "is_expired later x = Inr False"
  shows "check_child_at_dispatch c g later (gr_workspace_id g) r = Inr () \<and>
    (\<forall>g' t. gr_revoked g' \<or> revalidation_required g' \<or> revision g' \<noteq> revision g \<longrightarrow>
       check_child_at_dispatch c g' t (gr_workspace_id g) r \<noteq> Inr ())"
proof -
  note c = mint_Inr [OF assms(1)]
  then have "is_after x (gr_expires_at g) = Inr False"
    by (auto simp: contained_def)
  from utc.contained_expiry [OF this assms(2)] have "live g later"
    using c by (simp add: live_def)
  with c assms(2) show ?thesis by (auto simp: dispatch_iff live_def)
qed

definition sample_grant :: execution_grant where
  "sample_grant =
     \<lparr>grant_id = str ''g1'', gr_workspace_id = str ''w1'', gr_project_id = str ''p1'',
      environment = str ''test'', allowed_journey_version_ids = {str ''j1''},
      allowed_policy_version_ids = {str ''q1''}, gr_permitted_effects = {str ''read'', str ''type''},
      gr_action_budget = 10, gr_wall_time_budget_seconds = 60,
      gr_expires_at = str ''2026-09-09T12:00:00Z'', revision = 4, gr_revoked = False,
      revalidation_required = False\<rparr>"

definition sample_child :: child_authorization where
  "sample_child =
     \<lparr>authorization_id = str ''c1'', run_id = str ''r1'', ch_workspace_id = str ''w1'',
      ch_project_id = str ''p1'', journey_version_id = str ''j1'', policy_version_id = str ''q1'',
      permitted_effects = {str ''read''}, action_budget = 5, wall_time_budget_seconds = 30,
      ch_expires_at = str ''2026-09-09T11:30:00Z'', parent_grant_id = str ''g1'',
      parent_grant_revision = 4, issuing_service_identity = str ''svc'', ch_scope = RUN_EFFECTS\<rparr>"

lemma sample_child_minted:
  "mint_child_authorization sample_grant (str ''2026-09-09T11:00:00Z'') (str ''c1'') (str ''r1'')
     (str ''j1'') (str ''q1'') {str ''read''} 5 30 (str ''2026-09-09T11:30:00Z'') (str ''svc'') =
   Inr sample_child"
proof -
  have "is_expired (str ''2026-09-09T11:00:00Z'') (str ''2026-09-09T12:00:00Z'') = Inr False"
    "is_after (str ''2026-09-09T11:30:00Z'') (str ''2026-09-09T12:00:00Z'') = Inr False"
    "readable (str ''2026-09-09T11:30:00Z'')" "strip (str ''svc'') \<noteq> []"
    by (simp_all add: is_expired_def is_after_def timestamp_eval result_simps less_eq_instant_def
        less_instant_def instant_fields_def readable_def strip_def py_space_def)
  then show ?thesis
    by (simp add: mint_child_authorization_def check_usable_def assert_child_within_grant_def
        construct_child_def sample_grant_def sample_child_def require_not_def require_def)
qed

lemma minted_child_dispatches_witness:
  "check_child_at_dispatch sample_child sample_grant (str ''2026-09-09T11:29:59.999999Z'')
     (str ''w1'') (str ''r1'') = Inr ()"
proof -
  have "is_expired (str ''2026-09-09T11:29:59.999999Z'') (str ''2026-09-09T11:30:00Z'') = Inr False"
    by (simp add: is_expired_def timestamp_eval result_simps less_eq_instant_def instant_fields_def)
  from minted_child_dispatches [OF sample_child_minted this] show ?thesis
    by (simp add: sample_grant_def)
qed

text \<open>
  C25: nothing passes dispatch that its grant does not contain, however the child came to exist.
  An accepted child is within the grant's journeys, policies, effects and budgets, its grant is
  live and unrevised, and it still is at every time at which the child has not expired.
\<close>

theorem dispatch_requires_containment:
  assumes "check_child_at_dispatch c g now w r = Inr ()"
  shows "contained c g \<and> live g now \<and> parent_grant_revision c = revision g \<and>
    (\<forall>t. is_expired t (ch_expires_at c) = Inr False \<longrightarrow> live g t)"
  using assms utc.contained_expiry by (auto simp: dispatch_iff contained_def live_def)

lemma dispatch_requires_containment_witness:
  "contained sample_child sample_grant"
proof -
  have "is_expired (str ''2026-09-09T11:00:00Z'') (str ''2026-09-09T12:00:00Z'') = Inr False"
    "is_expired (str ''2026-09-09T11:00:00Z'') (str ''2026-09-09T11:30:00Z'') = Inr False"
    "is_after (str ''2026-09-09T11:30:00Z'') (str ''2026-09-09T12:00:00Z'') = Inr False"
    by (simp_all add: is_expired_def is_after_def timestamp_eval result_simps less_eq_instant_def
        less_instant_def instant_fields_def)
  then have "check_child_at_dispatch sample_child sample_grant (str ''2026-09-09T11:00:00Z'')
      (str ''w1'') (str ''r1'') = Inr ()"
    by (simp add: check_child_at_dispatch_def check_usable_def assert_child_within_grant_def
        sample_grant_def sample_child_def)
  from dispatch_requires_containment [OF this] show ?thesis by simp
qed

end
