(* ===== verification/Authorization.thy ===== *)
theory Authorization
  imports Prelude
begin

text \<open>
  Roles and their permissions, human and machine principals, and which service identity may submit
  which kind of evidence (\<open>authorization/roles.py\<close>, \<open>principals.py\<close>, \<open>events.py\<close>).
\<close>

section \<open>Roles\<close>

datatype role = OWNER | MAINTAINER | REVIEWER | VIEWER

datatype permission =
    MEMBERSHIP_ADMINISTER | WORKSPACE_CONFIGURE | PROJECT_CONFIGURE | RUN_REQUEST | RUN_APPROVE
  | PATCH_APPROVE | PATCH_REVIEW | EVIDENCE_READ | EVIDENCE_EXPORT | GITHUB_PUBLISH_APPROVE
  | INFRASTRUCTURE_OPERATE

definition all_permissions :: "permission set" where
  "all_permissions =
     {MEMBERSHIP_ADMINISTER, WORKSPACE_CONFIGURE, PROJECT_CONFIGURE, RUN_REQUEST, RUN_APPROVE,
      PATCH_APPROVE, PATCH_REVIEW, EVIDENCE_READ, EVIDENCE_EXPORT, GITHUB_PUBLISH_APPROVE,
      INFRASTRUCTURE_OPERATE}"

fun ROLE_PERMISSIONS :: "role \<Rightarrow> permission set" where
  "ROLE_PERMISSIONS OWNER = all_permissions"
| "ROLE_PERMISSIONS MAINTAINER =
     {PROJECT_CONFIGURE, RUN_REQUEST, RUN_APPROVE, PATCH_APPROVE, EVIDENCE_READ, EVIDENCE_EXPORT}"
| "ROLE_PERMISSIONS REVIEWER = {EVIDENCE_READ, PATCH_REVIEW}"
| "ROLE_PERMISSIONS VIEWER = {EVIDENCE_READ}"

datatype authorization_error = AuthorizationError

definition permissions_for :: "role \<Rightarrow> permission set" where
  "permissions_for r = ROLE_PERMISSIONS r"

definition role_permits :: "role \<Rightarrow> permission \<Rightarrow> bool" where
  "role_permits r p \<longleftrightarrow> p \<in> ROLE_PERMISSIONS r"

definition assert_permitted :: "role \<Rightarrow> permission \<Rightarrow> (authorization_error, unit) result" where
  "assert_permitted r p = (if \<not> role_permits r p then Inl AuthorizationError else Inr ())"

section \<open>Principals\<close>

datatype service_identity = ORCHESTRATOR | BUILDER | SUPERVISOR | OBSERVER | INGESTION | NAVIGATOR

record human_principal =
  user_id :: pytext
  human_workspace_id :: pytext
  human_role :: role
  session_id :: pytext

record machine_principal =
  service_identity :: service_identity
  machine_workspace_id :: pytext
  credential_id :: pytext
  machine_run_id :: "pytext option"
  lease_id :: "pytext option"

datatype principal = Human human_principal | Machine machine_principal

definition human_permits :: "human_principal \<Rightarrow> permission \<Rightarrow> bool" where
  "human_permits self p = role_permits (human_role self) p"

definition machine_permits :: "machine_principal \<Rightarrow> permission \<Rightarrow> bool" where
  "machine_permits self p = False"

fun permits :: "principal \<Rightarrow> permission \<Rightarrow> bool" where
  "permits (Human h) p = human_permits h p"
| "permits (Machine m) p = machine_permits m p"

section \<open>Events\<close>

definition SUPERVISOR_KINDS :: "pytext set" where
  "SUPERVISOR_KINDS =
     {str ''RUN_STARTED'', str ''PREFLIGHT_RESULT'', str ''ACTION_INTENT'', str ''ACTION_RESULT'',
      str ''READER_OBSERVATION'', str ''BUDGET_EVENT'', str ''INTERRUPTION'',
      str ''RUN_FINISHED''}"

definition OBSERVER_KINDS :: "pytext set" where
  "OBSERVER_KINDS = {str ''EFFECT_RECEIPT'', str ''ASSERTION_OBSERVATION''}"

fun EVENT_PRODUCER_ACL :: "service_identity \<Rightarrow> pytext set" where
  "EVENT_PRODUCER_ACL SUPERVISOR = SUPERVISOR_KINDS"
| "EVENT_PRODUCER_ACL OBSERVER = OBSERVER_KINDS"
| "EVENT_PRODUCER_ACL NAVIGATOR = {}"
| "EVENT_PRODUCER_ACL ORCHESTRATOR = {}"
| "EVENT_PRODUCER_ACL BUILDER = {}"
| "EVENT_PRODUCER_ACL INGESTION = {}"

datatype submission_error = EventSubmissionError

definition may_submit_event :: "machine_principal \<Rightarrow> pytext \<Rightarrow> bool" where
  "may_submit_event p event_type \<longleftrightarrow> event_type \<in> EVENT_PRODUCER_ACL (service_identity p)"

definition assert_may_submit_event ::
  "machine_principal \<Rightarrow> pytext \<Rightarrow> (submission_error, unit) result" where
  "assert_may_submit_event p event_type =
     (if \<not> may_submit_event p event_type then Inl EventSubmissionError else Inr ())"

definition assert_may_dispatch_os_action ::
  "machine_principal \<Rightarrow> (submission_error, unit) result" where
  "assert_may_dispatch_os_action p =
     (if service_identity p \<noteq> SUPERVISOR then Inl EventSubmissionError
      else if lease_id p = None \<or> lease_id p = Some [] then Inl EventSubmissionError
      else Inr ())"

section \<open>Properties\<close>

lemma kinds_disjoint: "SUPERVISOR_KINDS \<inter> OBSERVER_KINDS = {}"
  by (auto simp: SUPERVISOR_KINDS_def OBSERVER_KINDS_def str_def)

lemma may_submit_cases:
  "may_submit_event p k \<Longrightarrow>
     service_identity p = SUPERVISOR \<and> k \<in> SUPERVISOR_KINDS \<or>
     service_identity p = OBSERVER \<and> k \<in> OBSERVER_KINDS"
  by (cases "service_identity p") (auto simp: may_submit_event_def)

text \<open>
  Separation of the actor and its witness. An event kind is accepted from at most one service
  identity; whoever may dispatch an operating-system action may submit no receipt and no observer
  assertion, and whoever may submit those may not act; and no machine holds a role permission.
\<close>

theorem actor_and_witness_separated:
  "(may_submit_event p k \<and> may_submit_event q k \<longrightarrow> service_identity p = service_identity q) \<and>
   (assert_may_dispatch_os_action p = Inr () \<longrightarrow>
      (\<forall>kind \<in> OBSERVER_KINDS. assert_may_submit_event p kind = Inl EventSubmissionError)) \<and>
   (kind \<in> OBSERVER_KINDS \<and> assert_may_submit_event p kind = Inr () \<longrightarrow>
      assert_may_dispatch_os_action p = Inl EventSubmissionError) \<and>
   \<not> permits (Machine p) right"
  using kinds_disjoint
  by (auto simp: assert_may_dispatch_os_action_def assert_may_submit_event_def machine_permits_def
      dest!: may_submit_cases split: if_splits)

definition sample_supervisor :: machine_principal where
  "sample_supervisor =
     \<lparr>service_identity = SUPERVISOR, machine_workspace_id = str ''w1'', credential_id = str ''k1'',
      machine_run_id = Some (str ''r1''), lease_id = Some (str ''l1'')\<rparr>"

lemma actor_and_witness_separated_witness:
  "assert_may_submit_event sample_supervisor (str ''EFFECT_RECEIPT'') = Inl EventSubmissionError"
  using actor_and_witness_separated [of sample_supervisor "[]" sample_supervisor "[]"]
  by (simp add: assert_may_dispatch_os_action_def sample_supervisor_def OBSERVER_KINDS_def)

text \<open>
  Reviewing confers no authority. A role that may review a patch and may also approve a run,
  a patch or a publication, or operate infrastructure, is the owner; only the owner administers
  membership and settings or approves a publication; and every role can read evidence.
\<close>

theorem reviewing_confers_no_authority:
  "(role_permits r PATCH_REVIEW \<and>
      (\<exists>p \<in> {RUN_REQUEST, RUN_APPROVE, PATCH_APPROVE, GITHUB_PUBLISH_APPROVE,
              INFRASTRUCTURE_OPERATE}. role_permits r p) \<longrightarrow> r = OWNER) \<and>
   (\<forall>p \<in> {MEMBERSHIP_ADMINISTER, WORKSPACE_CONFIGURE, GITHUB_PUBLISH_APPROVE,
            INFRASTRUCTURE_OPERATE}. role_permits r p \<longleftrightarrow> r = OWNER) \<and>
   role_permits r EVIDENCE_READ"
  by (cases r) (auto simp: role_permits_def all_permissions_def)

lemma reviewing_confers_no_authority_witness:
  "\<not> role_permits REVIEWER RUN_APPROVE \<and> \<not> role_permits MAINTAINER GITHUB_PUBLISH_APPROVE"
  using reviewing_confers_no_authority [of REVIEWER] reviewing_confers_no_authority [of MAINTAINER]
  by (auto simp: role_permits_def)

end
