(* ===== verification/Outcome.thy ===== *)
theory Outcome
  imports States
begin

text \<open>
  Deterministic outcome evaluation (\<open>outcome.py\<close>): the one place a PASS is produced, as a pure
  function of recorded evidence, with the reasons it gives.
\<close>

record evidence_validity =
  identity_bound :: bool
  preflight_passed :: bool
  evidence_chain_intact :: bool
  producer_tails_closed :: bool

definition validity_reasons :: "evidence_validity \<Rightarrow> pytext list" where
  "validity_reasons v =
     (if \<not> identity_bound v then [str ''identity not bound to exact versions''] else []) @
     (if \<not> preflight_passed v then [str ''preflight did not pass''] else []) @
     (if \<not> evidence_chain_intact v
      then [str ''evidence chain has gaps, forks or missing artifacts''] else []) @
     (if \<not> producer_tails_closed v
      then [str ''required producer closing watermarks missing''] else [])"

definition sound :: "evidence_validity \<Rightarrow> bool" where
  "sound v \<longleftrightarrow> validity_reasons v = []"

text \<open>Every field of \<open>EvidenceValidity\<close> defaults to the unsound value.\<close>

definition default_validity :: evidence_validity where
  "default_validity = \<lparr>identity_bound = False, preflight_passed = False,
     evidence_chain_intact = False, producer_tails_closed = False\<rparr>"

record evaluation_input =
  validity :: evidence_validity
  required_assertions :: "condition list"
  completion :: condition

record evaluation =
  eval_outcome :: outcome
  eval_reasons :: "pytext list"

definition count :: "condition \<Rightarrow> condition list \<Rightarrow> nat" where
  "count c cs = length (filter (\<lambda>x. x = c) cs)"

definition evaluate :: "evaluation_input \<Rightarrow> evaluation" where
  "evaluate i =
     (if \<not> sound (validity i) then
        \<lparr>eval_outcome = INCONCLUSIVE, eval_reasons = validity_reasons (validity i)\<rparr>
      else
        let conditions = required_assertions i @ [completion i];
            unknown_count = count UNKNOWN conditions
        in if unknown_count \<noteq> 0 then
             let detail = (if completion i = UNKNOWN
                           then [str ''required completion observation is unknown''] else []);
                 unknown_assertions = count UNKNOWN (required_assertions i)
             in \<lparr>eval_outcome = INCONCLUSIVE,
                 eval_reasons = detail @
                   (if unknown_assertions \<noteq> 0
                    then [show_nat unknown_assertions @ str '' required assertion(s) unknown'']
                    else [])\<rparr>
           else
             let false_assertions = count FALSE (required_assertions i);
                 completion_false = (completion i = FALSE)
             in if false_assertions \<noteq> 0 \<or> completion_false then
                  \<lparr>eval_outcome = FAIL,
                   eval_reasons =
                     (if false_assertions \<noteq> 0
                      then [show_nat false_assertions @ str '' required assertion(s) false'']
                      else []) @
                     (if completion_false
                      then [str ''required completion observation is false''] else [])\<rparr>
                else \<lparr>eval_outcome = PASS, eval_reasons = []\<rparr>)"

section \<open>Facts\<close>

lemma count_eq_0_iff [simp]: "count c cs = 0 \<longleftrightarrow> c \<notin> set cs"
  by (auto simp: count_def filter_empty_conv)

lemma count_pos_iff [simp]: "0 < count c cs \<longleftrightarrow> c \<in> set cs"
  using count_eq_0_iff [of c cs] by (simp only: neq0_conv [symmetric] not_not)

lemma count_append [simp]: "count c (cs @ ds) = count c cs + count c ds"
  by (simp add: count_def)

lemma sound_iff:
  "sound v \<longleftrightarrow> identity_bound v \<and> preflight_passed v \<and> evidence_chain_intact v \<and>
     producer_tails_closed v"
  by (auto simp: sound_def validity_reasons_def)

lemma default_validity_unsound: "\<not> sound default_validity"
  by (simp add: sound_iff default_validity_def)

text \<open>The contract, section 5: four rules in order of precedence.\<close>

definition verdict_spec :: "bool \<Rightarrow> condition set \<Rightarrow> outcome" where
  "verdict_spec footing cs =
     (if \<not> footing then INCONCLUSIVE
      else if UNKNOWN \<in> cs then INCONCLUSIVE
      else if FALSE \<in> cs then FAIL
      else PASS)"

lemma evaluate_outcome:
  "eval_outcome (evaluate i) =
     verdict_spec (sound (validity i)) (insert (completion i) (set (required_assertions i)))"
  by (auto simp: evaluate_def verdict_spec_def Let_def)

lemma evaluate_reasons_empty:
  "eval_reasons (evaluate i) = [] \<longleftrightarrow> eval_outcome (evaluate i) = PASS"
  by (auto simp: evaluate_def Let_def sound_def)

lemma evaluate_PASS_iff:
  "eval_outcome (evaluate i) = PASS \<longleftrightarrow>
     sound (validity i) \<and> completion i = TRUE \<and> (\<forall>c \<in> set (required_assertions i). c = TRUE)"
  by (auto simp: evaluate_outcome verdict_spec_def) (metis condition.exhaust)+

lemma evaluate_evaluated: "eval_outcome (evaluate i) \<noteq> NOT_EVALUATED"
  by (simp add: evaluate_outcome verdict_spec_def)

text \<open>
  The order of information on conditions: an observation that is lost becomes UNKNOWN. A verdict
  can only lose its definiteness by that, never turn into the other definite verdict.
\<close>

definition loses_to :: "condition \<Rightarrow> condition \<Rightarrow> bool" where
  "loses_to c d \<longleftrightarrow> d = c \<or> d = UNKNOWN"

lemma verdict_spec_lossy:
  assumes "\<forall>d \<in> ds. \<exists>c \<in> cs. loses_to c d" and "\<forall>c \<in> cs. \<exists>d \<in> ds. loses_to c d"
  shows "verdict_spec b ds = verdict_spec b cs \<or> verdict_spec b ds = INCONCLUSIVE"
  using assms by (auto simp: verdict_spec_def loses_to_def)

section \<open>Properties\<close>

text \<open>
  C24: the verdict is the contract's precedence, and it explains itself. Unsound footing decides
  first, then a lost observation, then a false one; the reasons are empty exactly for PASS; and
  the evaluator never answers NOT_EVALUATED.
\<close>

theorem verdict_precedence:
  "eval_outcome (evaluate i) =
     verdict_spec (sound (validity i)) (insert (completion i) (set (required_assertions i))) \<and>
   (eval_reasons (evaluate i) = [] \<longleftrightarrow> eval_outcome (evaluate i) = PASS) \<and>
   eval_outcome (evaluate i) \<noteq> NOT_EVALUATED"
  by (intro conjI evaluate_outcome evaluate_reasons_empty evaluate_evaluated)

text \<open>
  Losing observations never turns one definite verdict into the other. If some conditions of
  an input become UNKNOWN, the verdict stays what it was or becomes INCONCLUSIVE.
\<close>

theorem lost_observations_never_flip:
  assumes "validity j = validity i"
    and "list_all2 loses_to (required_assertions i) (required_assertions j)"
    and "loses_to (completion i) (completion j)"
  shows "eval_outcome (evaluate j) \<in> {eval_outcome (evaluate i), INCONCLUSIVE}"
proof -
  let ?C = "insert (completion i) (set (required_assertions i))"
  let ?D = "insert (completion j) (set (required_assertions j))"
  have "\<forall>d \<in> ?D. \<exists>c \<in> ?C. loses_to c d" "\<forall>c \<in> ?C. \<exists>d \<in> ?D. loses_to c d"
    using assms(3) list_all2_partner [OF assms(2)] by blast+
  from verdict_spec_lossy [OF this] show ?thesis
    by (simp add: evaluate_outcome assms(1))
qed

lemma lost_observations_never_flip_witness:
  "eval_outcome (evaluate \<lparr>validity = \<lparr>identity_bound = True, preflight_passed = True,
       evidence_chain_intact = True, producer_tails_closed = True\<rparr>,
     required_assertions = [TRUE, UNKNOWN], completion = TRUE\<rparr>) \<in> {FAIL, INCONCLUSIVE}"
proof -
  let ?v = "\<lparr>identity_bound = True, preflight_passed = True,
       evidence_chain_intact = True, producer_tails_closed = True\<rparr>"
  let ?i = "\<lparr>validity = ?v, required_assertions = [TRUE, FALSE], completion = TRUE\<rparr>"
  let ?j = "\<lparr>validity = ?v, required_assertions = [TRUE, UNKNOWN], completion = TRUE\<rparr>"
  have "eval_outcome (evaluate ?i) = FAIL"
    by (simp add: evaluate_def count_def sound_def validity_reasons_def Let_def)
  moreover have "eval_outcome (evaluate ?j) \<in> {eval_outcome (evaluate ?i), INCONCLUSIVE}"
    by (rule lost_observations_never_flip) (simp_all add: loses_to_def)
  ultimately show ?thesis by simp
qed

end
