(* ===== verification/Identifiers.thy ===== *)
theory Identifiers
  imports Sha256
begin

text \<open>
  The identifier shapes several modules check: canonical UUID text, fixture nonces and digests.
\<close>

text \<open>
  \<open>str(UUID(v)) == v\<close>: the text \<open>str\<close> prints for a UUID is 32 lower-case hexadecimal
  characters grouped 8-4-4-4-12, and parsing such a text gives the same UUID back, so the test
  holds exactly of those texts. Any other text raises ValueError or compares unequal, which every
  caller treats alike.
\<close>

definition canonical_uuid :: "pytext \<Rightarrow> bool" where
  "canonical_uuid v \<longleftrightarrow> length v = 36 \<and>
     list_all (\<lambda>i. v ! i = 45) [8, 13, 18, 23] \<and>
     list_all (\<lambda>i. i \<in> {8, 13, 18, 23} \<or> is_lower_hex (v ! i)) [0..<36]"

text \<open>\<open>re.fullmatch(r"[A-Za-z0-9_-]{16,64}", v)\<close>.\<close>

definition nonce_char :: "code_point \<Rightarrow> bool" where
  "nonce_char c \<longleftrightarrow> (65 \<le> c \<and> c \<le> 90) \<or> (97 \<le> c \<and> c \<le> 122) \<or> is_digit c \<or> c = 95 \<or> c = 45"

definition fixture_nonce :: "pytext \<Rightarrow> bool" where
  "fixture_nonce v \<longleftrightarrow> 16 \<le> length v \<and> length v \<le> 64 \<and> list_all nonce_char v"

lemma canonical_uuid_length: "canonical_uuid v \<Longrightarrow> length v = 36"
  by (simp add: canonical_uuid_def)

end
