(* ===== verification/Effect_Monitor.thy ===== *)
theory Effect_Monitor
  imports States Identifiers
begin

text \<open>
  Independent measurement of forbidden effects (\<open>effect_monitor.py\<close>): windows, measured intervals
  and the judgement that an effect was absent.
\<close>

section \<open>Measurements\<close>

definition EFFECTS :: "pytext set" where
  "EFFECTS = {str ''CREATE_TEST_REQUEST'', str ''EXTERNAL_SUBMISSION'', str ''SEND_EMAIL'',
              str ''SEND_PAYMENT''}"

definition MAX_INTERVALS :: nat where
  "MAX_INTERVALS = 1000"

definition tick :: "int \<Rightarrow> bool" where
  "tick v \<longleftrightarrow> 0 \<le> v \<and> v \<le> 2 ^ 63 - 1"

record effect_window =
  window_run_id :: pytext
  window_attempt_id :: pytext
  scope_digest :: pytext
  clock_epoch :: pytext
  effect :: pytext
  window_start_ns :: int
  window_end_ns :: int

record effect_interval =
  start_ns :: int
  end_ns :: int
  occurrences :: int

record effect_coverage =
  window :: effect_window
  intervals :: "effect_interval list"

text \<open>The three \<open>__post_init__\<close> checks: True when the constructor does not raise ValueError.\<close>

definition window_ok :: "effect_window \<Rightarrow> bool" where
  "window_ok w \<longleftrightarrow>
     list_all canonical_uuid [window_run_id w, window_attempt_id w, clock_epoch w] \<and>
     is_sha256_hex (scope_digest w) \<and> effect w \<in> EFFECTS \<and>
     tick (window_start_ns w) \<and> tick (window_end_ns w) \<and> window_start_ns w < window_end_ns w"

definition interval_ok :: "effect_interval \<Rightarrow> bool" where
  "interval_ok i \<longleftrightarrow>
     tick (start_ns i) \<and> tick (end_ns i) \<and> start_ns i < end_ns i \<and> tick (occurrences i)"

definition coverage_ok :: "effect_coverage \<Rightarrow> bool" where
  "coverage_ok m \<longleftrightarrow>
     length (intervals m) \<le> MAX_INTERVALS \<and>
     \<not> (list_ex (\<lambda>i. start_ns i < window_start_ns (window m) \<or>
                     end_ns i > window_end_ns (window m)) (intervals m) \<or>
        list_ex (\<lambda>(left, right). end_ns left > start_ns right)
          (zip (intervals m) (tl (intervals m))))"

section \<open>The judgement\<close>

fun walk :: "int \<Rightarrow> effect_interval list \<Rightarrow> int option" where
  "walk cursor [] = Some cursor"
| "walk cursor (i # is) = (if start_ns i \<noteq> cursor then None else walk (end_ns i) is)"

definition assess_effect_absence ::
  "effect_window \<Rightarrow> effect_coverage option \<Rightarrow> condition" where
  "assess_effect_absence expected measured =
     (case measured of
        None \<Rightarrow> UNKNOWN
      | Some m \<Rightarrow>
          if window m \<noteq> expected then UNKNOWN
          else if list_ex (\<lambda>i. occurrences i > 0) (intervals m) then FALSE
          else case walk (window_start_ns expected) (intervals m) of
                 None \<Rightarrow> UNKNOWN
               | Some cursor \<Rightarrow> if cursor = window_end_ns expected then TRUE else UNKNOWN)"

section \<open>Facts\<close>

definition measured_at :: "effect_interval list \<Rightarrow> int \<Rightarrow> bool" where
  "measured_at is t \<longleftrightarrow> (\<exists>i \<in> set is. start_ns i \<le> t \<and> t < end_ns i)"

fun ordered :: "effect_interval list \<Rightarrow> bool" where
  "ordered (i # j # is) = (end_ns i \<le> start_ns j \<and> ordered (j # is))"
| "ordered is = True"

lemma ordered_zip: "\<not> list_ex (\<lambda>(l, r). end_ns l > start_ns r) (zip is (tl is)) \<longleftrightarrow> ordered is"
  by (induction "is" rule: ordered.induct) auto

lemma ordered_after:
  "ordered (i # is) \<Longrightarrow> \<forall>j \<in> set is. start_ns j < end_ns j \<Longrightarrow> j \<in> set is \<Longrightarrow> end_ns i \<le> start_ns j"
proof (induction "is" arbitrary: i)
  case (Cons k ks)
  then have "end_ns i \<le> start_ns k" "start_ns k < end_ns k" by auto
  with Cons show ?case by force
qed simp

lemma walk_covers: "walk a is = Some b \<Longrightarrow> a \<le> t \<Longrightarrow> t < b \<Longrightarrow> measured_at is t"
proof (induction "is" arbitrary: a)
  case (Cons i "is")
  then have i: "start_ns i = a" "walk (end_ns i) is = Some b" by (auto split: if_splits)
  show ?case
  proof (cases "t < end_ns i")
    case True
    with i Cons.prems show ?thesis by (auto simp: measured_at_def)
  next
    case False
    with i Cons.IH [of "end_ns i"] Cons.prems have "measured_at is t" by simp
    then show ?thesis by (auto simp: measured_at_def)
  qed
qed simp

lemma covers_walk:
  assumes "ordered is" and "\<forall>i \<in> set is. start_ns i < end_ns i \<and> a \<le> start_ns i \<and> end_ns i \<le> b"
    and "\<forall>t. a \<le> t \<and> t < b \<longrightarrow> measured_at is t" and "a \<le> b"
  shows "walk a is = Some b"
  using assms
proof (induction "is" arbitrary: a)
  case Nil
  then have "\<not> a < b" by (auto simp: measured_at_def)
  with Nil show ?case by simp
next
  case (Cons i "is")
  have after: "end_ns i \<le> start_ns j" if "j \<in> set is" for j
    using ordered_after [OF Cons.prems(1) _ that] Cons.prems(2) by auto
  have "start_ns i < end_ns i" "end_ns i \<le> b" "a \<le> start_ns i" using Cons.prems(2) by auto
  moreover have "measured_at (i # is) a" using Cons.prems(3) calculation by auto
  ultimately have start: "start_ns i = a"
    using after by (force simp: measured_at_def)
  have rest: "measured_at is t" if "end_ns i \<le> t" "t < b" for t
    using Cons.prems(3) [rule_format, of t] that start \<open>start_ns i < end_ns i\<close>
    by (auto simp: measured_at_def)
  have "ordered is" using Cons.prems(1) by (cases "is") auto
  then have "walk (end_ns i) is = Some b"
    using Cons.prems(2) after rest \<open>end_ns i \<le> b\<close> by (intro Cons.IH) auto
  with start show ?case by simp
qed

lemma coverage_ok_iff:
  "coverage_ok m \<longleftrightarrow> length (intervals m) \<le> MAX_INTERVALS \<and> ordered (intervals m) \<and>
     (\<forall>i \<in> set (intervals m).
        window_start_ns (window m) \<le> start_ns i \<and> end_ns i \<le> window_end_ns (window m))"
  unfolding coverage_ok_def de_Morgan_disj ordered_zip by (auto simp: list_ex_iff not_less)

lemma absence_measured:
  assumes "window_ok expected" and "coverage_ok m" and "list_all interval_ok (intervals m)"
  shows "(assess_effect_absence expected (Some m) = TRUE \<longleftrightarrow>
      window m = expected \<and> (\<forall>i \<in> set (intervals m). occurrences i = 0) \<and>
      (\<forall>t. window_start_ns expected \<le> t \<and> t < window_end_ns expected \<longrightarrow>
         measured_at (intervals m) t)) \<and>
    (assess_effect_absence expected (Some m) = FALSE \<longleftrightarrow>
      window m = expected \<and> (\<exists>i \<in> set (intervals m). 0 < occurrences i)) \<and>
    assess_effect_absence expected None = UNKNOWN"
proof -
  have zero: "list_ex (\<lambda>i. occurrences i > 0) (intervals m) \<longleftrightarrow>
      \<not> (\<forall>i \<in> set (intervals m). occurrences i = 0)"
    using assms(3) by (fastforce simp: list_ex_iff list_all_iff interval_ok_def tick_def)
  have "walk (window_start_ns expected) (intervals m) = Some (window_end_ns expected) \<longleftrightarrow>
      (\<forall>t. window_start_ns expected \<le> t \<and> t < window_end_ns expected \<longrightarrow>
         measured_at (intervals m) t)"
    if "window m = expected"
    using assms that walk_covers [of "window_start_ns expected" "intervals m"]
      covers_walk [of "intervals m" "window_start_ns expected" "window_end_ns expected"]
    by (auto simp: coverage_ok_iff list_all_iff interval_ok_def window_ok_def)
  with zero show ?thesis
    by (auto simp: assess_effect_absence_def list_ex_iff split: option.splits)
qed

section \<open>Properties\<close>

text \<open>
  Absence is established only by complete measurement. On measurements the constructors
  accept, the judgement is TRUE exactly when they are for the expected window, every tick of the
  window lies in some measured interval, and no interval saw an occurrence; it is FALSE exactly
  when an interval for the window saw one; and otherwise it is UNKNOWN.
\<close>

theorem absence_iff_fully_measured:
  assumes "window_ok expected" and "coverage_ok m" and "list_all interval_ok (intervals m)"
  shows "(assess_effect_absence expected (Some m) = TRUE \<longleftrightarrow>
      window m = expected \<and> (\<forall>i \<in> set (intervals m). occurrences i = 0) \<and>
      (\<forall>t. window_start_ns expected \<le> t \<and> t < window_end_ns expected \<longrightarrow>
         measured_at (intervals m) t)) \<and>
    (assess_effect_absence expected (Some m) = FALSE \<longleftrightarrow>
      window m = expected \<and> (\<exists>i \<in> set (intervals m). 0 < occurrences i)) \<and>
    assess_effect_absence expected None = UNKNOWN"
  by (rule absence_measured [OF assms])

definition sample_window :: effect_window where
  "sample_window =
     \<lparr>window_run_id = str ''00000000-0000-0000-0000-000000000001'',
      window_attempt_id = str ''00000000-0000-0000-0000-000000000002'',
      scope_digest = replicate 64 97, clock_epoch = str ''00000000-0000-0000-0000-000000000003'',
      effect = str ''SEND_EMAIL'', window_start_ns = 10, window_end_ns = 30\<rparr>"

definition sample_coverage :: effect_coverage where
  "sample_coverage =
     \<lparr>window = sample_window,
      intervals = [\<lparr>start_ns = 10, end_ns = 15, occurrences = 0\<rparr>,
                   \<lparr>start_ns = 16, end_ns = 30, occurrences = 0\<rparr>]\<rparr>"

lemma sample_window_ok: "window_ok sample_window"
  by (simp add: window_ok_def sample_window_def canonical_uuid_def is_sha256_hex_def EFFECTS_def
      is_lower_hex_def list_all_iff tick_def str_def upt_rec)

lemma absence_iff_fully_measured_witness:
  "assess_effect_absence sample_window (Some sample_coverage) \<noteq> TRUE"
proof -
  have "window_ok sample_window" by (rule sample_window_ok)
  moreover have "coverage_ok sample_coverage" "list_all interval_ok (intervals sample_coverage)"
    by (simp_all add: coverage_ok_def sample_coverage_def sample_window_def MAX_INTERVALS_def
        interval_ok_def tick_def)
  moreover have "\<not> measured_at (intervals sample_coverage) 15"
    by (simp add: measured_at_def sample_coverage_def)
  ultimately show ?thesis
    using absence_iff_fully_measured [of sample_window sample_coverage]
    by (auto simp: sample_window_def)
qed

end
