(* ===== verification/Payload.thy ===== *)
theory Payload
  imports Canonical
begin

text \<open>
  How the code takes decoded JSON apart: the field tests and accesses on dictionaries, the type
  tests, and Python's \<open>==\<close>, which ignores the order of a dictionary and compares numbers of
  different types by value. Decoded JSON has only text keys, so the opaque key needs no equality.
\<close>

section \<open>Fields\<close>

type_synonym items = "(dict_key \<times> pyval) list"

text \<open>\<open>set(d) == {...}\<close>, \<open>{...} <= set(d)\<close>, \<open>set(d) <= {...}\<close>.\<close>

definition fields_are :: "items \<Rightarrow> string list \<Rightarrow> bool" where
  "fields_are kvs ns \<longleftrightarrow> set (map fst kvs) = set (map (\<lambda>n. KText (str n)) ns)"

definition fields_include :: "items \<Rightarrow> string list \<Rightarrow> bool" where
  "fields_include kvs ns \<longleftrightarrow> set (map (\<lambda>n. KText (str n)) ns) \<subseteq> set (map fst kvs)"

definition fields_within :: "items \<Rightarrow> string list \<Rightarrow> bool" where
  "fields_within kvs ns \<longleftrightarrow> set (map fst kvs) \<subseteq> set (map (\<lambda>n. KText (str n)) ns)"

text \<open>\<open>d.get(n)\<close>; and \<open>d[n]\<close>, used only where a field test has established that n is there.\<close>

definition get_item :: "items \<Rightarrow> string \<Rightarrow> pyval option" where
  "get_item kvs n = map_of kvs (KText (str n))"

definition item :: "items \<Rightarrow> string \<Rightarrow> pyval" where
  "item kvs n = (case get_item kvs n of None \<Rightarrow> PNone | Some v \<Rightarrow> v)"

abbreviation key :: "string \<Rightarrow> dict_key" where
  "key n \<equiv> KText (str n)"

abbreviation lit :: "string \<Rightarrow> pyval" where
  "lit s \<equiv> PStr (str s)"

section \<open>Type tests\<close>

text \<open>\<open>type(v) is int and lo <= v <= hi\<close>, and \<open>isinstance(v, str) and P(v)\<close>.\<close>

definition int_within :: "pyval \<Rightarrow> int \<Rightarrow> int \<Rightarrow> bool" where
  "int_within v lo hi \<longleftrightarrow> (case v of PInt i \<Rightarrow> lo \<le> i \<and> i \<le> hi | _ \<Rightarrow> False)"

definition text_with :: "pyval \<Rightarrow> (pytext \<Rightarrow> bool) \<Rightarrow> bool" where
  "text_with v P \<longleftrightarrow> (case v of PStr s \<Rightarrow> P s | _ \<Rightarrow> False)"

fun as_text :: "pyval \<Rightarrow> pytext" where
  "as_text (PStr s) = s"
| "as_text _ = []"

fun as_int :: "pyval \<Rightarrow> int" where
  "as_int (PInt i) = i"
| "as_int _ = 0"

text \<open>\<open>len(s.encode()) <= n\<close>; a string that cannot be encoded raises, a ValueError like a failed test.\<close>

definition encoded_within :: "pytext \<Rightarrow> nat \<Rightarrow> bool" where
  "encoded_within s n \<longleftrightarrow> list_all scalar s \<and> length (concat (map utf8_char s)) \<le> n"

section \<open>Equality\<close>

fun numeric :: "pyval \<Rightarrow> rat option" where
  "numeric (PBool b) = Some (of_bool b)"
| "numeric (PInt i) = Some (of_int i)"
| "numeric (PFloat (FFinite q)) = Some q"
| "numeric _ = None"

fun leaf_eq :: "pyval \<Rightarrow> pyval \<Rightarrow> bool" where
  "leaf_eq PNone PNone = True"
| "leaf_eq (PStr s) (PStr t) = (s = t)"
| "leaf_eq (PFloat (FInf a)) (PFloat (FInf b)) = (a = b)"
| "leaf_eq _ _ = False"

function (sequential) py_eq :: "pyval \<Rightarrow> pyval \<Rightarrow> bool" where
  "py_eq (PList vs) (PList ws) =
     (length vs = length ws \<and> (\<forall>p \<in> set (zip vs ws). py_eq (fst p) (snd p)))"
| "py_eq (PTuple vs) (PTuple ws) =
     (length vs = length ws \<and> (\<forall>p \<in> set (zip vs ws). py_eq (fst p) (snd p)))"
| "py_eq (PDict kvs) (PDict kws) =
     (length kvs = length kws \<and>
      (\<forall>kv \<in> set kvs. case map_of kws (fst kv) of None \<Rightarrow> False | Some w \<Rightarrow> py_eq (snd kv) w))"
| "py_eq v w =
     (case (numeric v, numeric w) of
        (Some a, Some b) \<Rightarrow> a = b
      | _ \<Rightarrow> leaf_eq v w)"
  by pat_completeness auto

termination py_eq
  by (relation "measure (\<lambda>(v, w). size v)")
    (auto dest!: set_zip_leftD dest: size_list_value size_dict_value)

text \<open>Values that equal themselves: no NaN, no opaque object, no repeated key.\<close>

inductive plain :: "pyval \<Rightarrow> bool" where
  plain_None: "plain PNone"
| plain_Bool: "plain (PBool b)"
| plain_Int: "plain (PInt i)"
| plain_Str: "plain (PStr s)"
| plain_List: "(\<And>v. v \<in> set vs \<Longrightarrow> plain v) \<Longrightarrow> plain (PList vs)"
| plain_Dict: "distinct (map fst kvs) \<Longrightarrow> (\<And>kv. kv \<in> set kvs \<Longrightarrow> plain (snd kv)) \<Longrightarrow>
    plain (PDict kvs)"

lemma py_eq_refl: "plain v \<Longrightarrow> py_eq v v"
proof (induction rule: plain.induct)
  case (plain_List vs)
  then show ?case by (auto simp: zip_same_conv_map)
next
  case (plain_Dict kvs)
  show ?case
    unfolding py_eq.simps
  proof (intro conjI ballI refl)
    fix kv assume kv: "kv \<in> set kvs"
    then have look: "map_of kvs (fst kv) = Some (snd kv)"
      using plain_Dict.hyps(1) by (intro map_of_is_SomeI) simp_all
    show "case map_of kvs (fst kv) of None \<Rightarrow> False | Some w \<Rightarrow> py_eq (snd kv) w"
      unfolding look option.case by (rule plain_Dict.IH [OF kv])
  qed
qed auto

section \<open>Facts\<close>

lemma get_item_simps [simp]:
  "get_item [] n = None"
  "get_item ((KText (str m), v) # kvs) n = (if m = n then Some v else get_item kvs n)"
  by (auto simp: get_item_def)

lemma item_simps [simp]:
  "item ((KText (str m), v) # kvs) n = (if m = n then v else item kvs n)"
  by (auto simp: item_def)

text \<open>Evaluation of the field tests on literal keys.\<close>

lemma fields_are_eval:
  "fields_are kvs ns \<longleftrightarrow>
     list_all (\<lambda>kv. list_ex (\<lambda>n. fst kv = KText (str n)) ns) kvs \<and>
     list_all (\<lambda>n. list_ex (\<lambda>kv. fst kv = KText (str n)) kvs) ns"
  by (auto simp: fields_are_def list_all_iff list_ex_iff) (metis imageE imageI)+

lemma fields_include_eval:
  "fields_include kvs ns \<longleftrightarrow> list_all (\<lambda>n. list_ex (\<lambda>kv. fst kv = KText (str n)) kvs) ns"
  by (auto simp: fields_include_def list_all_iff list_ex_iff) (metis imageE imageI subsetD)+

lemma fields_within_eval:
  "fields_within kvs ns \<longleftrightarrow> list_all (\<lambda>kv. list_ex (\<lambda>n. fst kv = KText (str n)) ns) kvs"
  by (auto simp: fields_within_def list_all_iff list_ex_iff)

lemmas fields_eval = fields_are_eval fields_include_eval fields_within_eval

lemma text_with_PStr [simp]: "text_with (PStr s) P = P s"
  by (simp add: text_with_def)

lemma text_withE: "text_with v P \<Longrightarrow> (\<And>s. v = PStr s \<Longrightarrow> P s \<Longrightarrow> thesis) \<Longrightarrow> thesis"
  by (cases v) (auto simp: text_with_def)

lemma int_within_PInt [simp]: "int_within (PInt i) lo hi \<longleftrightarrow> lo \<le> i \<and> i \<le> hi"
  by (simp add: int_within_def)

lemma int_withinE: "int_within v lo hi \<Longrightarrow> (\<And>i. v = PInt i \<Longrightarrow> lo \<le> i \<Longrightarrow> i \<le> hi \<Longrightarrow> thesis) \<Longrightarrow> thesis"
  by (cases v) (auto simp: int_within_def)

end
