(* ===== verification/Functional_Validation.thy ===== *)
theory Functional_Validation
  imports States Payload Identifiers
begin

text \<open>
  The protected reference validation suite and the observation of it
  (\<open>functional_validation.py\<close>), and the reference effect policy and its per-run binding
  (\<open>reference_effect_scope.py\<close>).
\<close>

section \<open>The suite\<close>

text \<open>\<open>REFERENCE_FIXTURE_DIGEST\<close> of the contracts package.\<close>

definition REFERENCE_FIXTURE_DIGEST :: pytext where
  "REFERENCE_FIXTURE_DIGEST =
     str ''39acd4e6ff833c3f5668cbc951f541658858568bd9ba31814bfb19a318dbb6a3''"

definition VALID_VALUES :: "(string \<times> string) list" where
  "VALID_VALUES =
     [(''full_name'', ''Test Person''), (''email'', ''test.person@example.test''),
      (''category'', ''access-request''),
      (''description'', ''Keyboard access request for testing.'')]"

definition INVALID_VALUES :: "(string \<times> string) list" where
  "INVALID_VALUES =
     [(''email'', ''not-an-email''), (''full_name'', ''''), (''category'', ''forbidden''),
      (''description'', ''short'')]"

definition validation_contract :: pyval where
  "validation_contract =
     PDict
       [(key ''schemaVersion'', PInt 1),
        (key ''fixtureTemplateDigest'', PStr REFERENCE_FIXTURE_DIGEST),
        (key ''validValues'', PDict (map (\<lambda>(f, v). (key f, lit v)) VALID_VALUES)),
        (key ''invalidCases'',
         PList (map (\<lambda>(f, v).
           PDict [(key ''field'', lit f), (key ''value'', lit v), (key ''httpStatus'', PInt 422),
                  (key ''persistedRequests'', PInt 0)]) INVALID_VALUES))]"

text \<open>A module-level digest of a constant, which is computed when the module is loaded.\<close>

definition constant_digest :: "pyval \<Rightarrow> pytext" where
  "constant_digest v = (case digest v of Inl _ \<Rightarrow> [] | Inr d \<Rightarrow> d)"

definition VALIDATION_SUITE_DIGEST :: pytext where
  "VALIDATION_SUITE_DIGEST = constant_digest validation_contract"

record validation_observation =
  vo_suite_digest :: pytext
  cases :: "(pytext \<times> int \<times> int) list"

definition observation_ok :: "validation_observation \<Rightarrow> bool" where
  "observation_ok o' \<longleftrightarrow>
     vo_suite_digest o' = VALIDATION_SUITE_DIGEST \<and>
     length (cases o') = length INVALID_VALUES \<and>
     list_all (\<lambda>((field, status, count), expected).
        field = str (fst expected) \<and> 100 \<le> status \<and> status \<le> 599 \<and> 0 \<le> count)
       (zip (cases o') INVALID_VALUES)"

definition passed :: "validation_observation \<Rightarrow> bool" where
  "passed o' \<longleftrightarrow> list_all (\<lambda>(_, status, count). status = 422 \<and> count = 0) (cases o')"

definition observation_form :: "validation_observation \<Rightarrow> pyval" where
  "observation_form o' =
     PDict
       [(key ''suiteDigest'', PStr (vo_suite_digest o')),
        (key ''cases'',
         PList (map (\<lambda>(field, status, count).
           PDict [(key ''field'', PStr field), (key ''httpStatus'', PInt status),
                  (key ''persistedRequests'', PInt count)]) (cases o')))]"

section \<open>The reference effect policy\<close>

definition REFERENCE_EFFECT_POLICY_DIGEST :: pytext where
  "REFERENCE_EFFECT_POLICY_DIGEST =
     constant_digest (PDict
       [(key ''kind'', lit ''PROTECTED_REFERENCE_COMMITTED_INSERTIONS_V1''),
        (key ''source'', lit ''SEALED_ENVIRONMENT_INDEPENDENT_OBSERVER''),
        (key ''resource'', lit ''CONTROLLER_RESERVED_RUN_FIXTURE'')])"

datatype scope_error = ScopeValueError | ScopeDigestError canon_error

definition scope_document :: "pytext \<Rightarrow> pytext \<Rightarrow> pyval" where
  "scope_document installation_id fixture_nonce' =
     PDict
       [(key ''kind'', lit ''PROTECTED_REFERENCE_COMMITTED_INSERTIONS_V1''),
        (key ''installationId'', PStr installation_id),
        (key ''fixtureNonce'', PStr fixture_nonce')]"

definition reference_effect_scope_digest :: "pytext \<Rightarrow> pytext \<Rightarrow> (scope_error, pytext) result" where
  "reference_effect_scope_digest installation_id nonce =
     (if \<not> canonical_uuid installation_id \<or> \<not> fixture_nonce nonce then Inl ScopeValueError
      else map_error ScopeDigestError (digest (scope_document installation_id nonce)))"

record reference_effect_binding =
  binding_run_id :: pytext
  binding_attempt_id :: pytext
  binding_installation_id :: pytext
  binding_fixture_nonce :: pytext

definition construct_binding ::
  "reference_effect_binding \<Rightarrow> (scope_error, reference_effect_binding) result" where
  "construct_binding b =
     (if \<not> list_all canonical_uuid [binding_run_id b, binding_attempt_id b] then Inl ScopeValueError
      else bind_result (reference_effect_scope_digest (binding_installation_id b)
             (binding_fixture_nonce b)) (\<lambda>_. Inr b))"

definition measurement_scope_digest :: "reference_effect_binding \<Rightarrow> (scope_error, pytext) result" where
  "measurement_scope_digest b =
     reference_effect_scope_digest (binding_installation_id b) (binding_fixture_nonce b)"

end
