(* ===== verification/Assertions.thy ===== *)
theory Assertions
  imports Effect_Monitor Functional_Validation
begin

text \<open>
  Protected assertions (\<open>journeys/assertions.py\<close>): the closed evaluation rules, the assertions
  and sets of them, and the canonical form a sealed journey carries. A rule's fields are the
  decoded values it was parsed from; constructing one is the only way they get checked.
\<close>

section \<open>Observers and kinds\<close>

datatype observer = READER | APPLICATION_OBSERVER | FUNCTIONAL_TEST | EFFECT_MONITOR

datatype assertion_kind =
    TASK_COMPLETION | REQUIRED_ANNOUNCEMENT | FOCUS_BEHAVIOUR | READING_ORDER | FORBIDDEN_EFFECT
  | FUNCTIONAL_VALIDATION

datatype unknown_reason =
    READER_UNAVAILABLE | OBSERVATION_MISSING | AMBIGUOUS_LANGUAGE | PROFILE_UNSUPPORTED
  | OBSERVER_UNREACHABLE

fun observer_value :: "observer \<Rightarrow> pytext" where
  "observer_value READER = str ''READER''"
| "observer_value APPLICATION_OBSERVER = str ''APPLICATION_OBSERVER''"
| "observer_value FUNCTIONAL_TEST = str ''FUNCTIONAL_TEST''"
| "observer_value EFFECT_MONITOR = str ''EFFECT_MONITOR''"

fun kind_value :: "assertion_kind \<Rightarrow> pytext" where
  "kind_value TASK_COMPLETION = str ''TASK_COMPLETION''"
| "kind_value REQUIRED_ANNOUNCEMENT = str ''REQUIRED_ANNOUNCEMENT''"
| "kind_value FOCUS_BEHAVIOUR = str ''FOCUS_BEHAVIOUR''"
| "kind_value READING_ORDER = str ''READING_ORDER''"
| "kind_value FORBIDDEN_EFFECT = str ''FORBIDDEN_EFFECT''"
| "kind_value FUNCTIONAL_VALIDATION = str ''FUNCTIONAL_VALIDATION''"

fun reason_value :: "unknown_reason \<Rightarrow> pytext" where
  "reason_value READER_UNAVAILABLE = str ''READER_UNAVAILABLE''"
| "reason_value OBSERVATION_MISSING = str ''OBSERVATION_MISSING''"
| "reason_value AMBIGUOUS_LANGUAGE = str ''AMBIGUOUS_LANGUAGE''"
| "reason_value PROFILE_UNSUPPORTED = str ''PROFILE_UNSUPPORTED''"
| "reason_value OBSERVER_UNREACHABLE = str ''OBSERVER_UNREACHABLE''"

definition all_kinds :: "assertion_kind list" where
  "all_kinds =
     [TASK_COMPLETION, REQUIRED_ANNOUNCEMENT, FOCUS_BEHAVIOUR, READING_ORDER, FORBIDDEN_EFFECT,
      FUNCTIONAL_VALIDATION]"

definition all_reasons :: "unknown_reason list" where
  "all_reasons =
     [READER_UNAVAILABLE, OBSERVATION_MISSING, AMBIGUOUS_LANGUAGE, PROFILE_UNSUPPORTED,
      OBSERVER_UNREACHABLE]"

fun ASSERTION_OBSERVERS :: "assertion_kind \<Rightarrow> observer" where
  "ASSERTION_OBSERVERS TASK_COMPLETION = APPLICATION_OBSERVER"
| "ASSERTION_OBSERVERS REQUIRED_ANNOUNCEMENT = READER"
| "ASSERTION_OBSERVERS FOCUS_BEHAVIOUR = READER"
| "ASSERTION_OBSERVERS READING_ORDER = READER"
| "ASSERTION_OBSERVERS FORBIDDEN_EFFECT = EFFECT_MONITOR"
| "ASSERTION_OBSERVERS FUNCTIONAL_VALIDATION = FUNCTIONAL_TEST"

datatype contract_error =
    StepInvalid
  | ScopeMisplaced | FocusMisplaced | SuiteMisplaced | RuleInvalid | RuleUnsupported
  | RuleNotObject | RuleFieldsUnsupported | StepFieldsUnsupported
  | RuleNotForObserver | AssertionIdMissing | DescriptionMissing | NoWayToBeUnknown
  | SetEmpty | IdsRepeated | CompletionMissing
  | ContractUnavailable | ContractInvalid | ContractIncomplete | ContractFieldsInvalid
  | KindUnknown | ReasonUnknown | ObserverDiffers | NotCanonicalForm

type_synonym 'a checked = "(contract_error, 'a) result"

text \<open>\<open>AssertionKind(v)\<close> and \<open>UnknownReason(v)\<close>: lookup of a member by its value.\<close>

definition kind_of :: "pyval \<Rightarrow> assertion_kind checked" where
  "kind_of v =
     (case List.find (\<lambda>k. v = PStr (kind_value k)) all_kinds of
        None \<Rightarrow> Inl KindUnknown
      | Some k \<Rightarrow> Inr k)"

definition reason_of :: "pyval \<Rightarrow> unknown_reason checked" where
  "reason_of v =
     (case List.find (\<lambda>r. v = PStr (reason_value r)) all_reasons of
        None \<Rightarrow> Inl ReasonUnknown
      | Some r \<Rightarrow> Inr r)"

section \<open>Rules\<close>

definition MAX_RULE_ACTION_SEQUENCE :: int where "MAX_RULE_ACTION_SEQUENCE = 1000"
definition MAX_RULE_PHRASE_CHARACTERS :: nat where "MAX_RULE_PHRASE_CHARACTERS = 8192"
definition MAX_RULE_PHRASE_BYTES :: nat where "MAX_RULE_PHRASE_BYTES = 32768"
definition MAX_RULE_EFFECT_COUNT :: int where "MAX_RULE_EFFECT_COUNT = 1000"
definition MAX_READER_SEQUENCE_STEPS :: nat where "MAX_READER_SEQUENCE_STEPS = 20"

definition KEYBOARD_FOCUS_ROLES :: "pytext set" where
  "KEYBOARD_FOCUS_ROLES =
     {str ''AXTextField'', str ''AXTextArea'', str ''AXButton'', str ''AXCheckBox'',
      str ''AXRadioButton'', str ''AXPopUpButton'', str ''AXComboBox'', str ''AXLink''}"

definition phrase_ok :: "pytext \<Rightarrow> bool" where
  "phrase_ok p \<longleftrightarrow>
     \<not> blank p \<and> length p \<le> MAX_RULE_PHRASE_CHARACTERS \<and> encoded_within p MAX_RULE_PHRASE_BYTES"

record reader_step =
  step_action_sequence :: int
  step_phrase :: pytext

definition construct_step :: "pyval \<Rightarrow> pyval \<Rightarrow> reader_step checked" where
  "construct_step action phrase =
     (if int_within action 1 MAX_RULE_ACTION_SEQUENCE \<and> text_with phrase phrase_ok
      then Inr \<lparr>step_action_sequence = as_int action, step_phrase = as_text phrase\<rparr>
      else Inl StepInvalid)"

record evaluation_rule =
  rule_type :: pyval
  rule_action_sequence :: pyval
  rule_phrase :: pyval
  rule_effect :: pyval
  rule_count :: pyval
  rule_steps :: "reader_step list"
  rule_suite_digest :: pyval
  rule_role :: pyval
  rule_identifier_digest :: pyval
  rule_scope_digest :: pyval

text \<open>The constructor's defaults.\<close>

definition bare_rule :: "pyval \<Rightarrow> evaluation_rule" where
  "bare_rule t =
     \<lparr>rule_type = t, rule_action_sequence = PNone, rule_phrase = PNone, rule_effect = PNone,
      rule_count = PNone, rule_steps = [], rule_suite_digest = PNone, rule_role = PNone,
      rule_identifier_digest = PNone, rule_scope_digest = PNone\<rparr>"

fun consecutive :: "reader_step list \<Rightarrow> bool" where
  "consecutive (l # r # ss) =
     (step_action_sequence r = step_action_sequence l + 1 \<and> consecutive (r # ss))"
| "consecutive _ = True"

definition utf8_length :: "pytext \<Rightarrow> nat" where
  "utf8_length s = length (concat (map utf8_char s))"

text \<open>\<open>EvaluationRule.__post_init__\<close>, branch by branch.\<close>

definition absence_rule_ok :: "evaluation_rule \<Rightarrow> bool" where
  "absence_rule_ok r \<longleftrightarrow>
     text_with (rule_effect r) (\<lambda>e. e \<in> EFFECTS) \<and> text_with (rule_scope_digest r) is_sha256_hex \<and>
     rule_steps r = [] \<and> rule_action_sequence r = PNone \<and> rule_phrase r = PNone \<and>
     rule_count r = PNone"

definition focus_rule_ok :: "evaluation_rule \<Rightarrow> bool" where
  "focus_rule_ok r \<longleftrightarrow>
     int_within (rule_action_sequence r) 1 MAX_RULE_ACTION_SEQUENCE \<and>
     text_with (rule_role r) (\<lambda>s. s \<in> KEYBOARD_FOCUS_ROLES) \<and>
     text_with (rule_identifier_digest r) is_sha256_hex \<and>
     rule_phrase r = PNone \<and> rule_effect r = PNone \<and> rule_count r = PNone \<and> rule_steps r = []"

definition phrase_rule_ok :: "evaluation_rule \<Rightarrow> bool" where
  "phrase_rule_ok r \<longleftrightarrow>
     int_within (rule_action_sequence r) 1 MAX_RULE_ACTION_SEQUENCE \<and>
     text_with (rule_phrase r) phrase_ok \<and>
     rule_effect r = PNone \<and> rule_count r = PNone \<and> rule_steps r = []"

definition count_rule_ok :: "evaluation_rule \<Rightarrow> bool" where
  "count_rule_ok r \<longleftrightarrow>
     rule_effect r = lit ''CREATE_TEST_REQUEST'' \<and>
     int_within (rule_count r) 0 MAX_RULE_EFFECT_COUNT \<and>
     rule_action_sequence r = PNone \<and> rule_phrase r = PNone \<and> rule_steps r = []"

definition sequence_rule_ok :: "evaluation_rule \<Rightarrow> bool" where
  "sequence_rule_ok r \<longleftrightarrow>
     2 \<le> length (rule_steps r) \<and> length (rule_steps r) \<le> MAX_READER_SEQUENCE_STEPS \<and>
     consecutive (rule_steps r) \<and>
     sum_list (map (\<lambda>s. utf8_length (step_phrase s)) (rule_steps r)) \<le> MAX_RULE_PHRASE_BYTES \<and>
     rule_action_sequence r = PNone \<and> rule_phrase r = PNone \<and> rule_effect r = PNone \<and>
     rule_count r = PNone"

definition validation_rule_ok :: "evaluation_rule \<Rightarrow> bool" where
  "validation_rule_ok r \<longleftrightarrow>
     rule_suite_digest r = PStr VALIDATION_SUITE_DIGEST \<and> rule_steps r = [] \<and>
     rule_action_sequence r = PNone \<and> rule_phrase r = PNone \<and> rule_effect r = PNone \<and>
     rule_count r = PNone"

definition construct_rule :: "evaluation_rule \<Rightarrow> evaluation_rule checked" where
  "construct_rule r =
     (if rule_type r \<noteq> lit ''CONTINUOUS_EFFECT_ABSENCE'' \<and> rule_scope_digest r \<noteq> PNone
      then Inl ScopeMisplaced
      else if rule_type r \<noteq> lit ''EXACT_NATIVE_KEYBOARD_FOCUS'' \<and>
              (rule_role r \<noteq> PNone \<or> rule_identifier_digest r \<noteq> PNone)
      then Inl FocusMisplaced
      else if rule_type r \<noteq> lit ''PROTECTED_REFERENCE_VALIDATION'' \<and> rule_suite_digest r \<noteq> PNone
      then Inl SuiteMisplaced
      else if rule_type r = lit ''CONTINUOUS_EFFECT_ABSENCE''
      then (if absence_rule_ok r then Inr r else Inl RuleInvalid)
      else if rule_type r = lit ''EXACT_NATIVE_KEYBOARD_FOCUS''
      then (if focus_rule_ok r then Inr r else Inl RuleInvalid)
      else if rule_type r = lit ''EXACT_READER_PHRASE''
      then (if phrase_rule_ok r then Inr r else Inl RuleInvalid)
      else if rule_type r = lit ''EFFECT_COUNT''
      then (if count_rule_ok r then Inr r else Inl RuleInvalid)
      else if rule_type r = lit ''READER_NEXT_SEQUENCE''
      then (if sequence_rule_ok r then Inr r else Inl RuleInvalid)
      else if rule_type r = lit ''PROTECTED_REFERENCE_VALIDATION''
      then (if validation_rule_ok r then Inr r else Inl RuleInvalid)
      else Inl RuleUnsupported)"

definition step_object :: "pyval \<Rightarrow> bool" where
  "step_object v =
     (case v of PDict kvs \<Rightarrow> fields_are kvs [''actionSequence'', ''phrase''] | _ \<Rightarrow> False)"

fun parse_step :: "pyval \<Rightarrow> reader_step checked" where
  "parse_step (PDict kvs) = construct_step (item kvs ''actionSequence'') (item kvs ''phrase'')"
| "parse_step _ = Inl StepFieldsUnsupported"

definition parse_rule :: "pyval \<Rightarrow> evaluation_rule checked" where
  "parse_rule value =
     (case value of
        PDict kvs \<Rightarrow>
          (let r = bare_rule (item kvs ''type'') in
           if fields_are kvs [''type'', ''effect'', ''scopeDigest'']
           then construct_rule (r\<lparr>rule_effect := item kvs ''effect'',
                  rule_scope_digest := item kvs ''scopeDigest''\<rparr>)
           else if fields_are kvs [''type'', ''actionSequence'', ''role'', ''identifierDigest'']
           then construct_rule (r\<lparr>rule_action_sequence := item kvs ''actionSequence'',
                  rule_role := item kvs ''role'',
                  rule_identifier_digest := item kvs ''identifierDigest''\<rparr>)
           else if fields_are kvs [''type'', ''suiteDigest'']
           then construct_rule (r\<lparr>rule_suite_digest := item kvs ''suiteDigest''\<rparr>)
           else if fields_are kvs [''type'', ''actionSequence'', ''phrase'']
           then construct_rule (r\<lparr>rule_action_sequence := item kvs ''actionSequence'',
                  rule_phrase := item kvs ''phrase''\<rparr>)
           else if fields_are kvs [''type'', ''effect'', ''count'']
           then construct_rule (r\<lparr>rule_effect := item kvs ''effect'',
                  rule_count := item kvs ''count''\<rparr>)
           else case (fields_are kvs [''type'', ''steps''], item kvs ''steps'') of
               (True, PList steps) \<Rightarrow>
                 if \<not> list_all step_object steps then Inl StepFieldsUnsupported
                 else bind_result (traverse parse_step steps) (\<lambda>ss.
                        construct_rule (r\<lparr>rule_steps := ss\<rparr>))
             | _ \<Rightarrow> Inl RuleFieldsUnsupported)
      | _ \<Rightarrow> Inl RuleNotObject)"

definition step_form :: "reader_step \<Rightarrow> pyval" where
  "step_form s =
     PDict [(key ''actionSequence'', PInt (step_action_sequence s)),
            (key ''phrase'', PStr (step_phrase s))]"

definition rule_form :: "evaluation_rule \<Rightarrow> pyval" where
  "rule_form r =
     (if rule_type r = lit ''CONTINUOUS_EFFECT_ABSENCE''
      then PDict [(key ''type'', rule_type r), (key ''effect'', rule_effect r),
                  (key ''scopeDigest'', rule_scope_digest r)]
      else if rule_type r = lit ''EXACT_NATIVE_KEYBOARD_FOCUS''
      then PDict [(key ''type'', rule_type r), (key ''actionSequence'', rule_action_sequence r),
                  (key ''role'', rule_role r), (key ''identifierDigest'', rule_identifier_digest r)]
      else if rule_type r = lit ''PROTECTED_REFERENCE_VALIDATION''
      then PDict [(key ''type'', rule_type r), (key ''suiteDigest'', rule_suite_digest r)]
      else if rule_type r = lit ''READER_NEXT_SEQUENCE''
      then PDict [(key ''type'', rule_type r), (key ''steps'', PList (map step_form (rule_steps r)))]
      else if rule_type r = lit ''EXACT_READER_PHRASE''
      then PDict [(key ''type'', rule_type r), (key ''actionSequence'', rule_action_sequence r),
                  (key ''phrase'', rule_phrase r)]
      else PDict [(key ''type'', rule_type r), (key ''effect'', rule_effect r),
                  (key ''count'', rule_count r)])"

section \<open>Assertions\<close>

record assertion =
  assertion_id :: pytext
  kind :: assertion_kind
  description :: pytext
  required :: bool
  unknown_reasons :: "unknown_reason set"
  evaluation_rule :: "evaluation_rule option"

fun rule_type_for :: "assertion_kind \<Rightarrow> string" where
  "rule_type_for REQUIRED_ANNOUNCEMENT = ''EXACT_READER_PHRASE''"
| "rule_type_for TASK_COMPLETION = ''EFFECT_COUNT''"
| "rule_type_for READING_ORDER = ''READER_NEXT_SEQUENCE''"
| "rule_type_for FOCUS_BEHAVIOUR = ''EXACT_NATIVE_KEYBOARD_FOCUS''"
| "rule_type_for FUNCTIONAL_VALIDATION = ''PROTECTED_REFERENCE_VALIDATION''"
| "rule_type_for FORBIDDEN_EFFECT = ''CONTINUOUS_EFFECT_ABSENCE''"

definition construct_assertion :: "assertion \<Rightarrow> assertion checked" where
  "construct_assertion a =
     (if (case evaluation_rule a of None \<Rightarrow> False
          | Some r \<Rightarrow> rule_type r \<noteq> lit (rule_type_for (kind a))) then Inl RuleNotForObserver
      else if blank (assertion_id a) then Inl AssertionIdMissing
      else if blank (description a) then Inl DescriptionMissing
      else if required a \<and> unknown_reasons a = {} then Inl NoWayToBeUnknown
      else Inr a)"

definition observer_of :: "assertion \<Rightarrow> observer" where
  "observer_of a = ASSERTION_OBSERVERS (kind a)"

type_synonym assertion_set = "assertion list"

definition construct_set :: "assertion_set \<Rightarrow> assertion_set checked" where
  "construct_set as =
     (if as = [] then Inl SetEmpty
      else if \<not> distinct (map assertion_id as) then Inl IdsRepeated
      else if \<not> list_ex (\<lambda>a. kind a = TASK_COMPLETION \<and> required a) as then Inl CompletionMissing
      else Inr as)"

definition required_assertions_of :: "assertion_set \<Rightarrow> assertion list" where
  "required_assertions_of as = filter required as"

definition assertion_form :: "assertion \<Rightarrow> pyval" where
  "assertion_form a =
     PDict
       ([(key ''assertionId'', PStr (assertion_id a)),
         (key ''kind'', PStr (kind_value (kind a))),
         (key ''description'', PStr (description a)),
         (key ''required'', PBool (required a)),
         (key ''observer'', PStr (observer_value (observer_of a))),
         (key ''unknownReasons'',
          PList (map PStr (sorted_list_of_set (reason_value ` unknown_reasons a))))] @
        (case evaluation_rule a of None \<Rightarrow> []
         | Some r \<Rightarrow> [(key ''evaluationRule'', rule_form r)]))"

definition set_form :: "assertion_set \<Rightarrow> pyval" where
  "set_form as = PDict [(key ''assertions'', PList (map assertion_form as))]"

definition contract_fields :: "string list" where
  "contract_fields =
     [''assertionId'', ''kind'', ''description'', ''required'', ''observer'', ''unknownReasons'']"

fun as_bool :: "pyval \<Rightarrow> bool" where
  "as_bool (PBool b) = b"
| "as_bool _ = False"

fun as_list :: "pyval \<Rightarrow> pyval list" where
  "as_list (PList vs) = vs"
| "as_list _ = []"

fun is_bool :: "pyval \<Rightarrow> bool" where
  "is_bool (PBool b) = True"
| "is_bool _ = False"

text \<open>The body of the loop in \<open>AssertionSet.from_canonical_form\<close>.\<close>

definition parse_assertion :: "pyval \<Rightarrow> assertion checked" where
  "parse_assertion v =
     (case v of
        PDict kvs \<Rightarrow>
          if \<not> fields_include kvs contract_fields then Inl ContractIncomplete
          else if \<not> fields_within kvs (contract_fields @ [''evaluationRule'']) \<or>
                  \<not> is_bool (item kvs ''required'') \<or>
                  \<not> text_with (item kvs ''assertionId'') (\<lambda>_. True) \<or>
                  \<not> text_with (item kvs ''description'') (\<lambda>_. True) \<or>
                  (case item kvs ''unknownReasons'' of PList _ \<Rightarrow> False | _ \<Rightarrow> True)
          then Inl ContractFieldsInvalid
          else
            bind_result (kind_of (item kvs ''kind'')) (\<lambda>k.
            bind_result (traverse reason_of (as_list (item kvs ''unknownReasons''))) (\<lambda>rs.
            bind_result
              (case get_item kvs ''evaluationRule'' of
                 None \<Rightarrow> Inr None
               | Some r \<Rightarrow> bind_result (parse_rule r) (\<lambda>r. Inr (Some r))) (\<lambda>rule.
            bind_result
              (construct_assertion
                 \<lparr>assertion_id = as_text (item kvs ''assertionId''), kind = k,
                  description = as_text (item kvs ''description''),
                  required = as_bool (item kvs ''required''),
                  unknown_reasons = set rs, evaluation_rule = rule\<rparr>) (\<lambda>a.
            if PStr (observer_value (observer_of a)) \<noteq> item kvs ''observer''
            then Inl ObserverDiffers else Inr a))))
      | _ \<Rightarrow> Inl ContractIncomplete)"

definition from_canonical_form :: "pyval \<Rightarrow> assertion_set checked" where
  "from_canonical_form value =
     (case value of
        PDict kvs \<Rightarrow>
          if \<not> fields_are kvs [''assertions''] then Inl ContractUnavailable
          else (case item kvs ''assertions'' of
             PList items \<Rightarrow>
               bind_result (traverse parse_assertion items) (\<lambda>built.
               bind_result (construct_set built) (\<lambda>result.
               if \<not> py_eq (set_form result) value then Inl NotCanonicalForm else Inr result))
           | _ \<Rightarrow> Inl ContractInvalid)
      | _ \<Rightarrow> Inl ContractUnavailable)"

end
