(* ===== verification/Verdicts.thy ===== *)
theory Verdicts
  imports Outcome Assertions
begin

text \<open>
  The evaluation package around the truth table: values with their provenance
  (\<open>evaluation/assertions.py\<close>), identity revalidation (\<open>identity.py\<close>), the completion observer
  (\<open>observer.py\<close>, whose implementation is a parameter) and the final verdict (\<open>verdict.py\<close>).
\<close>

section \<open>Assertion values\<close>

datatype provenance = OBSERVER_AUTHORED | EVALUATOR_DERIVED | ABSENT

datatype provenance_error =
    AbsentButDefinite | DefiniteWithoutEvidence | UnknownWithoutReason | SourceNotEntitled
  | KindDiffers

record assertion_outcome =
  ao_assertion_id :: pytext
  ao_kind :: assertion_kind
  ao_condition :: condition
  provenance :: provenance
  evidence_refs :: "pytext list"
  ao_unknown_reason :: "pytext option"

definition construct_outcome :: "assertion_outcome \<Rightarrow> (provenance_error, assertion_outcome) result" where
  "construct_outcome v =
     (if provenance v = ABSENT \<and> ao_condition v \<noteq> UNKNOWN then Inl AbsentButDefinite
      else if ao_condition v \<noteq> UNKNOWN \<and> evidence_refs v = [] then Inl DefiniteWithoutEvidence
      else if ao_condition v = UNKNOWN \<and> ao_unknown_reason v = None then Inl UnknownWithoutReason
      else Inr v)"

fun PERMITTED_PROVENANCE :: "observer \<Rightarrow> provenance set" where
  "PERMITTED_PROVENANCE READER = {OBSERVER_AUTHORED, EVALUATOR_DERIVED}"
| "PERMITTED_PROVENANCE APPLICATION_OBSERVER = {OBSERVER_AUTHORED}"
| "PERMITTED_PROVENANCE EFFECT_MONITOR = {OBSERVER_AUTHORED}"
| "PERMITTED_PROVENANCE FUNCTIONAL_TEST = {OBSERVER_AUTHORED}"

definition assert_provenance_permitted :: "assertion_outcome \<Rightarrow> (provenance_error, unit) result" where
  "assert_provenance_permitted v =
     (if provenance v = ABSENT then Inr ()
      else if provenance v \<notin> PERMITTED_PROVENANCE (ASSERTION_OBSERVERS (ao_kind v))
      then Inl SourceNotEntitled
      else Inr ())"

type_synonym assertion_evaluation = "assertion_outcome list"

definition conditions :: "assertion_evaluation \<Rightarrow> condition list" where
  "conditions os = map ao_condition os"

definition unknown_reason_texts :: "assertion_evaluation \<Rightarrow> pytext list" where
  "unknown_reason_texts os =
     concat (map (\<lambda>v.
       case ao_unknown_reason v of
         Some r \<Rightarrow> if ao_condition v = UNKNOWN \<and> r \<noteq> []
                   then [ao_assertion_id v @ str '': '' @ r] else []
       | None \<Rightarrow> []) os)"

definition false_assertions :: "assertion_evaluation \<Rightarrow> pytext list" where
  "false_assertions os = map ao_assertion_id (filter (\<lambda>v. ao_condition v = FALSE) os)"

definition no_observation_reason :: pytext where
  "no_observation_reason =
     str ''no observation was submitted for this assertion. It stays in the required '' @
     str ''set as UNKNOWN rather than being dropped: dropping it would shorten the '' @
     str ''list of conditions a PASS has to satisfy.''"

definition absent_outcome :: "assertion \<Rightarrow> assertion_outcome" where
  "absent_outcome a =
     \<lparr>ao_assertion_id = assertion_id a, ao_kind = kind a, ao_condition = UNKNOWN,
      provenance = ABSENT, evidence_refs = [], ao_unknown_reason = Some no_observation_reason\<rparr>"

definition evaluate_one ::
  "(pytext \<rightharpoonup> assertion_outcome) \<Rightarrow> assertion \<Rightarrow> (provenance_error, assertion_outcome) result" where
  "evaluate_one values a =
     (case values (assertion_id a) of
        None \<Rightarrow> construct_outcome (absent_outcome a)
      | Some v \<Rightarrow>
          if ao_kind v \<noteq> kind a then Inl KindDiffers
          else bind_result (assert_provenance_permitted v) (\<lambda>_. Inr v))"

definition evaluate_assertions ::
  "assertion list \<Rightarrow> (pytext \<rightharpoonup> assertion_outcome) \<Rightarrow> (provenance_error, assertion_evaluation) result"
where
  "evaluate_assertions required' values = traverse (evaluate_one values) required'"

section \<open>Identity\<close>

datatype identity_kind =
    SOURCE | BUILD | ENVIRONMENT | RUNNER_PROFILE | EVALUATOR | MODEL | JOURNEY_VERSION
  | ASSERTION_SET | FIXTURE_INSTANCE

fun identity_value :: "identity_kind \<Rightarrow> pytext" where
  "identity_value SOURCE = str ''SOURCE''"
| "identity_value BUILD = str ''BUILD''"
| "identity_value ENVIRONMENT = str ''ENVIRONMENT''"
| "identity_value RUNNER_PROFILE = str ''RUNNER_PROFILE''"
| "identity_value EVALUATOR = str ''EVALUATOR''"
| "identity_value MODEL = str ''MODEL''"
| "identity_value JOURNEY_VERSION = str ''JOURNEY_VERSION''"
| "identity_value ASSERTION_SET = str ''ASSERTION_SET''"
| "identity_value FIXTURE_INSTANCE = str ''FIXTURE_INSTANCE''"

text \<open>A StrEnum compares as the string it is.\<close>

instantiation identity_kind :: linorder
begin

definition less_eq_identity_kind :: "identity_kind \<Rightarrow> identity_kind \<Rightarrow> bool" where
  "less_eq_identity_kind a b \<longleftrightarrow> identity_value a \<le> identity_value b"

definition less_identity_kind :: "identity_kind \<Rightarrow> identity_kind \<Rightarrow> bool" where
  "less_identity_kind a b \<longleftrightarrow> identity_value a < identity_value b"

instance
proof
  fix a b c :: identity_kind
  show "(a < b) = (a \<le> b \<and> \<not> b \<le> a)"
    by (auto simp: less_identity_kind_def less_eq_identity_kind_def)
  show "a \<le> a" by (simp add: less_eq_identity_kind_def)
  show "a \<le> b \<Longrightarrow> b \<le> c \<Longrightarrow> a \<le> c" by (auto simp: less_eq_identity_kind_def)
  show "a \<le> b \<or> b \<le> a" by (auto simp: less_eq_identity_kind_def)
  assume "a \<le> b" "b \<le> a"
  then have "identity_value a = identity_value b" by (simp add: less_eq_identity_kind_def)
  then show "a = b" by (cases a; cases b) simp_all
qed

end

definition ALWAYS_REQUIRED :: "identity_kind list" where
  "ALWAYS_REQUIRED =
     [SOURCE, BUILD, ENVIRONMENT, RUNNER_PROFILE, EVALUATOR, JOURNEY_VERSION, ASSERTION_SET,
      FIXTURE_INSTANCE]"

record identity_check =
  ic_kind :: identity_kind
  ic_sealed :: "pytext option"
  ic_observed :: "pytext option"

definition identity_matches :: "identity_check \<Rightarrow> bool" where
  "identity_matches c \<longleftrightarrow> ic_sealed c \<noteq> None \<and> ic_sealed c = ic_observed c"

record identity_verdict =
  bound :: bool
  identity_reasons :: "pytext list"

definition shorten :: "pytext \<Rightarrow> pytext" where
  "shorten v = take 12 v @ [0x2026]"

definition required_reason ::
  "(identity_kind \<rightharpoonup> pytext) \<Rightarrow> (identity_kind \<rightharpoonup> pytext) \<Rightarrow> identity_kind \<Rightarrow> pytext list" where
  "required_reason sealed observed k =
     (case sealed k of
        None \<Rightarrow>
          [identity_value k @
           str '' is not bound by the sealed manifest, so nothing was promised about it '' @
           str ''and there is nothing to check the evidence against (INV-03)'']
      | Some s \<Rightarrow>
          (case observed k of
             None \<Rightarrow>
               [identity_value k @ str '' was sealed as '' @ shorten s @
                str '' but the evidence does not report it, so the binding cannot be confirmed'']
           | Some o' \<Rightarrow>
               if o' \<noteq> s
               then [identity_value k @ str '' changed: sealed '' @ shorten s @ str '', observed '' @
                     shorten o']
               else []))"

definition revalidate ::
  "(identity_kind \<rightharpoonup> pytext) \<Rightarrow> (identity_kind \<rightharpoonup> pytext) \<Rightarrow> identity_verdict" where
  "revalidate sealed observed =
     (let reasons =
        concat (map (required_reason sealed observed) (sort ALWAYS_REQUIRED)) @
        (case observed MODEL of
           Some m \<Rightarrow>
             if sealed MODEL \<noteq> Some m
             then [str ''the evidence reports model '' @ m @ str '' and the seal names '' @
                   (case sealed MODEL of
                      None \<Rightarrow> str ''none''
                    | Some s \<Rightarrow> if s = [] then str ''none'' else s) @
                   str ''; a run driven by a different model is not the approved run'']
             else []
         | None \<Rightarrow> []) @
        (case sealed MODEL of
           Some s \<Rightarrow>
             if observed MODEL = None
             then [str ''model '' @ s @
                   str '' was sealed but the evidence does not report which model ran'']
             else []
         | None \<Rightarrow> [])
      in \<lparr>bound = (reasons = []), identity_reasons = reasons\<rparr>)"

section \<open>The completion observer\<close>

record effect_count =
  counted_nonce :: pytext
  counted_effect :: pytext
  counted :: int
  observed_at :: pytext

text \<open>\<open>count_effects\<close> of an observer: a count, or the ObserverError it raised with its text.\<close>

type_synonym completion_observer = "pytext \<Rightarrow> pytext \<Rightarrow> (pytext, effect_count) result"

record completion_observation =
  completion_condition :: condition
  detail :: pytext
  observed_count :: "int option"

definition observe_completion ::
  "completion_observer \<Rightarrow> pytext \<Rightarrow> pytext \<Rightarrow> int \<Rightarrow> completion_observation" where
  "observe_completion count_effects fixture_nonce' effect' expected_count =
     (case count_effects fixture_nonce' effect' of
        Inl exc \<Rightarrow>
          \<lparr>completion_condition = UNKNOWN,
           detail =
             str ''the completion observer could not read the application's state: '' @ exc @
             str ''. This is unknown, not failure: being unable to look is not evidence that '' @
             str ''nothing happened, and the absence of an error is not evidence that something did.'',
           observed_count = None\<rparr>
      | Inr measured \<Rightarrow>
          if counted_nonce measured \<noteq> fixture_nonce' then
            \<lparr>completion_condition = UNKNOWN,
             detail =
               str ''the observation is for fixture '' @ counted_nonce measured @
               str '' and this run's fixture is '' @ fixture_nonce' @
               str ''. An effect belonging to a different run's fixture says nothing about this one.'',
             observed_count = None\<rparr>
          else if counted measured = expected_count then
            \<lparr>completion_condition = TRUE,
             detail =
               str ''the application holds '' @ show_int (counted measured) @ str '' '' @ effect' @
               str '' for this run's fixture'',
             observed_count = Some (counted measured)\<rparr>
          else
            \<lparr>completion_condition = FALSE,
             detail =
               str ''the application holds '' @ show_int (counted measured) @ str '' '' @ effect' @
               str '' for this run's fixture. This is a measurement of durable state, not a '' @
               str ''reading of what the page displayed: a page can announce that a request was '' @
               str ''submitted having submitted nothing.'',
             observed_count = Some (counted measured)\<rparr>)"

section \<open>The verdict\<close>

definition PASS_SCOPE_STATEMENT :: pytext where
  "PASS_SCOPE_STATEMENT =
     str ''This result describes one journey, executed once, on one pinned reader, browser, locale and '' @
     str ''keyboard layout, against one build of one environment. It establishes that the frozen '' @
     str ''assertions held for that execution. It does NOT establish that the application is usable by '' @
     str ''people with disabilities in general, that it works with other assistive technologies or other '' @
     str ''versions of this one, that untested journeys behave the same way, or that any legal or '' @
     str ''regulatory obligation is satisfied. Actual screen-reader automation supplements evaluation by '' @
     str ''disabled users and specialists; it does not replace it.''"

record verdict =
  verdict_outcome :: outcome
  verdict_reasons :: "pytext list"
  verdict_scope :: pytext
  evaluator_version :: pytext
  evidence_set_digest :: pytext

definition decide ::
  "identity_verdict \<Rightarrow> pytext list \<Rightarrow> bool \<Rightarrow> assertion_evaluation \<Rightarrow> completion_observation \<Rightarrow>
     pytext \<Rightarrow> pytext \<Rightarrow> verdict" where
  "decide identity completeness_reasons preflight assertions' completion' version set_digest =
     (let validity' = \<lparr>identity_bound = bound identity, preflight_passed = preflight,
                      evidence_chain_intact = (completeness_reasons = []),
                      producer_tails_closed = (completeness_reasons = [])\<rparr>;
          result = evaluate \<lparr>validity = validity', required_assertions = conditions assertions',
                             completion = completion_condition completion'\<rparr>;
          detail' =
            eval_reasons result @
            (if bound identity then [] else identity_reasons identity) @
            completeness_reasons @
            (if eval_outcome result = INCONCLUSIVE then
               unknown_reason_texts assertions' @
               (if completion_condition completion' = UNKNOWN
                then [str ''completion unknown: '' @ detail completion'] else [])
             else []) @
            (if eval_outcome result = FAIL then
               map (\<lambda>a. str ''false: '' @ a) (false_assertions assertions') @
               (if completion_condition completion' = FALSE
                then [str ''completion false: '' @ detail completion'] else [])
             else [])
      in \<lparr>verdict_outcome = eval_outcome result, verdict_reasons = dedup detail',
          verdict_scope = PASS_SCOPE_STATEMENT, evaluator_version = version,
          evidence_set_digest = set_digest\<rparr>)"

record finding_support =
  support_status :: finding_status
  rationale :: pytext

definition support_for_finding :: "verdict \<Rightarrow> finding_support option" where
  "support_for_finding v =
     (if verdict_outcome v = FAIL then
        Some \<lparr>support_status = REPRODUCED,
              rationale =
                str ''a complete, valid run observed the frozen assertion as false, which is what '' @
                str ''REPRODUCED requires: the behaviour was established rather than merely seen.''\<rparr>
      else if verdict_outcome v = INCONCLUSIVE then
        Some \<lparr>support_status = CANDIDATE,
              rationale =
                str ''the run is inconclusive, so nothing is established. Any failure observed within it is '' @
                str ''a candidate for investigation and is not a confirmed defect: incomplete evidence '' @
                str ''cannot distinguish a real failure from a consequence of what was missing (INV-02).''\<rparr>
      else None)"

section \<open>Facts\<close>

lemma revalidate_bound:
  "bound (revalidate sealed observed) \<longleftrightarrow>
     (\<forall>k \<in> set ALWAYS_REQUIRED. sealed k \<noteq> None \<and> observed k = sealed k) \<and>
     observed MODEL = sealed MODEL"
proof -
  have none: "required_reason sealed observed k = [] \<longleftrightarrow> sealed k \<noteq> None \<and> observed k = sealed k" for k
    by (auto simp: required_reason_def split: option.splits)
  show ?thesis
    by (auto simp: revalidate_def Let_def none split: option.splits)
qed

lemma bound_reasons: "bound (revalidate sealed observed) \<longleftrightarrow> identity_reasons (revalidate sealed observed) = []"
  by (simp add: revalidate_def Let_def)

lemma evaluate_one_Inr:
  "evaluate_one values a = Inr v \<Longrightarrow>
     ao_kind v = kind a \<and>
     (case values (assertion_id a) of None \<Rightarrow> ao_condition v = UNKNOWN \<and> provenance v = ABSENT
      | Some u \<Rightarrow> v = u) \<and>
     (provenance v = ABSENT \<or> provenance v \<in> PERMITTED_PROVENANCE (ASSERTION_OBSERVERS (kind a)))"
  by (auto simp: evaluate_one_def construct_outcome_def absent_outcome_def
      assert_provenance_permitted_def bind_result_Inr split: option.splits if_splits)

lemma evaluate_assertions_each:
  "evaluate_assertions req values = Inr os \<longleftrightarrow>
     length os = length req \<and> (\<forall>i < length req. evaluate_one values (req ! i) = Inr (os ! i))"
  by (auto simp: evaluate_assertions_def traverse_Inr_iff list_all2_conv_all_nth)

lemma decide_outcome:
  "verdict_outcome (decide idv cr p os c ver dig) =
     verdict_spec (bound idv \<and> p \<and> cr = []) (insert (completion_condition c) (set (conditions os)))"
  by (auto simp: decide_def Let_def evaluate_outcome sound_iff)

definition verdict_input ::
  "identity_verdict \<Rightarrow> pytext list \<Rightarrow> bool \<Rightarrow> assertion_evaluation \<Rightarrow> completion_observation \<Rightarrow>
     evaluation_input" where
  "verdict_input idv cr p os c =
     \<lparr>validity = \<lparr>identity_bound = bound idv, preflight_passed = p,
                 evidence_chain_intact = (cr = []), producer_tails_closed = (cr = [])\<rparr>,
      required_assertions = conditions os, completion = completion_condition c\<rparr>"

lemma decide_reasons_include:
  "set (eval_reasons (evaluate (verdict_input idv cr p os c))) \<subseteq> set (verdict_reasons (decide idv cr p os c ver dig))"
  "\<not> bound idv \<Longrightarrow> set (identity_reasons idv) \<subseteq> set (verdict_reasons (decide idv cr p os c ver dig))"
  "set cr \<subseteq> set (verdict_reasons (decide idv cr p os c ver dig))"
  unfolding decide_def Let_def verdict_input_def by auto

lemma decide_explains:
  "verdict_reasons (decide idv cr p os c ver dig) = [] \<longleftrightarrow>
     verdict_outcome (decide idv cr p os c ver dig) = PASS"
proof
  assume "verdict_reasons (decide idv cr p os c ver dig) = []"
  then have "eval_reasons (evaluate (verdict_input idv cr p os c)) = []"
    using decide_reasons_include(1) [of idv cr p os c ver dig] by simp
  then have "eval_outcome (evaluate (verdict_input idv cr p os c)) = PASS"
    by (simp only: evaluate_reasons_empty)
  then show "verdict_outcome (decide idv cr p os c ver dig) = PASS"
    by (simp add: decide_def Let_def verdict_input_def)
next
  assume pass: "verdict_outcome (decide idv cr p os c ver dig) = PASS"
  then have "eval_outcome (evaluate (verdict_input idv cr p os c)) = PASS"
    by (simp add: decide_def Let_def verdict_input_def)
  then have "eval_reasons (evaluate (verdict_input idv cr p os c)) = []" "bound idv" "cr = []"
    by (simp_all only: evaluate_reasons_empty) (simp_all add: evaluate_PASS_iff sound_iff verdict_input_def)
  with pass show "verdict_reasons (decide idv cr p os c ver dig) = []"
    by (simp add: decide_def Let_def verdict_input_def)
qed

lemma observe_completion_TRUE:
  "completion_condition (observe_completion obs n e x) = TRUE \<longleftrightarrow>
     (\<exists>m. obs n e = Inr m \<and> counted_nonce m = n \<and> counted m = x)"
  by (auto simp: observe_completion_def split: sum.splits)

section \<open>Properties\<close>

text \<open>
  Identities are checked in full before anything else counts. They are bound exactly when
  every required identity was sealed and is reported unchanged and the reported model is the sealed
  one (possibly none); a verdict over unbound identities is INCONCLUSIVE whatever was observed,
  and gives the reasons.
\<close>

theorem unbound_identity_decides:
  "(bound (revalidate sealed observed) \<longleftrightarrow>
      (\<forall>k \<in> set ALWAYS_REQUIRED. sealed k \<noteq> None \<and> observed k = sealed k) \<and>
      observed MODEL = sealed MODEL) \<and>
   (\<not> bound (revalidate sealed observed) \<longrightarrow>
      verdict_outcome (decide (revalidate sealed observed) cr p os c ver dig) = INCONCLUSIVE \<and>
      set (identity_reasons (revalidate sealed observed)) \<subseteq>
        set (verdict_reasons (decide (revalidate sealed observed) cr p os c ver dig)))"
proof -
  let ?v = "revalidate sealed observed"
  have "verdict_outcome (decide ?v cr p os c ver dig) = INCONCLUSIVE" if "\<not> bound ?v"
    using that by (simp add: decide_outcome verdict_spec_def)
  with decide_reasons_include(2) show ?thesis unfolding revalidate_bound [symmetric] by blast
qed

lemma unbound_identity_decides_witness:
  "verdict_outcome (decide (revalidate (\<lambda>_. Some (str ''a'')) ((\<lambda>_. Some (str ''a''))(MODEL := None)))
     [] True [] \<lparr>completion_condition = TRUE, detail = [], observed_count = None\<rparr> [] [])
   = INCONCLUSIVE"
  using unbound_identity_decides
    [of "\<lambda>_. Some (str ''a'')" "(\<lambda>_. Some (str ''a''))(MODEL := None)" "[]" True "[]"
        "\<lparr>completion_condition = TRUE, detail = [], observed_count = None\<rparr>" "[]" "[]"]
  by simp

text \<open>
  No required assertion is dropped and none is decided by the wrong source. An accepted
  evaluation has one value per required assertion, in order and of its kind; it is UNKNOWN where
  nothing was submitted; and for an assertion that is not the reader's, every value present was
  authored by the observer.
\<close>

theorem evaluation_keeps_every_assertion:
  assumes "evaluate_assertions req values = Inr os"
  shows "length os = length req \<and>
    (\<forall>i < length req.
       ao_kind (os ! i) = kind (req ! i) \<and>
       (values (assertion_id (req ! i)) = None \<longrightarrow> ao_condition (os ! i) = UNKNOWN) \<and>
       (observer_of (req ! i) \<noteq> READER \<longrightarrow>
          provenance (os ! i) \<in> {ABSENT, OBSERVER_AUTHORED}))"
proof (intro conjI allI impI)
  show "length os = length req" using assms by (simp add: evaluate_assertions_each)
  fix i assume "i < length req"
  with assms have one: "evaluate_one values (req ! i) = Inr (os ! i)"
    by (simp add: evaluate_assertions_each)
  show "ao_kind (os ! i) = kind (req ! i)" using evaluate_one_Inr [OF one] by simp
  show "ao_condition (os ! i) = UNKNOWN" if "values (assertion_id (req ! i)) = None"
    using evaluate_one_Inr [OF one] that by simp
  show "provenance (os ! i) \<in> {ABSENT, OBSERVER_AUTHORED}" if "observer_of (req ! i) \<noteq> READER"
    using evaluate_one_Inr [OF one] that
    by (cases "kind (req ! i)") (auto simp: observer_of_def)
qed

definition sample_required :: "assertion list" where
  "sample_required =
     [\<lparr>assertion_id = str ''done'', kind = TASK_COMPLETION, description = str ''one row'',
       required = True, unknown_reasons = {OBSERVER_UNREACHABLE}, evaluation_rule = None\<rparr>]"

lemma evaluation_keeps_every_assertion_witness:
  "\<exists>v. evaluate_assertions sample_required Map.empty = Inr [v] \<and> ao_condition v = UNKNOWN"
proof -
  obtain v where v: "evaluate_assertions sample_required Map.empty = Inr [v]"
    by (simp add: evaluate_assertions_def sample_required_def evaluate_one_def construct_outcome_def
        absent_outcome_def result_simps)
  from evaluation_keeps_every_assertion [OF v] have "ao_condition v = UNKNOWN"
    by (auto simp: sample_required_def)
  with v show ?thesis by blast
qed

text \<open>
  C27: a PASS rests on a measurement. The verdict over an observed completion is PASS exactly when
  identities are bound, preflight passed, nothing is incomplete, every assertion is TRUE and the
  observer read, for this run's own fixture, exactly the expected number of effects; only a FAIL
  supports a reproduced finding, a PASS supports none, and exactly a PASS comes without reasons.
\<close>

theorem pass_requires_measured_effect:
  "(verdict_outcome (decide idv cr p os (observe_completion obs nonce e expected) ver dig) = PASS \<longleftrightarrow>
      bound idv \<and> p \<and> cr = [] \<and> (\<forall>v \<in> set os. ao_condition v = TRUE) \<and>
      (\<exists>m. obs nonce e = Inr m \<and> counted_nonce m = nonce \<and> counted m = expected)) \<and>
   (map_option support_status (support_for_finding v) = Some REPRODUCED \<longleftrightarrow>
      verdict_outcome v = FAIL) \<and>
   (verdict_outcome v = PASS \<longrightarrow> support_for_finding v = None) \<and>
   (verdict_reasons (decide idv cr p os c ver dig) = [] \<longleftrightarrow>
      verdict_outcome (decide idv cr p os c ver dig) = PASS)"
proof -
  have "verdict_spec b cs = PASS \<longleftrightarrow> b \<and> (\<forall>c \<in> cs. c = TRUE)" for b cs
    by (auto simp: verdict_spec_def) (metis condition.exhaust)
  then show ?thesis
    unfolding decide_explains
    by (auto simp: decide_outcome observe_completion_TRUE conditions_def support_for_finding_def)
qed

definition stale_observer :: completion_observer where
  "stale_observer n e =
     Inr \<lparr>counted_nonce = str ''last week'', counted_effect = e, counted = 1, observed_at = []\<rparr>"

lemma pass_requires_measured_effect_witness:
  "verdict_outcome (decide \<lparr>bound = True, identity_reasons = []\<rparr> [] True []
     (observe_completion stale_observer (str ''today'') (str ''SEND_EMAIL'') 1) [] []) \<noteq> PASS"
  using pass_requires_measured_effect
    [of "\<lparr>bound = True, identity_reasons = []\<rparr>" "[]" True "[]" stale_observer "str ''today''"
        "str ''SEND_EMAIL''" 1 "[]" "[]"]
  by (simp add: stale_observer_def)

text \<open>
  Losing submitted values never flips a verdict. If fewer values reach the evaluator, the
  required assertions are still all there and the verdict is the same or INCONCLUSIVE.
\<close>

theorem fewer_values_never_flip:
  assumes "evaluate_assertions req values = Inr os" and "evaluate_assertions req fewer = Inr os'"
    and "fewer \<subseteq>\<^sub>m values"
  shows "verdict_outcome (decide idv cr p os' c ver dig) \<in>
    {verdict_outcome (decide idv cr p os c ver dig), INCONCLUSIVE}"
proof -
  have lost: "list_all2 loses_to (conditions os) (conditions os')"
  proof (rule list_all2_all_nthI)
    show len: "length (conditions os) = length (conditions os')"
      using assms(1,2) by (simp add: conditions_def evaluate_assertions_each)
    fix i assume "i < length (conditions os)"
    then have i: "i < length req" "i < length os" "i < length os'"
      using assms(1,2) by (simp_all add: conditions_def evaluate_assertions_each)
    then have one: "evaluate_one values (req ! i) = Inr (os ! i)"
        "evaluate_one fewer (req ! i) = Inr (os' ! i)"
      using assms(1,2) by (simp_all add: evaluate_assertions_each)
    show "loses_to (conditions os ! i) (conditions os' ! i)"
    proof (cases "fewer (assertion_id (req ! i))")
      case None
      with evaluate_one_Inr [OF one(2)] i show ?thesis by (simp add: conditions_def loses_to_def)
    next
      case (Some v)
      with assms(3) have "values (assertion_id (req ! i)) = Some v"
        by (auto simp: map_le_def dom_def)
      with Some one i show ?thesis by (simp add: evaluate_one_def conditions_def loses_to_def)
    qed
  qed
  have "loses_to (completion_condition c) (completion_condition c)" by (simp add: loses_to_def)
  with list_all2_partner [OF lost] have
    "\<forall>d \<in> insert (completion_condition c) (set (conditions os')).
       \<exists>e \<in> insert (completion_condition c) (set (conditions os)). loses_to e d"
    "\<forall>e \<in> insert (completion_condition c) (set (conditions os)).
       \<exists>d \<in> insert (completion_condition c) (set (conditions os')). loses_to e d"
    by blast+
  from verdict_spec_lossy [OF this] show ?thesis by (simp add: decide_outcome)
qed

definition sample_value :: assertion_outcome where
  "sample_value =
     \<lparr>ao_assertion_id = str ''done'', ao_kind = TASK_COMPLETION, ao_condition = FALSE,
      provenance = OBSERVER_AUTHORED, evidence_refs = [str ''e1''], ao_unknown_reason = None\<rparr>"

lemma fewer_values_never_flip_witness:
  "verdict_outcome (decide \<lparr>bound = True, identity_reasons = []\<rparr> [] True
     [absent_outcome (hd sample_required)]
     \<lparr>completion_condition = TRUE, detail = [], observed_count = None\<rparr> [] [])
   \<in> {FAIL, INCONCLUSIVE}"
proof -
  let ?c = "\<lparr>completion_condition = TRUE, detail = [], observed_count = None\<rparr>"
  let ?i = "\<lparr>bound = True, identity_reasons = []\<rparr>"
  have "evaluate_assertions sample_required [str ''done'' \<mapsto> sample_value] = Inr [sample_value]"
    "evaluate_assertions sample_required Map.empty = Inr [absent_outcome (hd sample_required)]"
    by (simp_all add: evaluate_assertions_def sample_required_def evaluate_one_def sample_value_def
        construct_outcome_def absent_outcome_def assert_provenance_permitted_def result_simps)
  from fewer_values_never_flip [OF this, of ?i "[]" True ?c "[]" "[]"] show ?thesis
    by (simp add: decide_outcome verdict_spec_def conditions_def sample_value_def)
qed

end
