(* ===== verification/Assertion_Contracts.thy ===== *)
theory Assertion_Contracts
  imports Assertions
begin

text \<open>
  Facts of the assertion contract: what parsing accepts, and that a sealed contract is read back
  exactly.
\<close>

section \<open>Rules\<close>

definition valid_step :: "reader_step \<Rightarrow> bool" where
  "valid_step s \<longleftrightarrow> 1 \<le> step_action_sequence s \<and>
     step_action_sequence s \<le> MAX_RULE_ACTION_SEQUENCE \<and> phrase_ok (step_phrase s)"

definition accepted_rule :: "evaluation_rule \<Rightarrow> bool" where
  "accepted_rule r \<longleftrightarrow> construct_rule r = Inr r"

definition valid_rule :: "evaluation_rule \<Rightarrow> bool" where
  "valid_rule r \<longleftrightarrow> construct_rule r = Inr r \<and> list_all valid_step (rule_steps r)"

lemma construct_step_Inr: "construct_step a p = Inr s \<Longrightarrow>
   a = PInt (step_action_sequence s) \<and> p = PStr (step_phrase s) \<and> valid_step s"
  by (auto simp: construct_step_def valid_step_def split: if_splits elim!: text_withE int_withinE)

lemma construct_rule_same: "construct_rule r = Inr r' \<Longrightarrow> r' = r"
  by (simp add: construct_rule_def split: if_splits)

lemma step_round_trip: "valid_step s \<Longrightarrow> parse_step (step_form s) = Inr s"
  by (simp add: step_form_def construct_step_def valid_step_def)

lemma step_object_form: "step_object (step_form s)"
  by (simp add: step_object_def step_form_def fields_eval)

lemma traverse_steps: "list_all valid_step ss \<Longrightarrow> traverse parse_step (map step_form ss) = Inr ss"
  by (induction ss) (simp_all add: step_round_trip result_simps)

lemma step_objects: "list_all step_object (map step_form ss)"
  by (simp add: list_all_iff step_object_form)

lemmas rule_ok_defs =
  absence_rule_ok_def focus_rule_ok_def phrase_rule_ok_def count_rule_ok_def sequence_rule_ok_def
  validation_rule_ok_def

lemma rule_types:
  assumes "construct_rule r = Inr r'"
  obtains "rule_type r = lit ''CONTINUOUS_EFFECT_ABSENCE''" "absence_rule_ok r"
  | "rule_type r = lit ''EXACT_NATIVE_KEYBOARD_FOCUS''" "focus_rule_ok r"
  | "rule_type r = lit ''EXACT_READER_PHRASE''" "phrase_rule_ok r"
  | "rule_type r = lit ''EFFECT_COUNT''" "count_rule_ok r"
  | "rule_type r = lit ''READER_NEXT_SEQUENCE''" "sequence_rule_ok r"
  | "rule_type r = lit ''PROTECTED_REFERENCE_VALIDATION''" "validation_rule_ok r"
  using assms that by (simp add: construct_rule_def split: if_splits)

lemma rule_round_trip:
  assumes "valid_rule r"
  shows "parse_rule (rule_form r) = Inr r"
proof (cases r)
  case (fields t a p e c ss su ro i sc)
  from assms have r: "construct_rule r = Inr r" "list_all valid_step ss"
    by (simp_all add: valid_rule_def fields)
  note eval = fields rule_form_def parse_rule_def bare_rule_def fields_eval construct_rule_def
    rule_ok_defs
  from r(1) show ?thesis
  proof (cases rule: rule_types)
    case 1
    with r(1) show ?thesis by (simp add: eval split: if_splits)
  next
    case 2
    with r(1) show ?thesis by (simp add: eval split: if_splits)
  next
    case 3
    with r(1) show ?thesis by (simp add: eval split: if_splits)
  next
    case 4
    with r(1) show ?thesis by (simp add: eval split: if_splits)
  next
    case 5
    with r show ?thesis by (simp add: eval traverse_steps step_objects result_simps split: if_splits)
  next
    case 6
    with r(1) show ?thesis by (simp add: eval split: if_splits)
  qed
qed

lemma parse_steps_valid: "traverse parse_step vs = Inr ss \<Longrightarrow> list_all valid_step ss"
proof (induction vs arbitrary: ss)
  case (Cons v vs)
  then obtain s rest where "parse_step v = Inr s" "traverse parse_step vs = Inr rest" "ss = s # rest"
    by (auto simp: result_simps)
  with Cons.IH show ?case
    by (cases v) (auto dest: construct_step_Inr)
qed simp

lemma parse_rule_valid: "parse_rule v = Inr r \<Longrightarrow> valid_rule r"
proof (cases v)
  case (PDict kvs)
  assume parsed: "parse_rule v = Inr r"
  have same: "r = q \<and> accepted_rule r" if "construct_rule q = Inr r" for q
    using construct_rule_same [OF that] that by (simp add: accepted_rule_def)
  have "accepted_rule r \<and> list_all valid_step (rule_steps r)"
    using parsed PDict
    by (auto simp: parse_rule_def Let_def bare_rule_def bind_result_Inr
        dest!: same parse_steps_valid split: if_splits prod.splits bool.splits pyval.splits)
  then show ?thesis by (simp add: valid_rule_def accepted_rule_def)
qed (simp_all add: parse_rule_def)

section \<open>Assertions and sets\<close>

definition accepted_assertion :: "assertion \<Rightarrow> bool" where
  "accepted_assertion a \<longleftrightarrow> construct_assertion a = Inr a"

definition valid_assertion :: "assertion \<Rightarrow> bool" where
  "valid_assertion a \<longleftrightarrow> construct_assertion a = Inr a \<and>
     (case evaluation_rule a of None \<Rightarrow> True | Some r \<Rightarrow> valid_rule r)"

definition valid_set :: "assertion_set \<Rightarrow> bool" where
  "valid_set as \<longleftrightarrow> construct_set as = Inr as \<and> list_all valid_assertion as"

lemma construct_assertion_same: "construct_assertion a = Inr a' \<Longrightarrow> a' = a"
  by (simp add: construct_assertion_def split: if_splits option.splits)

lemma construct_assertion_accepted:
  "construct_assertion a = Inr a' \<Longrightarrow> a' = a \<and> accepted_assertion a'"
  using construct_assertion_same [of a a'] by (simp add: accepted_assertion_def)

lemma construct_set_same: "construct_set as = Inr as' \<Longrightarrow> as' = as"
  by (simp add: construct_set_def split: if_splits)

lemma kind_of_value [simp]: "kind_of (PStr (kind_value k)) = Inr k"
  by (cases k) (simp_all add: kind_of_def all_kinds_def)

lemma reason_of_value [simp]: "reason_of (PStr (reason_value r)) = Inr r"
  by (cases r) (simp_all add: reason_of_def all_reasons_def)

lemma traverse_reasons:
  "set ss \<subseteq> reason_value ` R \<Longrightarrow>
     \<exists>rs. traverse reason_of (map PStr ss) = Inr rs \<and> reason_value ` set rs = set ss"
  by (induction ss) (auto simp: result_simps)

lemma finite_reasons [simp]: "finite (R :: unknown_reason set)"
proof (rule finite_subset)
  show "R \<subseteq> set all_reasons"
  proof
    fix r assume "r \<in> R"
    show "r \<in> set all_reasons" by (cases r) (simp_all add: all_reasons_def)
  qed
qed simp

lemma reason_value_inject: "inj reason_value"
proof (rule injI)
  fix q r assume "reason_value q = reason_value r"
  then have "reason_of (PStr (reason_value q)) = reason_of (PStr (reason_value r))" by simp
  then show "q = r" by simp
qed

lemma read_reasons:
  "\<exists>rs. traverse reason_of (map PStr (sorted_list_of_set (reason_value ` R))) = Inr rs \<and> set rs = R"
proof -
  let ?ss = "sorted_list_of_set (reason_value ` R)"
  have set: "set ?ss = reason_value ` R" by simp
  then obtain rs where rs: "traverse reason_of (map PStr ?ss) = Inr rs"
      "reason_value ` set rs = set ?ss"
    using traverse_reasons [of ?ss R] by blast
  have "set rs = R"
    using rs(2) inj_image_eq_iff [OF reason_value_inject] unfolding set by blast
  with rs(1) show ?thesis by blast
qed

lemma assertion_round_trip:
  assumes "valid_assertion a"
  shows "parse_assertion (assertion_form a) = Inr a"
proof -
  obtain rs where "traverse reason_of (map PStr (sorted_list_of_set (reason_value ` unknown_reasons a)))
      = Inr rs" "set rs = unknown_reasons a"
    using read_reasons by blast
  moreover have "construct_assertion a = Inr a" using assms by (simp add: valid_assertion_def)
  moreover have "(case evaluation_rule a of None \<Rightarrow> Inr None
      | Some r \<Rightarrow> bind_result (parse_rule (rule_form r)) (\<lambda>r. Inr (Some r))) = Inr (evaluation_rule a)"
    using assms by (auto simp: valid_assertion_def rule_round_trip result_simps split: option.splits)
  ultimately show ?thesis
    by (cases a; cases "evaluation_rule a")
      (simp_all add: parse_assertion_def assertion_form_def fields_eval contract_fields_def
        result_simps)
qed

lemma traverse_assertions:
  "list_all valid_assertion as \<Longrightarrow> traverse parse_assertion (map assertion_form as) = Inr as"
  by (induction as) (simp_all add: assertion_round_trip result_simps)

lemma plain_leaf [simp]: "plain PNone" "plain (PBool b)" "plain (PInt i)" "plain (PStr s)"
  by (auto intro: plain.intros)

lemma plain_rule_form: "valid_rule r \<Longrightarrow> plain (rule_form r)"
proof -
  assume "valid_rule r"
  then have "construct_rule r = Inr r" by (simp add: valid_rule_def)
  then show ?thesis
  proof (cases rule: rule_types)
    case 5
    have "plain (step_form s)" for s
      by (auto simp: step_form_def intro!: plain_Dict)
    with 5 show ?thesis
      by (auto simp: rule_form_def intro!: plain_Dict plain_List)
  qed (auto simp: rule_form_def rule_ok_defs intro!: plain_Dict elim!: text_withE int_withinE)
qed

lemma plain_set_form: "list_all valid_assertion as \<Longrightarrow> plain (set_form as)"
proof -
  assume valid: "list_all valid_assertion as"
  have "plain (assertion_form a)" if "a \<in> set as" for a
  proof (cases "evaluation_rule a")
    case None
    then show ?thesis by (auto simp: assertion_form_def intro!: plain_Dict plain_List)
  next
    case (Some r)
    have "valid_assertion a" using valid that by (simp add: list_all_iff)
    with Some have "plain (rule_form r)"
      by (simp add: valid_assertion_def plain_rule_form)
    with Some show ?thesis by (auto simp: assertion_form_def intro!: plain_Dict plain_List)
  qed
  then show ?thesis by (auto simp: set_form_def intro!: plain_Dict plain_List)
qed

lemma parse_assertion_valid: "parse_assertion v = Inr a \<Longrightarrow> valid_assertion a"
proof (cases v)
  case (PDict kvs)
  assume parsed: "parse_assertion v = Inr a"
  then have "accepted_assertion a \<and>
      (case evaluation_rule a of None \<Rightarrow> True | Some r \<Rightarrow> valid_rule r)"
    using PDict
    by (auto simp: parse_assertion_def bind_result_Inr
        dest!: construct_assertion_accepted parse_rule_valid split: if_splits option.splits)
  then show ?thesis by (simp add: valid_assertion_def accepted_assertion_def)
qed (simp_all add: parse_assertion_def)

lemma traverse_valid:
  "traverse parse_assertion vs = Inr as \<Longrightarrow> list_all valid_assertion as"
proof (induction vs arbitrary: as)
  case (Cons v vs)
  then show ?case by (auto simp: result_simps dest: parse_assertion_valid)
qed simp

lemma from_canonical_form_Inr:
  assumes "from_canonical_form v = Inr as"
  shows "valid_set as \<and> py_eq (set_form as) v"
proof (cases v)
  case (PDict kvs)
  with assms obtain items where "traverse parse_assertion items = Inr as" "construct_set as = Inr as"
      "py_eq (set_form as) v"
    by (auto simp: from_canonical_form_def bind_result_Inr dest: construct_set_same
        split: if_splits pyval.splits)
  then show ?thesis by (auto simp: valid_set_def dest: traverse_valid)
qed (use assms in \<open>simp_all add: from_canonical_form_def\<close>)

lemma read_back:
  assumes "valid_set as"
  shows "from_canonical_form (set_form as) = Inr as"
proof -
  have "py_eq (set_form as) (set_form as)"
    using assms by (simp add: valid_set_def plain_set_form py_eq_refl)
  with assms show ?thesis
    by (simp add: from_canonical_form_def valid_set_def set_form_def fields_eval traverse_assertions
        result_simps)
qed

section \<open>Properties\<close>

definition sample_set :: assertion_set where
  "sample_set =
     [\<lparr>assertion_id = str ''done'', kind = TASK_COMPLETION, description = str ''one row'',
       required = True, unknown_reasons = {OBSERVER_UNREACHABLE, OBSERVATION_MISSING},
       evaluation_rule = Some ((bare_rule (lit ''EFFECT_COUNT''))
         \<lparr>rule_effect := lit ''CREATE_TEST_REQUEST'', rule_count := PInt 1\<rparr>)\<rparr>]"

lemma sample_set_valid: "valid_set sample_set"
proof -
  have "\<not> blank (str ''done'')" "\<not> blank (str ''one row'')"
    by (simp_all add: blank_def str_def py_space_def)
  then show ?thesis
    by (simp add: valid_set_def sample_set_def construct_set_def valid_assertion_def
        construct_assertion_def valid_rule_def construct_rule_def bare_rule_def rule_ok_defs
        MAX_RULE_EFFECT_COUNT_def)
qed

text \<open>
  C26: a sealed contract is read back exactly. The canonical form of a set of assertions that the
  constructors accept, with any rules they may carry, parses to the same assertions in the same
  order, with the same rules, unknown reasons and observers.
\<close>

theorem contract_round_trip:
  assumes "valid_set as"
  shows "from_canonical_form (set_form as) = Inr as"
  by (rule read_back [OF assms])

lemma contract_round_trip_witness: "from_canonical_form (set_form sample_set) = Inr sample_set"
  by (rule contract_round_trip [OF sample_set_valid])

text \<open>
  A contract that is accepted is protected. It is its own canonical form; it holds a required
  completion assertion; identifiers are unique; a required assertion can be unknown; and every rule
  has the one type its kind's observer can decide and has passed its own checks.
\<close>

theorem accepted_contract_protected:
  assumes "from_canonical_form v = Inr as"
  shows "py_eq (set_form as) v \<and> distinct (map assertion_id as) \<and>
    (\<exists>a \<in> set as. kind a = TASK_COMPLETION \<and> required a) \<and>
    (\<forall>a \<in> set as. required a \<longrightarrow> unknown_reasons a \<noteq> {}) \<and>
    (\<forall>a \<in> set as. \<forall>r. evaluation_rule a = Some r \<longrightarrow>
       rule_type r = lit (rule_type_for (kind a)) \<and> construct_rule r = Inr r)"
proof -
  from from_canonical_form_Inr [OF assms] have v: "construct_set as = Inr as"
      "\<forall>a \<in> set as. valid_assertion a" "py_eq (set_form as) v"
    by (simp_all add: valid_set_def list_all_iff)
  have each: "(required a \<longrightarrow> unknown_reasons a \<noteq> {}) \<and>
      (\<forall>r. evaluation_rule a = Some r \<longrightarrow>
         rule_type r = lit (rule_type_for (kind a)) \<and> construct_rule r = Inr r)"
    if "a \<in> set as" for a
    using v(2) that
    by (auto simp: valid_assertion_def valid_rule_def construct_assertion_def split: if_splits)
  from v(1) have "distinct (map assertion_id as)" "\<exists>a \<in> set as. kind a = TASK_COMPLETION \<and> required a"
    by (auto simp: construct_set_def list_ex_iff split: if_splits)
  with v(3) each show ?thesis by blast
qed

lemma accepted_contract_protected_witness:
  "\<exists>a \<in> set sample_set. kind a = TASK_COMPLETION \<and> required a"
  using accepted_contract_protected [OF read_back [OF sample_set_valid]] by blast

end
