(* ===== verification/Rules.thy ===== *)
theory Rules
  imports Verdicts Assertion_Contracts
begin

text \<open>
  Frozen predicates applied to retained samples (\<open>evaluation/rules.py\<close>): reader and focus values
  derived by the evaluator, and the conditions the independent observers author.
\<close>

section \<open>Samples\<close>

record reader_sample =
  action_sequence :: int
  event_id :: pytext
  phrase :: "pytext option"
  capture_unknown :: bool
  redacted :: bool
  next_action_verified :: bool
  canonical_sequence :: "int option"

record keyboard_focus_sample =
  focus_action_sequence :: int
  focus_event_id :: pytext
  focus_role :: "pytext option"
  focus_identifier_digest :: "pytext option"
  successful_action_verified :: bool

definition event_refs :: "pytext list \<Rightarrow> pytext list" where
  "event_refs ids = dedup (filter (\<lambda>e. e \<noteq> []) ids)"

definition outcome_of ::
  "assertion \<Rightarrow> condition \<Rightarrow> provenance \<Rightarrow> pytext list \<Rightarrow> pytext option \<Rightarrow>
     (provenance_error, assertion_outcome) result" where
  "outcome_of a c p refs reason =
     construct_outcome
       \<lparr>ao_assertion_id = assertion_id a, ao_kind = kind a, ao_condition = c, provenance = p,
        evidence_refs = refs, ao_unknown_reason = reason\<rparr>"

section \<open>Keyboard focus\<close>

definition focus_reason :: pytext where
  "focus_reason =
     str ''frozen native focus predicate or unique known capture after a successful '' @
     str ''original action is unavailable; speech cannot substitute for keyboard focus''"

definition focus_known :: "keyboard_focus_sample \<Rightarrow> bool" where
  "focus_known s \<longleftrightarrow>
     successful_action_verified s \<and>
     (case focus_role s of None \<Rightarrow> False | Some r \<Rightarrow> r \<in> KEYBOARD_FOCUS_ROLES) \<and>
     (case focus_identifier_digest s of None \<Rightarrow> False | Some d \<Rightarrow> is_sha256_hex d)"

definition focus_matches :: "keyboard_focus_sample \<Rightarrow> evaluation_rule \<Rightarrow> bool" where
  "focus_matches s r \<longleftrightarrow>
     map_option PStr (focus_role s) = Some (rule_role r) \<and>
     map_option PStr (focus_identifier_digest s) = Some (rule_identifier_digest r)"

definition derive_keyboard_focus_assertion ::
  "assertion \<Rightarrow> keyboard_focus_sample list \<Rightarrow> (provenance_error, assertion_outcome) result" where
  "derive_keyboard_focus_assertion a samples =
     (case evaluation_rule a of
        Some rule \<Rightarrow>
          if rule_type rule = lit ''EXACT_NATIVE_KEYBOARD_FOCUS'' then
            (let selected = filter (\<lambda>s. PInt (focus_action_sequence s) = rule_action_sequence rule) samples;
                 refs = event_refs (map focus_event_id selected);
                 unknown = outcome_of a UNKNOWN (if refs \<noteq> [] then EVALUATOR_DERIVED else ABSENT) refs
                             (Some focus_reason)
             in case selected of
                  [sample] \<Rightarrow>
                    if refs \<noteq> [] \<and> focus_known sample
                    then outcome_of a (if focus_matches sample rule then TRUE else FALSE)
                           EVALUATOR_DERIVED refs None
                    else unknown
                | _ \<Rightarrow> unknown)
          else outcome_of a UNKNOWN ABSENT [] (Some focus_reason)
      | None \<Rightarrow> outcome_of a UNKNOWN ABSENT [] (Some focus_reason))"

section \<open>The reader\<close>

definition no_predicate_reason :: pytext where
  "no_predicate_reason =
     str ''no supported frozen reader predicate; descriptions are not executable expectations''"

definition sequence_reason :: pytext where
  "sequence_reason =
     str ''consecutive successful NEXT actions or original ordered reader captures '' @
     str ''are missing, conflicting, unknown or redacted''"

definition capture_reason :: pytext where
  "capture_reason = str ''reader capture missing, unknown or redacted at the frozen action''"

definition conflicting_reason :: pytext where
  "conflicting_reason = str ''the frozen action has missing or conflicting reader observations''"

text \<open>The loop that lines steps up with samples and stops at the first step without exactly one.\<close>

fun line_up :: "reader_sample list \<Rightarrow> reader_step list \<Rightarrow> reader_sample list" where
  "line_up selected [] = []"
| "line_up selected (step # steps) =
     (case filter (\<lambda>s. action_sequence s = step_action_sequence step) selected of
        [s] \<Rightarrow> s # line_up selected steps
      | _ \<Rightarrow> [])"

definition sample_known :: "reader_sample \<Rightarrow> bool" where
  "sample_known s \<longleftrightarrow>
     next_action_verified s \<and>
     (case canonical_sequence s of None \<Rightarrow> False | Some n \<Rightarrow> 0 < n) \<and>
     \<not> capture_unknown s \<and> \<not> redacted s \<and> phrase s \<noteq> None \<and> event_id s \<noteq> []"

definition before :: "reader_sample \<Rightarrow> reader_sample \<Rightarrow> bool" where
  "before l r =
     (case (canonical_sequence l, canonical_sequence r) of
        (Some m, Some n) \<Rightarrow> m < n
      | _ \<Rightarrow> False)"

definition sequence_known :: "reader_step list \<Rightarrow> pytext list \<Rightarrow> reader_sample list \<Rightarrow> bool" where
  "sequence_known steps refs lined \<longleftrightarrow>
     length lined = length steps \<and> length refs = length steps \<and>
     list_all sample_known lined \<and>
     list_all (\<lambda>(l, r). before l r) (zip lined (tl lined))"

definition unknown_reader ::
  "assertion \<Rightarrow> pytext list \<Rightarrow> pytext \<Rightarrow> (provenance_error, assertion_outcome) result" where
  "unknown_reader a refs reason =
     outcome_of a UNKNOWN (if refs = [] then ABSENT else EVALUATOR_DERIVED) refs (Some reason)"

definition derive_sequence ::
  "assertion \<Rightarrow> evaluation_rule \<Rightarrow> reader_sample list \<Rightarrow> (provenance_error, assertion_outcome) result"
where
  "derive_sequence a rule samples =
     (let steps = rule_steps rule;
          selected = filter (\<lambda>s. action_sequence s \<in> step_action_sequence ` set steps) samples;
          refs = event_refs (map event_id selected);
          lined = line_up selected steps
      in if sequence_known steps refs lined
         then outcome_of a
                (if list_all (\<lambda>(s, step). phrase s = Some (step_phrase step)) (zip lined steps)
                 then TRUE else FALSE)
                EVALUATOR_DERIVED (map event_id lined) None
         else unknown_reader a refs sequence_reason)"

definition derive_phrase ::
  "assertion \<Rightarrow> evaluation_rule \<Rightarrow> reader_sample list \<Rightarrow> (provenance_error, assertion_outcome) result"
where
  "derive_phrase a rule samples =
     (case filter (\<lambda>s. PInt (action_sequence s) = rule_action_sequence rule) samples of
        [s] \<Rightarrow>
          (let refs = (if event_id s \<noteq> [] then [event_id s] else [])
           in if capture_unknown s \<or> redacted s \<or> phrase s = None \<or> refs = []
              then unknown_reader a refs capture_reason
              else outcome_of a
                     (if map_option PStr (phrase s) = Some (rule_phrase rule) then TRUE else FALSE)
                     EVALUATOR_DERIVED refs None)
      | _ \<Rightarrow> unknown_reader a [] conflicting_reason)"

definition derive_reader_assertion ::
  "assertion \<Rightarrow> reader_sample list \<Rightarrow> (provenance_error, assertion_outcome) result" where
  "derive_reader_assertion a samples =
     (case evaluation_rule a of
        None \<Rightarrow> unknown_reader a [] no_predicate_reason
      | Some rule \<Rightarrow>
          if rule_type rule = lit ''READER_NEXT_SEQUENCE'' then derive_sequence a rule samples
          else if rule_type rule = lit ''EXACT_READER_PHRASE'' then derive_phrase a rule samples
          else unknown_reader a [] no_predicate_reason)"

section \<open>Conditions the observers author\<close>

definition authored :: "assertion \<Rightarrow> condition \<Rightarrow> pyval list \<Rightarrow> pyval" where
  "authored a c reason =
     PDict
       ([(key ''assertionId'', PStr (assertion_id a)), (key ''kind'', PStr (kind_value (kind a))),
         (key ''condition'', PStr (condition_value c)),
         (key ''provenance'', lit ''OBSERVER_AUTHORED'')] @
        map (\<lambda>r. (key ''unknownReason'', r)) reason)"

definition count_condition :: "assertion \<Rightarrow> pytext \<Rightarrow> int option \<Rightarrow> condition option" where
  "count_condition a effect' count' =
     (case (evaluation_rule a, count') of
        (Some rule, Some n) \<Rightarrow>
          if rule_type rule = lit ''EFFECT_COUNT'' \<and> rule_effect rule = PStr effect' \<and> 0 \<le> n
          then Some (if PInt n = rule_count rule then TRUE else FALSE)
          else None
      | _ \<Rightarrow> None)"

definition observer_count_assertions ::
  "assertion_set \<Rightarrow> pytext \<Rightarrow> int option \<Rightarrow> pyval list" where
  "observer_count_assertions as effect' count' =
     map (\<lambda>a.
       case count_condition a effect' count' of
         None \<Rightarrow>
           authored a UNKNOWN [lit ''measurement or matching frozen effect predicate unavailable'']
       | Some c \<Rightarrow> authored a c [])
       (filter (\<lambda>a. kind a = TASK_COMPLETION) as)"

definition absence_condition ::
  "assertion \<Rightarrow> effect_window \<Rightarrow> effect_coverage option \<Rightarrow> pytext \<Rightarrow> condition" where
  "absence_condition a expected measured rule_scope =
     (case evaluation_rule a of
        None \<Rightarrow> UNKNOWN
      | Some rule \<Rightarrow>
          if rule_type rule = lit ''CONTINUOUS_EFFECT_ABSENCE'' \<and>
             rule_effect rule = PStr (effect expected) \<and> rule_scope_digest rule = PStr rule_scope
          then assess_effect_absence expected measured
          else UNKNOWN)"

definition monitor_assertions ::
  "assertion_set \<Rightarrow> effect_window \<Rightarrow> effect_coverage option \<Rightarrow> pytext \<Rightarrow> pyval list" where
  "monitor_assertions as expected measured rule_scope =
     map (\<lambda>a.
       let c = absence_condition a expected measured rule_scope in
       authored a c
         (if c = UNKNOWN
          then [lit ''frozen scope or complete independent coverage unavailable''] else []))
       (filter (\<lambda>a. kind a = FORBIDDEN_EFFECT) as)"

definition effect_monitor_assertions ::
  "assertion_set \<Rightarrow> effect_window \<Rightarrow> effect_coverage option \<Rightarrow> pyval list" where
  "effect_monitor_assertions as expected measured =
     monitor_assertions as expected measured (scope_digest expected)"

definition reference_effect_monitor_assertions ::
  "assertion_set \<Rightarrow> effect_window \<Rightarrow> reference_effect_binding \<Rightarrow> effect_coverage option \<Rightarrow>
     (scope_error, pyval list) result" where
  "reference_effect_monitor_assertions as expected binding measured =
     (let read = (\<lambda>matches. monitor_assertions as expected (if matches then measured else None)
                              REFERENCE_EFFECT_POLICY_DIGEST)
      in if window_run_id expected = binding_run_id binding \<and>
            window_attempt_id expected = binding_attempt_id binding \<and>
            effect expected = str ''CREATE_TEST_REQUEST''
         then bind_result (measurement_scope_digest binding) (\<lambda>d.
                Inr (read (scope_digest expected = d)))
         else Inr (read False))"

definition validation_condition :: "assertion \<Rightarrow> validation_observation \<Rightarrow> condition option" where
  "validation_condition a obs =
     (case evaluation_rule a of
        None \<Rightarrow> None
      | Some rule \<Rightarrow>
          if rule_type rule = lit ''PROTECTED_REFERENCE_VALIDATION'' \<and>
             rule_suite_digest rule = PStr (vo_suite_digest obs)
          then Some (if passed obs then TRUE else FALSE)
          else None)"

definition functional_validation_assertions ::
  "assertion_set \<Rightarrow> validation_observation \<Rightarrow> pyval list" where
  "functional_validation_assertions as obs =
     map (\<lambda>a.
       case validation_condition a obs of
         None \<Rightarrow> authored a UNKNOWN [lit ''matching frozen functional predicate unavailable'']
       | Some c \<Rightarrow> authored a c [])
       (filter (\<lambda>a. kind a = FUNCTIONAL_VALIDATION) as)"

section \<open>Facts\<close>

lemma outcome_of_Inr:
  "outcome_of a c p refs reason = Inr v \<Longrightarrow>
     v = \<lparr>ao_assertion_id = assertion_id a, ao_kind = kind a, ao_condition = c, provenance = p,
          evidence_refs = refs, ao_unknown_reason = reason\<rparr>"
  by (simp add: outcome_of_def construct_outcome_def split: if_splits)

lemma outcome_of_unknown [simp]:
  "outcome_of a UNKNOWN p refs (Some r) =
     Inr \<lparr>ao_assertion_id = assertion_id a, ao_kind = kind a, ao_condition = UNKNOWN,
          provenance = p, evidence_refs = refs, ao_unknown_reason = Some r\<rparr>"
  by (simp add: outcome_of_def construct_outcome_def)

lemma outcome_of_derived [simp]:
  "c \<noteq> UNKNOWN \<Longrightarrow> refs \<noteq> [] \<Longrightarrow>
     outcome_of a c EVALUATOR_DERIVED refs None =
       Inr \<lparr>ao_assertion_id = assertion_id a, ao_kind = kind a, ao_condition = c,
            provenance = EVALUATOR_DERIVED, evidence_refs = refs, ao_unknown_reason = None\<rparr>"
  by (simp add: outcome_of_def construct_outcome_def)

lemma line_up_nth:
  "length (line_up sel steps) = length steps \<Longrightarrow> i < length steps \<Longrightarrow>
     filter (\<lambda>s. action_sequence s = step_action_sequence (steps ! i)) sel = [line_up sel steps ! i]"
proof (induction steps arbitrary: i)
  case (Cons step steps)
  then obtain s where s: "filter (\<lambda>s. action_sequence s = step_action_sequence step) sel = [s]"
    by (auto split: list.splits)
  with Cons show ?case by (cases i) auto
qed simp

lemma line_up_complete:
  "\<forall>step \<in> set steps. \<exists>s. filter (\<lambda>s. action_sequence s = step_action_sequence step) sel = [s] \<Longrightarrow>
     length (line_up sel steps) = length steps"
  by (induction steps) auto

lemma valid_sequence_steps:
  assumes "valid_assertion a" and "evaluation_rule a = Some rule"
    and "rule_type rule = lit ''READER_NEXT_SEQUENCE''"
  shows "2 \<le> length (rule_steps rule)"
proof -
  have "construct_rule rule = Inr rule"
    using assms(1,2) by (simp add: valid_assertion_def valid_rule_def)
  then show ?thesis
    by (cases rule: rule_types) (use assms(3) in \<open>simp_all add: sequence_rule_ok_def\<close>)
qed

text \<open>The samples a sequence value rests on.\<close>

definition supports_sequence :: "reader_sample list \<Rightarrow> reader_step list \<Rightarrow> reader_sample list \<Rightarrow> bool"
where
  "supports_sequence samples steps lined \<longleftrightarrow>
     length lined = length steps \<and> distinct (map event_id lined) \<and>
     (\<forall>i < length steps.
        filter (\<lambda>s. action_sequence s = step_action_sequence (steps ! i)) samples = [lined ! i] \<and>
        sample_known (lined ! i)) \<and>
     (\<forall>i. Suc i < length steps \<longrightarrow> before (lined ! i) (lined ! Suc i))"

lemma filter_selected:
  assumes "step \<in> set steps"
  shows "filter (\<lambda>s. action_sequence s = step_action_sequence step)
      (filter (\<lambda>s. action_sequence s \<in> step_action_sequence ` set steps) samples) =
    filter (\<lambda>s. action_sequence s = step_action_sequence step) samples"
  unfolding filter_filter using assms by (auto intro!: filter_cong)

lemma known_supports:
  fixes samples steps
  defines "selected \<equiv> filter (\<lambda>s. action_sequence s \<in> step_action_sequence ` set steps) samples"
  assumes known: "sequence_known steps (event_refs (map event_id selected)) (line_up selected steps)"
  shows "supports_sequence samples steps (line_up selected steps)"
proof -
  let ?l = "line_up selected steps"
  from known have len: "length ?l = length steps" "length (event_refs (map event_id selected)) = length steps"
    and all: "list_all sample_known ?l" and ord: "list_all (\<lambda>(l, r). before l r) (zip ?l (tl ?l))"
    by (simp_all add: sequence_known_def)
  have each: "filter (\<lambda>s. action_sequence s = step_action_sequence (steps ! i)) samples = [?l ! i]"
    if "i < length steps" for i
    using line_up_nth [OF len(1) that] filter_selected [of "steps ! i" steps samples] that
    by (simp add: selected_def)
  have "set selected \<subseteq> set ?l"
  proof
    fix s assume "s \<in> set selected"
    then obtain i where i: "i < length steps" "action_sequence s = step_action_sequence (steps ! i)"
        "s \<in> set samples"
      by (auto simp: selected_def in_set_conv_nth)
    then have "s \<in> set (filter (\<lambda>s. action_sequence s = step_action_sequence (steps ! i)) samples)"
      by simp
    with each [OF i(1)] have "s = ?l ! i" by simp
    with i(1) len(1) show "s \<in> set ?l" by simp
  qed
  then have "set (event_refs (map event_id selected)) \<subseteq> event_id ` set ?l"
    by (auto simp: event_refs_def)
  then have "card (set (event_refs (map event_id selected))) \<le> card (set (map event_id ?l))"
    by (intro card_mono) auto
  then have "length steps \<le> card (set (map event_id ?l))"
    using len(2) distinct_card [of "event_refs (map event_id selected)"] by (simp add: event_refs_def)
  with len(1) card_length [of "map event_id ?l"] have "distinct (map event_id ?l)"
    by (intro card_distinct) simp
  moreover have "before (?l ! i) (?l ! Suc i)" if "Suc i < length steps" for i
    using ord that len(1) by (auto simp: list_all_length nth_tl)
  ultimately show ?thesis
    using each all len(1) by (simp add: supports_sequence_def list_all_length)
qed

section \<open>Properties\<close>

text \<open>
  C28: a reader value rests on captured speech. For every accepted assertion and all samples the
  evaluator produces a value of that assertion without failing and never as the observer's own;
  and a definite value names events of retained samples that were captured, unredacted and spoken.
\<close>

theorem reader_values_rest_on_captures:
  assumes "valid_assertion a"
  shows "\<exists>v. derive_reader_assertion a samples = Inr v \<and> ao_assertion_id v = assertion_id a \<and>
    ao_kind v = kind a \<and> provenance v \<noteq> OBSERVER_AUTHORED \<and>
    (ao_condition v \<noteq> UNKNOWN \<longrightarrow> evidence_refs v \<noteq> [] \<and>
       (\<forall>e \<in> set (evidence_refs v). \<exists>s \<in> set samples.
          event_id s = e \<and> \<not> capture_unknown s \<and> \<not> redacted s \<and> phrase s \<noteq> None))"
proof (cases "evaluation_rule a")
  case None
  then show ?thesis by (simp add: derive_reader_assertion_def unknown_reader_def)
next
  case (Some rule)
  consider (seq) "rule_type rule = lit ''READER_NEXT_SEQUENCE''"
    | (phr) "rule_type rule = lit ''EXACT_READER_PHRASE''"
    | (other) "rule_type rule \<noteq> lit ''READER_NEXT_SEQUENCE''"
        "rule_type rule \<noteq> lit ''EXACT_READER_PHRASE''" by blast
  then show ?thesis
  proof cases
    case seq
    let ?sel = "filter (\<lambda>s. action_sequence s \<in> step_action_sequence ` set (rule_steps rule)) samples"
    let ?l = "line_up ?sel (rule_steps rule)"
    have ne: "rule_steps rule \<noteq> []" using valid_sequence_steps [OF assms Some seq] by auto
    show ?thesis
    proof (cases "sequence_known (rule_steps rule) (event_refs (map event_id ?sel)) ?l")
      case True
      then have sup: "supports_sequence samples (rule_steps rule) ?l" by (rule known_supports)
      have mem: "s \<in> set samples \<and> sample_known s" if "s \<in> set ?l" for s
      proof -
        from that obtain i where i: "i < length (rule_steps rule)" "s = ?l ! i"
          using sup by (auto simp: in_set_conv_nth supports_sequence_def)
        then have "filter (\<lambda>s. action_sequence s = step_action_sequence (rule_steps rule ! i)) samples = [s]"
          "sample_known s"
          using sup by (auto simp: supports_sequence_def)
        then show ?thesis by (auto dest: filter_single)
      qed
      have "?l \<noteq> []" using sup ne by (auto simp: supports_sequence_def)
      then obtain v where "derive_reader_assertion a samples = Inr v"
          "ao_assertion_id v = assertion_id a" "ao_kind v = kind a" "provenance v = EVALUATOR_DERIVED"
          "evidence_refs v = map event_id ?l"
        using True seq Some by (simp add: derive_reader_assertion_def derive_sequence_def Let_def)
      moreover have "\<exists>s \<in> set samples. event_id s = e \<and> \<not> capture_unknown s \<and> \<not> redacted s \<and>
          phrase s \<noteq> None" if e: "e \<in> set (map event_id ?l)" for e
      proof -
        from e obtain s where "s \<in> set ?l" "event_id s = e" by auto
        with mem [of s] show ?thesis by (intro bexI [of _ s]) (simp_all add: sample_known_def)
      qed
      ultimately show ?thesis using \<open>?l \<noteq> []\<close> by (intro exI [of _ v]) simp
    qed (use seq Some in \<open>simp add: derive_reader_assertion_def derive_sequence_def unknown_reader_def Let_def\<close>)
  next
    case phr
    from phr Some show ?thesis
      by (auto simp: derive_reader_assertion_def derive_phrase_def unknown_reader_def Let_def
          split: list.splits dest!: filter_single)
  qed (use Some in \<open>simp add: derive_reader_assertion_def unknown_reader_def\<close>)
qed

definition sample_phrase_assertion :: assertion where
  "sample_phrase_assertion =
     \<lparr>assertion_id = str ''heard'', kind = REQUIRED_ANNOUNCEMENT, description = str ''announced'',
      required = True, unknown_reasons = {READER_UNAVAILABLE},
      evaluation_rule = Some ((bare_rule (lit ''EXACT_READER_PHRASE''))
        \<lparr>rule_action_sequence := PInt 3, rule_phrase := lit ''Sent''\<rparr>)\<rparr>"

definition spoken :: "int \<Rightarrow> string \<Rightarrow> string \<Rightarrow> int \<Rightarrow> reader_sample" where
  "spoken action event said n =
     \<lparr>action_sequence = action, event_id = str event, phrase = Some (str said),
      capture_unknown = False, redacted = False, next_action_verified = True,
      canonical_sequence = Some n\<rparr>"

lemma phrase_ok_str:
  assumes "list_ex (\<lambda>c. \<not> py_space c) (str s)" and "list_all (\<lambda>c. c < 128) (str s)" and "length s < 1000"
  shows "phrase_ok (str s)"
proof -
  have "length (concat (map utf8_char t)) = length t" if "list_all (\<lambda>c. c < 128) t" for t
    using that by (induction t) (simp_all add: utf8_char_def)
  moreover have "list_all scalar (str s)"
    using assms(2) by (auto simp: list_all_iff scalar_def high_surrogate_def low_surrogate_def)
  ultimately show ?thesis
    using assms by (auto simp: phrase_ok_def blank_def encoded_within_def list_all_iff list_ex_iff
        MAX_RULE_PHRASE_CHARACTERS_def MAX_RULE_PHRASE_BYTES_def)
qed

lemma sample_texts:
  "phrase_ok (str ''Sent'')" "phrase_ok (str ''Name'')"
  "\<not> blank (str ''heard'')" "\<not> blank (str ''announced'')"
  "utf8_length (str ''Name'') = 4" "utf8_length (str ''Sent'') = 4"
      apply (rule phrase_ok_str; simp add: str_def py_space_def)
     apply (rule phrase_ok_str; simp add: str_def py_space_def)
    apply (simp_all add: blank_def str_def py_space_def utf8_length_def utf8_char_def)
  done

lemma sample_phrase_assertion_valid: "valid_assertion sample_phrase_assertion"
  by (simp add: valid_assertion_def sample_phrase_assertion_def construct_assertion_def
      valid_rule_def construct_rule_def bare_rule_def rule_ok_defs sample_texts
      MAX_RULE_ACTION_SEQUENCE_def)

lemma reader_values_rest_on_captures_witness:
  "\<exists>v. derive_reader_assertion sample_phrase_assertion [spoken 3 ''e1'' ''Sent'' 7] = Inr v \<and>
     provenance v \<noteq> OBSERVER_AUTHORED"
  using reader_values_rest_on_captures [OF sample_phrase_assertion_valid] by blast

lemma zip_phrases:
  "length ss = length ts \<Longrightarrow>
     list_all (\<lambda>(s, t). phrase s = Some (step_phrase t)) (zip ss ts) \<longleftrightarrow>
     map phrase ss = map (\<lambda>t. Some (step_phrase t)) ts"
  by (induction ss ts rule: list_induct2) auto

text \<open>
  A definite reading order was walked. When a sequence assertion gets a definite value, every
  step has exactly one sample at its action, each a verified NEXT with known speech, the samples
  are distinct events in increasing canonical order, they are the evidence of the value, and the
  value is TRUE exactly when every phrase is the frozen one.
\<close>

theorem reading_order_was_walked:
  assumes "valid_assertion a" and "evaluation_rule a = Some rule"
    and "rule_type rule = lit ''READER_NEXT_SEQUENCE''"
    and "derive_reader_assertion a samples = Inr v" and "ao_condition v \<noteq> UNKNOWN"
  shows "\<exists>lined. supports_sequence samples (rule_steps rule) lined \<and>
    evidence_refs v = map event_id lined \<and>
    (ao_condition v = TRUE \<longleftrightarrow> map phrase lined = map (\<lambda>t. Some (step_phrase t)) (rule_steps rule))"
proof -
  let ?sel = "filter (\<lambda>s. action_sequence s \<in> step_action_sequence ` set (rule_steps rule)) samples"
  let ?l = "line_up ?sel (rule_steps rule)"
  have known: "sequence_known (rule_steps rule) (event_refs (map event_id ?sel)) ?l"
    using assms(2-5)
    by (auto simp: derive_reader_assertion_def derive_sequence_def unknown_reader_def Let_def
        split: if_splits)
  then have sup: "supports_sequence samples (rule_steps rule) ?l" by (rule known_supports)
  then have len: "length ?l = length (rule_steps rule)" by (simp add: supports_sequence_def)
  from assms(2-4) known have
    "outcome_of a (if list_all (\<lambda>(s, t). phrase s = Some (step_phrase t)) (zip ?l (rule_steps rule))
       then TRUE else FALSE) EVALUATOR_DERIVED (map event_id ?l) None = Inr v"
    by (simp add: derive_reader_assertion_def derive_sequence_def Let_def)
  from outcome_of_Inr [OF this] sup show ?thesis
    by (intro exI [of _ ?l]) (simp add: zip_phrases [OF len])
qed

definition sample_order_assertion :: assertion where
  "sample_order_assertion =
     \<lparr>assertion_id = str ''heard'', kind = READING_ORDER, description = str ''announced'',
      required = True, unknown_reasons = {READER_UNAVAILABLE},
      evaluation_rule = Some ((bare_rule (lit ''READER_NEXT_SEQUENCE''))
        \<lparr>rule_steps := [\<lparr>step_action_sequence = 1, step_phrase = str ''Name''\<rparr>,
                        \<lparr>step_action_sequence = 2, step_phrase = str ''Sent''\<rparr>]\<rparr>)\<rparr>"

lemma sample_order_assertion_valid: "valid_assertion sample_order_assertion"
  by (simp add: valid_assertion_def sample_order_assertion_def construct_assertion_def valid_step_def
      valid_rule_def construct_rule_def bare_rule_def rule_ok_defs sample_texts
      MAX_RULE_ACTION_SEQUENCE_def MAX_READER_SEQUENCE_STEPS_def
      MAX_RULE_PHRASE_BYTES_def)

lemma reading_order_was_walked_witness:
  "\<exists>v (lined :: reader_sample list). derive_reader_assertion sample_order_assertion
       [spoken 1 ''e1'' ''Name'' 4, spoken 2 ''e2'' ''Oops'' 5] = Inr v \<and>
     evidence_refs v = map event_id lined \<and> ao_condition v \<noteq> UNKNOWN"
proof -
  let ?s = "[spoken 1 ''e1'' ''Name'' 4, spoken 2 ''e2'' ''Oops'' 5]"
  have "\<exists>v. derive_reader_assertion sample_order_assertion ?s = Inr v \<and> ao_condition v \<noteq> UNKNOWN"
    by (simp add: derive_reader_assertion_def sample_order_assertion_def bare_rule_def
        derive_sequence_def spoken_def event_refs_def sequence_known_def sample_known_def before_def
        Let_def)
  then obtain v where v: "derive_reader_assertion sample_order_assertion ?s = Inr v"
      "ao_condition v \<noteq> UNKNOWN" by blast
  let ?r = "(bare_rule (lit ''READER_NEXT_SEQUENCE''))
      \<lparr>rule_steps := [\<lparr>step_action_sequence = 1, step_phrase = str ''Name''\<rparr>,
                      \<lparr>step_action_sequence = 2, step_phrase = str ''Sent''\<rparr>]\<rparr>"
  have rule: "evaluation_rule sample_order_assertion = Some ?r"
    "rule_type ?r = lit ''READER_NEXT_SEQUENCE''"
    by (simp_all add: sample_order_assertion_def bare_rule_def)
  from reading_order_was_walked [OF sample_order_assertion_valid rule v]
  obtain lined :: "reader_sample list" where "evidence_refs v = map event_id lined" by blast
  with v show ?thesis by (intro exI conjI)
qed

text \<open>
  Focus is decided by one verified native capture. For every accepted focus assertion the
  value is definite exactly when a single sample stands at the frozen action, after a verified
  action, with a known role and identifier digest and an event to point at; and it is TRUE exactly
  when that role and digest are the frozen ones. Speech plays no part.
\<close>

theorem focus_needs_one_verified_capture:
  assumes "evaluation_rule a = Some rule" and "rule_type rule = lit ''EXACT_NATIVE_KEYBOARD_FOCUS''"
  shows "\<exists>v. derive_keyboard_focus_assertion a samples = Inr v \<and>
    (ao_condition v \<noteq> UNKNOWN \<longleftrightarrow>
       (\<exists>s. filter (\<lambda>s. PInt (focus_action_sequence s) = rule_action_sequence rule) samples = [s] \<and>
          focus_event_id s \<noteq> [] \<and> focus_known s)) \<and>
    (ao_condition v = TRUE \<longrightarrow>
       (\<exists>s \<in> set samples. focus_known s \<and> focus_matches s rule \<and> focus_event_id s \<in> set (evidence_refs v)))"
proof -
  let ?sel = "filter (\<lambda>s. PInt (focus_action_sequence s) = rule_action_sequence rule) samples"
  consider (one) s where "?sel = [s]" "focus_event_id s \<noteq> []" "focus_known s"
    | (none) "\<nexists>s. ?sel = [s] \<and> focus_event_id s \<noteq> [] \<and> focus_known s" by blast
  then show ?thesis
  proof cases
    case one
    from filter_single [OF one(1)] have "s \<in> set samples" by simp
    with one assms show ?thesis
      by (auto simp: derive_keyboard_focus_assertion_def event_refs_def Let_def)
  next
    case none
    have "\<exists>v. derive_keyboard_focus_assertion a samples = Inr v \<and> ao_condition v = UNKNOWN"
    proof (cases ?sel)
      case Nil
      with assms show ?thesis by (simp add: derive_keyboard_focus_assertion_def Let_def)
    next
      case (Cons s rest)
      show ?thesis
      proof (cases rest)
        case Nil
        with none Cons have "event_refs [focus_event_id s] = [] \<or> \<not> focus_known s"
          by (auto simp: event_refs_def)
        with assms Cons Nil show ?thesis by (auto simp: derive_keyboard_focus_assertion_def Let_def)
      qed (use assms Cons in \<open>simp add: derive_keyboard_focus_assertion_def Let_def\<close>)
    qed
    then obtain v where v: "derive_keyboard_focus_assertion a samples = Inr v" "ao_condition v = UNKNOWN"
      by blast
    with none show ?thesis by (intro exI [of _ v]) auto
  qed
qed

definition sample_focus :: assertion where
  "sample_focus =
     \<lparr>assertion_id = str ''focus'', kind = FOCUS_BEHAVIOUR, description = str ''send button'',
      required = True, unknown_reasons = {READER_UNAVAILABLE},
      evaluation_rule = Some ((bare_rule (lit ''EXACT_NATIVE_KEYBOARD_FOCUS''))
        \<lparr>rule_action_sequence := PInt 2, rule_role := lit ''AXButton'',
         rule_identifier_digest := PStr (replicate 64 97)\<rparr>)\<rparr>"

lemma focus_needs_one_verified_capture_witness:
  "\<exists>v. derive_keyboard_focus_assertion sample_focus [] = Inr v \<and> ao_condition v = UNKNOWN"
proof -
  let ?r = "(bare_rule (lit ''EXACT_NATIVE_KEYBOARD_FOCUS''))
        \<lparr>rule_action_sequence := PInt 2, rule_role := lit ''AXButton'',
         rule_identifier_digest := PStr (replicate 64 97)\<rparr>"
  have "evaluation_rule sample_focus = Some ?r"
    "rule_type ?r = lit ''EXACT_NATIVE_KEYBOARD_FOCUS''"
    by (simp_all add: sample_focus_def bare_rule_def)
  from focus_needs_one_verified_capture [OF this, of "[]"] show ?thesis by auto
qed

lemma monitor_document:
  assumes "PDict kvs \<in> set (monitor_assertions as w m d)"
  shows "\<exists>a \<in> set as. kind a = FORBIDDEN_EFFECT \<and>
    get_item kvs ''assertionId'' = Some (PStr (assertion_id a)) \<and>
    get_item kvs ''condition'' = Some (PStr (condition_value (absence_condition a w m d)))"
  using assms by (auto simp: monitor_assertions_def authored_def Let_def)

lemma condition_value_TRUE [simp]: "str ''TRUE'' = condition_value c \<longleftrightarrow> c = TRUE"
  by (cases c) simp_all

text \<open>
  An effect reported absent was watched throughout. When the independent monitor authors TRUE
  for an assertion, that assertion is a forbidden effect whose frozen rule names exactly this
  effect and this measurement scope, every tick of the execution window was measured, and no
  interval saw an occurrence.
\<close>

theorem absent_effects_were_watched:
  assumes "window_ok w" and "coverage_ok m" and "list_all interval_ok (intervals m)"
    and "PDict kvs \<in> set (effect_monitor_assertions as w (Some m))"
    and "get_item kvs ''condition'' = Some (lit ''TRUE'')"
  shows "(\<exists>a \<in> set as. kind a = FORBIDDEN_EFFECT \<and>
      get_item kvs ''assertionId'' = Some (PStr (assertion_id a)) \<and>
      (\<exists>rule. evaluation_rule a = Some rule \<and> rule_effect rule = PStr (effect w) \<and>
         rule_scope_digest rule = PStr (scope_digest w))) \<and>
    (\<forall>i \<in> set (intervals m). occurrences i = 0) \<and>
    (\<forall>t. window_start_ns w \<le> t \<and> t < window_end_ns w \<longrightarrow> measured_at (intervals m) t)"
proof -
  from monitor_document [OF assms(4) [unfolded effect_monitor_assertions_def]] assms(5)
  obtain a where a: "a \<in> set as" "kind a = FORBIDDEN_EFFECT"
      "get_item kvs ''assertionId'' = Some (PStr (assertion_id a))"
      "absence_condition a w (Some m) (scope_digest w) = TRUE"
    by auto
  then have "assess_effect_absence w (Some m) = TRUE"
    and "\<exists>rule. evaluation_rule a = Some rule \<and> rule_effect rule = PStr (effect w) \<and>
         rule_scope_digest rule = PStr (scope_digest w)"
    by (auto simp: absence_condition_def split: option.splits if_splits)
  with a absence_measured [OF assms(1-3)] show ?thesis by blast
qed

definition sample_forbidden :: assertion where
  "sample_forbidden =
     \<lparr>assertion_id = str ''quiet'', kind = FORBIDDEN_EFFECT, description = str ''no mail'',
      required = True, unknown_reasons = {OBSERVER_UNREACHABLE},
      evaluation_rule = Some ((bare_rule (lit ''CONTINUOUS_EFFECT_ABSENCE''))
        \<lparr>rule_effect := lit ''SEND_EMAIL'', rule_scope_digest := PStr (replicate 64 97)\<rparr>)\<rparr>"

definition full_coverage :: effect_coverage where
  "full_coverage =
     \<lparr>window = sample_window, intervals = [\<lparr>start_ns = 10, end_ns = 30, occurrences = 0\<rparr>]\<rparr>"

lemma absent_effects_were_watched_witness: "measured_at (intervals full_coverage) 29"
proof -
  have "window_ok sample_window" by (rule sample_window_ok)
  moreover have "coverage_ok full_coverage" "list_all interval_ok (intervals full_coverage)"
    by (simp_all add: coverage_ok_def full_coverage_def sample_window_def MAX_INTERVALS_def
        interval_ok_def tick_def)
  moreover have "authored sample_forbidden TRUE [] \<in>
      set (effect_monitor_assertions [sample_forbidden] sample_window (Some full_coverage))"
    by (simp add: effect_monitor_assertions_def monitor_assertions_def absence_condition_def
        sample_forbidden_def bare_rule_def sample_window_def full_coverage_def
        assess_effect_absence_def)
  ultimately show ?thesis
    using absent_effects_were_watched [of sample_window full_coverage]
    by (auto simp: authored_def sample_window_def)
qed

end
