(* ===== verification/Regex.thy ===== *)
theory Regex
  imports Prelude
begin

text \<open>
  The fragment of \<open>re\<close> the repository uses: an executable matcher that computes the positions a
  pattern can end at, and its agreement with the declarative reading of the pattern. Only whether
  a pattern matches matters to the callers, so greediness plays no part. A character class is a
  predicate; word characters beyond ASCII are a parameter of the patterns that use them.
\<close>

section \<open>Patterns\<close>

datatype re =
    Eps
  | Chr "code_point \<Rightarrow> bool"
  | Seq re re
  | Alt re re
  | Star re
  | Bol
  | Eol
  | Boundary "code_point \<Rightarrow> bool"
  | Not_After "code_point \<Rightarrow> bool"

fun closure :: "nat \<Rightarrow> (nat \<Rightarrow> nat list) \<Rightarrow> nat list \<Rightarrow> nat list" where
  "closure 0 f seen = seen"
| "closure (Suc n) f seen =
     (let new = filter (\<lambda>j. j \<notin> set seen) (remdups (concat (map f seen)))
      in if new = [] then seen else closure n f (seen @ new))"

primrec ends :: "re \<Rightarrow> pytext \<Rightarrow> nat \<Rightarrow> nat list" where
  "ends Eps s i = [i]"
| "ends (Chr p) s i = (if i < length s \<and> p (s ! i) then [Suc i] else [])"
| "ends (Seq a b) s i = concat (map (ends b s) (ends a s i))"
| "ends (Alt a b) s i = ends a s i @ ends b s i"
| "ends (Star a) s i = closure (Suc (length s)) (ends a s) [i]"
| "ends Bol s i = (if i = 0 then [i] else [])"
| "ends Eol s i = (if i = length s \<or> Suc i = length s \<and> s ! i = 10 then [i] else [])"
| "ends (Boundary w) s i =
     (if (0 < i \<and> w (s ! (i - 1))) \<noteq> (i < length s \<and> w (s ! i)) then [i] else [])"
| "ends (Not_After p) s i = (if 0 < i \<and> p (s ! (i - 1)) then [] else [i])"

definition search :: "re \<Rightarrow> pytext \<Rightarrow> bool" where
  "search r s \<longleftrightarrow> list_ex (\<lambda>i. ends r s i \<noteq> []) [0..<Suc (length s)]"

definition fullmatch :: "re \<Rightarrow> pytext \<Rightarrow> bool" where
  "fullmatch r s \<longleftrightarrow> length s \<in> set (ends r s 0)"

text \<open>Derived patterns.\<close>

fun word_of :: "(code_point \<Rightarrow> code_point \<Rightarrow> bool) \<Rightarrow> pytext \<Rightarrow> re" where
  "word_of eq [] = Eps"
| "word_of eq (c # cs) = Seq (Chr (eq c)) (word_of eq cs)"

definition text_re :: "string \<Rightarrow> re" where
  "text_re t = word_of (=) (str t)"

text \<open>
  With \<open>re.IGNORECASE\<close> a letter matches its other case, and three letters match four code points
  beyond ASCII: i (0x130 and 0x131), k (0x212A) and s (0x17F).
\<close>

definition lower :: "code_point \<Rightarrow> code_point" where
  "lower c = (if 65 \<le> c \<and> c \<le> 90 then c + 32 else c)"

definition folds :: "code_point \<Rightarrow> code_point \<Rightarrow> bool" where
  "folds p c \<longleftrightarrow> lower p = lower c \<or>
     lower p = 105 \<and> (c = 0x130 \<or> c = 0x131) \<or> lower p = 107 \<and> c = 0x212A \<or>
     lower p = 115 \<and> c = 0x17F"

definition itext :: "string \<Rightarrow> re" where
  "itext t = word_of folds (str t)"

fun alts :: "re list \<Rightarrow> re" where
  "alts [] = Chr (\<lambda>_. False)"
| "alts [r] = r"
| "alts (r # rs) = Alt r (alts rs)"

fun seqs :: "re list \<Rightarrow> re" where
  "seqs [] = Eps"
| "seqs [r] = r"
| "seqs (r # rs) = Seq r (seqs rs)"

definition opt :: "re \<Rightarrow> re" where
  "opt r = Alt Eps r"

definition plus_re :: "re \<Rightarrow> re" where
  "plus_re r = Seq r (Star r)"

fun exactly :: "nat \<Rightarrow> re \<Rightarrow> re" where
  "exactly 0 r = Eps"
| "exactly (Suc n) r = Seq r (exactly n r)"

definition at_least :: "nat \<Rightarrow> re \<Rightarrow> re" where
  "at_least n r = Seq (exactly n r) (Star r)"

section \<open>The declarative reading\<close>

inductive matches :: "re \<Rightarrow> pytext \<Rightarrow> nat \<Rightarrow> nat \<Rightarrow> bool" where
  m_Eps: "matches Eps s i i"
| m_Chr: "i < length s \<Longrightarrow> p (s ! i) \<Longrightarrow> matches (Chr p) s i (Suc i)"
| m_Seq: "matches a s i j \<Longrightarrow> matches b s j k \<Longrightarrow> matches (Seq a b) s i k"
| m_Alt1: "matches a s i j \<Longrightarrow> matches (Alt a b) s i j"
| m_Alt2: "matches b s i j \<Longrightarrow> matches (Alt a b) s i j"
| m_Star0: "matches (Star a) s i i"
| m_Star: "matches (Star a) s i j \<Longrightarrow> matches a s j k \<Longrightarrow> matches (Star a) s i k"
| m_Bol: "matches Bol s 0 0"
| m_Eol: "i = length s \<or> Suc i = length s \<and> s ! i = 10 \<Longrightarrow> matches Eol s i i"
| m_Boundary: "(0 < i \<and> w (s ! (i - 1))) \<noteq> (i < length s \<and> w (s ! i)) \<Longrightarrow>
    matches (Boundary w) s i i"
| m_Not_After: "\<not> (0 < i \<and> p (s ! (i - 1))) \<Longrightarrow> matches (Not_After p) s i i"

inductive_cases matches_EpsE [elim!]: "matches Eps s i j"
inductive_cases matches_ChrE [elim!]: "matches (Chr p) s i j"
inductive_cases matches_SeqE [elim!]: "matches (Seq a b) s i j"
inductive_cases matches_AltE [elim!]: "matches (Alt a b) s i j"
inductive_cases matches_BolE [elim!]: "matches Bol s i j"
inductive_cases matches_EolE [elim!]: "matches Eol s i j"
inductive_cases matches_BoundaryE [elim!]: "matches (Boundary w) s i j"
inductive_cases matches_Not_AfterE [elim!]: "matches (Not_After p) s i j"

section \<open>Agreement\<close>

lemma closure_reach:
  assumes "\<forall>i \<le> m. set (f i) \<subseteq> {..m}" and "set seen \<subseteq> {..m}" and "distinct seen"
    and "m + 1 \<le> length seen + n"
  shows "set (closure n f seen) = {j. \<exists>i \<in> set seen. (\<lambda>i j. j \<in> set (f i))\<^sup>*\<^sup>* i j}"
  using assms(2-4)
proof (induction n arbitrary: seen)
  case 0
  then have "card (set seen) = length seen" by (simp add: distinct_card)
  with 0 have "card {..m} \<le> card (set seen)" by simp
  with 0 have all: "set seen = {..m}" by (intro card_seteq) auto
  have "j \<in> {..m}" if "(\<lambda>i j. j \<in> set (f i))\<^sup>*\<^sup>* i j" "i \<in> {..m}" for i j
    using that by (induction rule: rtranclp_induct) (use assms(1) in auto)
  with all show ?case by auto
next
  case (Suc n)
  let ?R = "\<lambda>i j. j \<in> set (f i)"
  let ?new = "filter (\<lambda>j. j \<notin> set seen) (remdups (concat (map f seen)))"
  show ?case
  proof (cases "?new = []")
    case True
    then have closed: "set (f i) \<subseteq> set seen" if "i \<in> set seen" for i
      using that by (auto simp: filter_empty_conv)
    have "j \<in> set seen" if "?R\<^sup>*\<^sup>* i j" "i \<in> set seen" for i j
      using that by (induction rule: rtranclp_induct) (use closed in auto)
    with True show ?thesis by (auto simp: Let_def)
  next
    case False
    have sub: "set ?new \<subseteq> {..m}" using assms(1) Suc.prems(1) by auto
    have "set (closure n f (seen @ ?new)) = {j. \<exists>i \<in> set (seen @ ?new). ?R\<^sup>*\<^sup>* i j}"
    proof (rule Suc.IH)
      show "set (seen @ ?new) \<subseteq> {..m}" using sub Suc.prems(1) by simp
      show "distinct (seen @ ?new)" using Suc.prems(2) by auto
      from False have "0 < length ?new" by (rule length_greater_0_conv [THEN iffD2])
      then show "m + 1 \<le> length (seen @ ?new) + n"
        using Suc.prems(3) unfolding length_append by linarith
    qed
    also have "\<dots> = {j. \<exists>i \<in> set seen. ?R\<^sup>*\<^sup>* i j}"
      by (auto intro: converse_rtranclp_into_rtranclp)
    finally show ?thesis using False by (simp add: Let_def)
  qed
qed

lemma ends_bounded: "i \<le> length s \<Longrightarrow> set (ends r s i) \<subseteq> {..length s}"
proof (induction r arbitrary: i)
  case (Star r)
  have "j \<le> length s" if "(\<lambda>i j. j \<in> set (ends r s i))\<^sup>*\<^sup>* i j" for j
    using that Star.prems by (induction rule: rtranclp_induct) (use Star.IH in auto)
  moreover have "set (ends (Star r) s i) = {j. (\<lambda>i j. j \<in> set (ends r s i))\<^sup>*\<^sup>* i j}"
    using closure_reach [of "length s" "ends r s" "[i]" "Suc (length s)"] Star by simp
  ultimately show ?case by auto
next
  case (Seq a b)
  have "set (ends b s k) \<subseteq> {..length s}" if "k \<in> set (ends a s i)" for k
    using Seq.IH(1) [OF Seq.prems] Seq.IH(2) that by auto
  then show ?case by auto
qed (auto split: if_splits)

lemma ends_Star:
  assumes "i \<le> length s"
  shows "set (ends (Star r) s i) = {j. (\<lambda>i j. j \<in> set (ends r s i))\<^sup>*\<^sup>* i j}"
  using closure_reach [of "length s" "ends r s" "[i]" "Suc (length s)"] assms ends_bounded by simp

lemma matches_Star_iff: "matches (Star a) s i j \<longleftrightarrow> (matches a s)\<^sup>*\<^sup>* i j"
proof
  assume "matches (Star a) s i j"
  then show "(matches a s)\<^sup>*\<^sup>* i j"
    by (induction "Star a" s i j rule: matches.induct) (auto intro: rtranclp.rtrancl_into_rtrancl)
next
  assume "(matches a s)\<^sup>*\<^sup>* i j"
  then show "matches (Star a) s i j"
    by (induction rule: rtranclp_induct) (auto intro: m_Star0 m_Star)
qed

lemma matches_bounded: "matches r s i j \<Longrightarrow> i \<le> length s \<Longrightarrow> j \<le> length s"
  by (induction rule: matches.induct) auto

theorem ends_iff: "i \<le> length s \<Longrightarrow> j \<in> set (ends r s i) \<longleftrightarrow> matches r s i j"
proof (induction r arbitrary: i j)
  case (Seq a b)
  have "k \<le> length s" if "k \<in> set (ends a s i)" for k
    using ends_bounded [OF Seq.prems, of a] that by auto
  with Seq show ?case by (fastforce intro: m_Seq dest: matches_bounded)
next
  case (Star a)
  have "(\<lambda>i j. j \<in> set (ends a s i))\<^sup>*\<^sup>* i j \<longleftrightarrow> (matches a s)\<^sup>*\<^sup>* i j"
  proof
    assume "(\<lambda>i j. j \<in> set (ends a s i))\<^sup>*\<^sup>* i j"
    then have "(matches a s)\<^sup>*\<^sup>* i j \<and> j \<le> length s"
      by (induction rule: rtranclp_induct)
        (use Star in \<open>auto intro: rtranclp.rtrancl_into_rtrancl matches_bounded\<close>)
    then show "(matches a s)\<^sup>*\<^sup>* i j" ..
  next
    assume "(matches a s)\<^sup>*\<^sup>* i j"
    then have "(\<lambda>i j. j \<in> set (ends a s i))\<^sup>*\<^sup>* i j \<and> j \<le> length s"
      by (induction rule: rtranclp_induct)
        (use Star in \<open>auto intro: rtranclp.rtrancl_into_rtrancl matches_bounded\<close>)
    then show "(\<lambda>i j. j \<in> set (ends a s i))\<^sup>*\<^sup>* i j" ..
  qed
  with Star.prems show ?case by (simp only: ends_Star matches_Star_iff mem_Collect_eq)
qed (auto intro: matches.intros split: if_splits)

lemma search_iff: "search r s \<longleftrightarrow> (\<exists>i \<le> length s. \<exists>j. matches r s i j)"
proof -
  have "ends r s i \<noteq> [] \<longleftrightarrow> (\<exists>j. matches r s i j)" if "i \<le> length s" for i
    using ends_iff [OF that, of _ r] by (metis list.set_intros(1) neq_Nil_conv empty_iff list.set(1))
  moreover have "i \<in> set [0..<Suc (length s)] \<longleftrightarrow> i \<le> length s" for i
    by auto
  ultimately show ?thesis unfolding search_def list_ex_iff by blast
qed

lemma fullmatch_iff: "fullmatch r s \<longleftrightarrow> matches r s 0 (length s)"
  by (simp add: fullmatch_def ends_iff)

end
