(* ===== verification/Patch_Policy.thy ===== *)
theory Patch_Policy
  imports Regex "HOL-Library.Sublist"
begin

text \<open>
  What a repair patch may touch (\<open>patch_policy.py\<close>): refusals on the shape of a path, protected
  paths, the declared repair surface and paths that need separate review. The word characters of
  \<open>\b\<close> are the parameter \<open>word\<close>.
\<close>

section \<open>Changes and rulings\<close>

definition SYMLINK_MODE :: pytext where
  "SYMLINK_MODE = str ''120000''"

datatype change_verdict = ALLOWED | REFUSED | SEPARATELY_REVIEWED

record proposed_change =
  change_path :: pytext
  content :: "pytext option"
  mode :: "pytext option"
  binary :: bool

record change_ruling =
  ruling_path :: pytext
  ruling_verdict :: change_verdict
  ruling_reason :: pytext

type_synonym patch_inspection = "change_ruling list"

definition refusals :: "patch_inspection \<Rightarrow> change_ruling list" where
  "refusals rulings = filter (\<lambda>r. ruling_verdict r = REFUSED) rulings"

definition separately_reviewed :: "patch_inspection \<Rightarrow> change_ruling list" where
  "separately_reviewed rulings = filter (\<lambda>r. ruling_verdict r = SEPARATELY_REVIEWED) rulings"

definition allowed :: "patch_inspection \<Rightarrow> change_ruling list" where
  "allowed rulings = filter (\<lambda>r. ruling_verdict r = ALLOWED) rulings"

definition acceptable :: "patch_inspection \<Rightarrow> bool" where
  "acceptable rulings \<longleftrightarrow> refusals rulings = [] \<and> rulings \<noteq> []"

fun join_with :: "pytext \<Rightarrow> pytext list \<Rightarrow> pytext" where
  "join_with sep [] = []"
| "join_with sep [p] = p"
| "join_with sep (p # q # ps) = p @ sep @ join_with sep (q # ps)"

definition explain :: "patch_inspection \<Rightarrow> pytext" where
  "explain rulings =
     (if rulings = [] then str ''the patch changes nothing, so there is nothing to review''
      else join_with [10]
        (map (\<lambda>r. str ''refused: '' @ ruling_path r @ str '' -- '' @ ruling_reason r)
           (refusals rulings) @
         map (\<lambda>r. str ''needs separate review: '' @ ruling_path r @ str '' -- '' @ ruling_reason r)
           (separately_reviewed rulings) @
         [show_nat (length (allowed rulings)) @ str '' application path(s) allowed, '' @
          show_nat (length (refusals rulings)) @ str '' refused, '' @
          show_nat (length (separately_reviewed rulings)) @ str '' needing separate review'']))"

section \<open>Patterns\<close>

text \<open>All of them are searched with \<open>re.IGNORECASE\<close>.\<close>

definition at_segment :: re where
  "at_segment = Alt Bol (Chr (\<lambda>c. c = 47))"

definition segment_end :: re where
  "segment_end = Alt (Chr (\<lambda>c. c = 47)) Eol"

definition in_segment :: re where
  "in_segment = Star (Chr (\<lambda>c. c \<noteq> 47))"

definition ialpha :: "code_point \<Rightarrow> bool" where
  "ialpha c \<longleftrightarrow> 97 \<le> lower c \<and> lower c \<le> 122 \<or> c \<in> {0x130, 0x131, 0x212A, 0x17F}"

definition ialnum :: "code_point \<Rightarrow> bool" where
  "ialnum c \<longleftrightarrow> ialpha c \<or> is_digit c"

definition PROTECTED_PATTERNS :: "(code_point \<Rightarrow> bool) \<Rightarrow> (re \<times> pytext) list" where
  "PROTECTED_PATTERNS word =
     [(seqs [at_segment,
             alts [seqs [itext ''test'', opt (itext ''s'')], itext ''spec'', itext ''specs'',
                   itext ''__tests__'', itext ''e2e'', itext ''cypress'', itext ''playwright''],
             segment_end],
       str ''protected tests. A repair that edits the test it must satisfy is not a repair, and this '' @
       str ''is the single cheapest way to make a failing assertion pass''),
      (seqs [at_segment, in_segment,
             alts [itext ''_test'', itext ''_spec'', itext ''.test'', itext ''.spec''],
             itext ''.'', plus_re (Chr ialnum), Eol],
       str ''a protected test file, for the same reason''),
      (seqs [at_segment, itext ''test_'', in_segment, itext ''.py'', Eol],
       str ''a protected test file, for the same reason''),
      (seqs [at_segment, in_segment,
             alts [itext ''authoriz'', itext ''authentic'', itext ''permission'',
                   itext ''entitlement'', seqs [Boundary word, itext ''rbac'', Boundary word]],
             in_segment],
       str ''authorization. 'The submission succeeds now' is trivially achievable by deleting the '' @
       str ''permission check, and that change would verify cleanly''),
      (seqs [at_segment, in_segment, alts [itext ''consent'', itext ''privacy'', itext ''gdpr''],
             in_segment],
       str ''consent or privacy policy. Neither is an accessibility defect and neither may be edited '' @
       str ''to make one easier to fix''),
      (seqs [at_segment, in_segment, alts [itext ''valid'', itext ''sanitiz'', itext ''sanitis''],
             in_segment],
       str ''input validation. The journey under test is about the error message a validator produces; '' @
       str ''deleting the validator removes the error instead of announcing it properly''),
      (seqs [at_segment,
             alts [itext ''.github'', itext ''.gitlab-ci.yml'', itext ''.circleci'',
                   itext ''azure-pipelines.yml'', itext ''Jenkinsfile''],
             segment_end],
       str ''continuous integration configuration. A patch that edits the pipeline chooses how it is '' @
       str ''checked''),
      (seqs [at_segment, in_segment,
             alts [itext ''secret'', itext ''credential'', itext ''.pem'', itext ''.key'',
                   itext ''id_rsa''],
             in_segment],
       str ''credentials. Nothing about an accessibility repair requires touching them''),
      (seqs [at_segment, itext ''.env''],
       str ''environment configuration, which selects the backend a candidate talks to''),
      (seqs [at_segment,
             alts [itext ''Dockerfile'', seqs [itext ''docker-compose'', in_segment],
                   itext ''Makefile'', itext ''justfile'', seqs [itext ''Taskfile'', in_segment]],
             Eol],
       str ''execution tooling, which decides how the candidate is built and run''),
      (seqs [at_segment,
             alts [seqs [itext ''packages/'', alts [itext ''domain'', itext ''evidence'']],
                   seqs [itext ''apps/'', alts [itext ''api'', itext ''orchestrator'']]],
             itext ''/''],
       str ''AccessForge's own evaluator and evidence code. A patch that can reach the thing deciding '' @
       str ''whether it worked is a patch that grades itself (INV-03)''),
      (seqs [at_segment, in_segment, alts [itext ''fixture'', itext ''oracle''], in_segment],
       str ''the fixture oracle, which defines what the journey expects. Changing it changes the task '' @
       str ''rather than completing it'')]"

definition SEPARATE_REVIEW_PATTERNS :: "(re \<times> pytext) list" where
  "SEPARATE_REVIEW_PATTERNS =
     [(seqs [at_segment,
             alts [itext ''package-lock.json'', itext ''pnpm-lock.yaml'', itext ''yarn.lock'',
                   itext ''npm-shrinkwrap.json'', itext ''uv.lock'', itext ''poetry.lock'',
                   itext ''Pipfile.lock'', itext ''Gemfile.lock'', itext ''Cargo.lock'',
                   itext ''go.sum'', itext ''composer.lock''],
             Eol],
       str ''a dependency lockfile: it changes the exact bytes the candidate is built from''),
      (seqs [at_segment,
             alts [itext ''package.json'', itext ''pyproject.toml'',
                   seqs [itext ''requirements'', in_segment, itext ''.txt''], itext ''Gemfile'',
                   itext ''Cargo.toml'', itext ''go.mod'', itext ''composer.json'',
                   seqs [itext ''build.gradle'', in_segment], itext ''pom.xml''],
             Eol],
       str ''a dependency manifest: it changes what the candidate is built from''),
      (seqs [at_segment,
             alts [seqs [itext ''tsconfig'', in_segment, itext ''.json''],
                   seqs [itext ''vite.config.'', plus_re (Chr ialpha)],
                   seqs [itext ''webpack.config.'', plus_re (Chr ialpha)],
                   seqs [itext ''rollup.config.'', plus_re (Chr ialpha)],
                   seqs [itext ''babel.config.'', plus_re (Chr ialpha)]],
             Eol],
       str ''build policy: it changes how the candidate is produced'')]"

fun matches_any :: "pytext \<Rightarrow> (re \<times> pytext) list \<Rightarrow> pytext option" where
  "matches_any path [] = None"
| "matches_any path ((pattern, reason) # ps) =
     (if search pattern path then Some reason else matches_any path ps)"

section \<open>Rulings\<close>

definition shape_refusal :: "proposed_change \<Rightarrow> pytext option" where
  "shape_refusal change =
     (let path = change_path change in
      if path = [] \<or> path \<noteq> strip path then
        Some (str ''an empty or space-padded path, which names no file a reviewer could check'')
      else if startswith path (str ''/'') then
        Some (str ''an absolute path, which is outside the candidate workspace by construction'')
      else if startswith path (str ''~'') then
        Some (str ''a home-relative path, which is outside the candidate workspace'')
      else if 92 \<in> set path then
        Some (str ''a backslash in the path. Windows separators are not normalised here, so this would be '' @
              str ''one filename on the proposing side and a directory traversal on the applying side'')
      else if 0 \<in> set path then Some (str ''a null byte in the path'')
      else if str ''..'' \<in> set (split_on 47 path) then
        Some (str ''path traversal, which writes outside the candidate workspace (INV-16)'')
      else if mode change = Some SYMLINK_MODE then
        Some (str ''a symbolic link. Every path in the diff stays inside the tree while the link points '' @
              str ''wherever the build user can read -- the host's credentials included (INV-16)'')
      else if binary change then
        Some (str ''a binary replacement. A reviewer cannot read it, so approving it approves bytes '' @
              str ''nobody has seen'')
      else None)"

definition rstrip_slash :: "pytext \<Rightarrow> pytext" where
  "rstrip_slash p = rev (dropWhile (\<lambda>c. c = 47) (rev p))"

definition in_surface :: "pytext \<Rightarrow> pytext list \<Rightarrow> bool" where
  "in_surface path surface \<longleftrightarrow>
     list_ex (\<lambda>p. path = p \<or> startswith path (rstrip_slash p @ str ''/'')) surface"

definition rule_change ::
  "(code_point \<Rightarrow> bool) \<Rightarrow> pytext list \<Rightarrow> proposed_change \<Rightarrow> change_ruling" where
  "rule_change word surface change =
     (let ruling = (\<lambda>v why. \<lparr>ruling_path = change_path change, ruling_verdict = v,
                             ruling_reason = why\<rparr>)
      in case shape_refusal change of
           Some why \<Rightarrow> ruling REFUSED why
         | None \<Rightarrow>
             (case matches_any (change_path change) (PROTECTED_PATTERNS word) of
                Some why \<Rightarrow> ruling REFUSED why
              | None \<Rightarrow>
                  if surface \<noteq> [] \<and> \<not> in_surface (change_path change) surface then
                    ruling REFUSED
                      (str ''outside the repair surface this project declared ('' @
                       join_with (str '', '') surface @ str '')'')
                  else
                    (case matches_any (change_path change) SEPARATE_REVIEW_PATTERNS of
                       Some why \<Rightarrow> ruling SEPARATELY_REVIEWED why
                     | None \<Rightarrow> ruling ALLOWED (str ''application code within the surface''))))"

definition inspect_patch ::
  "(code_point \<Rightarrow> bool) \<Rightarrow> proposed_change list \<Rightarrow> pytext list \<Rightarrow> patch_inspection" where
  "inspect_patch word changes surface = map (rule_change word surface) changes"

section \<open>Facts\<close>

lemma matches_any_None:
  "matches_any path ps = None \<longleftrightarrow> (\<forall>p \<in> set ps. \<not> search (fst p) path)"
  by (induction path ps rule: matches_any.induct) auto

lemma rule_change_verdict:
  "ruling_verdict (rule_change word surface change) = REFUSED \<longleftrightarrow>
     shape_refusal change \<noteq> None \<or> matches_any (change_path change) (PROTECTED_PATTERNS word) \<noteq> None \<or>
     surface \<noteq> [] \<and> \<not> in_surface (change_path change) surface"
  by (auto simp: rule_change_def Let_def split: option.splits)

lemma acceptable_iff:
  "acceptable (inspect_patch word changes surface) \<longleftrightarrow>
     changes \<noteq> [] \<and> (\<forall>c \<in> set changes. ruling_verdict (rule_change word surface c) \<noteq> REFUSED)"
  by (auto simp: acceptable_def refusals_def inspect_patch_def filter_empty_conv)

lemma shape_refusal_None:
  "shape_refusal c = None \<longleftrightarrow>
     change_path c \<noteq> [] \<and> change_path c = strip (change_path c) \<and>
     \<not> startswith (change_path c) (str ''/'') \<and> \<not> startswith (change_path c) (str ''~'') \<and>
     92 \<notin> set (change_path c) \<and> 0 \<notin> set (change_path c) \<and>
     str ''..'' \<notin> set (split_on 47 (change_path c)) \<and> mode c \<noteq> Some SYMLINK_MODE \<and> \<not> binary c"
  by (simp add: shape_refusal_def Let_def)

text \<open>What a path names, segment by segment, from the top of the workspace.\<close>

definition enter :: "pytext \<Rightarrow> pytext list \<Rightarrow> pytext list" where
  "enter seg dir =
     (if seg = [] \<or> seg = str ''.'' then dir
      else if seg = str ''..'' then butlast dir
      else dir @ [seg])"

definition resolve :: "pytext \<Rightarrow> pytext list" where
  "resolve path = fold enter (split_on 47 path) []"

lemma split_on_append: "split_on d (p @ d # q) = split_on d p @ split_on d q"
  by (induction p) (auto split: list.split)

lemma fold_enter_no_up:
  "str ''..'' \<notin> set segs \<Longrightarrow>
     fold enter segs dir = dir @ filter (\<lambda>s. s \<noteq> [] \<and> s \<noteq> str ''.'') segs"
  by (induction segs arbitrary: dir) (auto simp: enter_def)

lemma rstrip_slash_prefix: "\<exists>n. p = rstrip_slash p @ replicate n 47"
proof -
  have "takeWhile (\<lambda>c. c = 47) q = replicate (length (takeWhile (\<lambda>c. c = 47) q)) 47" for q :: pytext
    by (induction q) auto
  from this [of "rev p"] have "rev (takeWhile (\<lambda>c. c = 47) (rev p)) =
      replicate (length (takeWhile (\<lambda>c. c = 47) (rev p))) 47"
    by (metis rev_replicate)
  moreover have "p = rstrip_slash p @ rev (takeWhile (\<lambda>c. c = 47) (rev p))"
    unfolding rstrip_slash_def
    by (metis rev_append rev_rev_ident takeWhile_dropWhile_id)
  ultimately show ?thesis by metis
qed

lemma split_slashes:
  "filter (\<lambda>s. s \<noteq> [] \<and> P s) (split_on 47 (p @ replicate n 47)) =
     filter (\<lambda>s. s \<noteq> [] \<and> P s) (split_on 47 p)"
proof (induction n)
  case (Suc n)
  have "split_on 47 (p @ replicate (Suc n) 47) = split_on 47 (p @ replicate n 47) @ [[]]"
    using split_on_append [of 47 "p @ replicate n 47" "[]"]
    by (simp add: replicate_append_same [symmetric])
  with Suc show ?case by simp
qed simp

lemma resolve_inside:
  assumes "str ''..'' \<notin> set (split_on 47 path)" and "in_surface path surface"
  shows "\<exists>p \<in> set surface. prefix (resolve p) (resolve path)"
proof -
  from assms(2) obtain p where p: "p \<in> set surface" "path = p \<or> (\<exists>r. path = rstrip_slash p @ 47 # r)"
    by (auto simp: in_surface_def list_ex_iff startswith_iff str_def)
  have "prefix (resolve p) (resolve path)"
  proof (cases "path = p")
    case False
    obtain q n where q: "rstrip_slash p = q" "p = q @ replicate n 47"
      using rstrip_slash_prefix [of p] by blast
    from False p(2) q(1) obtain r where r: "path = q @ 47 # r" by blast
    let ?keep = "\<lambda>s. s \<noteq> [] \<and> s \<noteq> str ''.''"
    have segs: "split_on 47 path = split_on 47 q @ split_on 47 r"
      unfolding r by (rule split_on_append)
    have "set (split_on 47 p) - {[]} = set (split_on 47 q) - {[]}"
      using arg_cong [OF split_slashes [of "\<lambda>_. True" q n], of set] unfolding q(2) by auto
    moreover have "str ''..'' \<notin> set (split_on 47 q)"
      using assms(1) unfolding segs by simp
    ultimately have "str ''..'' \<notin> set (split_on 47 p)"
      by (metis Diff_iff empty_iff insert_iff list.distinct(1) str_eq_Nil_iff)
    moreover have "filter ?keep (split_on 47 p) = filter ?keep (split_on 47 q)"
      unfolding q(2) by (rule split_slashes)
    ultimately show ?thesis
      using assms(1) segs by (simp add: resolve_def fold_enter_no_up)
  qed simp
  with p(1) show ?thesis by blast
qed

section \<open>Case folding\<close>

text \<open>A class and a pattern that cannot tell the ASCII letter cases apart.\<close>

definition fold_safe :: "(code_point \<Rightarrow> bool) \<Rightarrow> bool" where
  "fold_safe p \<longleftrightarrow> (\<forall>c d. lower c = lower d \<longrightarrow> p c = p d)"

lemma fold_safeI: "(\<And>c d. lower c = lower d \<Longrightarrow> p c = p d) \<Longrightarrow> fold_safe p"
  unfolding fold_safe_def by blast

lemma fold_safe_const [simp]: "fold_safe (\<lambda>_. b)"
  unfolding fold_safe_def by blast

primrec caseless :: "re \<Rightarrow> bool" where
  "caseless Eps = True"
| "caseless (Chr p) = fold_safe p"
| "caseless (Seq a b) = (caseless a \<and> caseless b)"
| "caseless (Alt a b) = (caseless a \<and> caseless b)"
| "caseless (Star a) = caseless a"
| "caseless Bol = True"
| "caseless Eol = True"
| "caseless (Boundary w) = fold_safe w"
| "caseless (Not_After p) = fold_safe p"

lemma map_lower_nth: "map lower s = map lower t \<Longrightarrow> i < length s \<Longrightarrow> lower (s ! i) = lower (t ! i)"
  by (metis length_map nth_map)

lemma caseless_nth:
  assumes "fold_safe p" and "map lower s = map lower t" and "i < length s"
  shows "p (t ! i) = p (s ! i)"
  using assms(1) map_lower_nth [OF assms(2,3)] unfolding fold_safe_def by metis

lemma lower_nonletter: "lower c = lower d \<Longrightarrow> c < 65 \<Longrightarrow> d = c"
  by (auto simp: lower_def split: if_splits)

lemma matches_caseless:
  "matches r s i j \<Longrightarrow> caseless r \<Longrightarrow> map lower s = map lower t \<Longrightarrow> i \<le> length s \<Longrightarrow> matches r t i j"
proof (induction rule: matches.induct)
  case (m_Chr i s p)
  have "p (t ! i)"
    using caseless_nth [of p s t i] m_Chr by simp
  with m_Chr show ?case by (metis length_map matches.m_Chr)
next
  case (m_Eol i s)
  have len: "length t = length s" using m_Eol.prems by (metis length_map)
  have "t ! i = 10" if "Suc i = length s" "s ! i = 10"
    using lower_nonletter [of "s ! i" "t ! i"] map_lower_nth [of s t i] that m_Eol.prems by simp
  with m_Eol.hyps len show ?case by (intro matches.m_Eol) metis
next
  case (m_Boundary i w s)
  have len: "length t = length s" using m_Boundary.prems by (metis length_map)
  have same: "w (t ! k) = w (s ! k)" if "k < length s" for k
    using caseless_nth [of w s t k] that m_Boundary.prems by simp
  have "(0 < i \<and> w (t ! (i - 1))) = (0 < i \<and> w (s ! (i - 1)))"
    using same [of "i - 1"] m_Boundary.prems by (cases i) simp_all
  moreover have "(i < length t \<and> w (t ! i)) = (i < length s \<and> w (s ! i))"
    using same [of i] len by auto
  ultimately show ?case using m_Boundary.hyps by (intro matches.m_Boundary) simp
next
  case (m_Not_After i p s)
  have "p (t ! (i - 1)) = p (s ! (i - 1))" if "0 < i"
    using caseless_nth [of p s t "i - 1"] that m_Not_After.prems by simp
  then show ?case using m_Not_After.hyps by (intro matches.m_Not_After) blast
next
  case (m_Seq a s i j b k)
  have "j \<le> length s" using matches_bounded [OF m_Seq.hyps(1)] m_Seq.prems by simp
  with m_Seq show ?case by - (rule matches.m_Seq [of a t i j], simp_all)
next
  case (m_Star a s i j k)
  have "j \<le> length s" using matches_bounded [OF m_Star.hyps(1)] m_Star.prems by simp
  with m_Star show ?case by - (rule matches.m_Star [of a t i j], simp_all)
next
  case (m_Alt1 a s i j b)
  then show ?case by - (rule matches.m_Alt1, simp)
next
  case (m_Alt2 b s i j a)
  then show ?case by - (rule matches.m_Alt2, simp)
qed (rule matches.m_Eps matches.m_Star0 matches.m_Bol)+

lemma search_caseless_imp:
  assumes "caseless r" and "map lower s = map lower t" and "search r s"
  shows "search r t"
proof -
  from assms(3) obtain i j where ij: "i \<le> length s" "matches r s i j"
    unfolding search_iff by blast
  have "length s = length t" using assms(2) by (metis length_map)
  with ij matches_caseless [OF ij(2) assms(1,2) ij(1)] show ?thesis
    unfolding search_iff by auto
qed

lemma search_caseless:
  assumes "caseless r" and "map lower s = map lower t"
  shows "search r s \<longleftrightarrow> search r t"
  using search_caseless_imp [OF assms] search_caseless_imp [OF assms(1) assms(2) [symmetric]]
  by blast

lemma folds_caseless [simp]: "fold_safe (folds p)"
  by (rule fold_safeI) (auto simp: folds_def lower_def split: if_splits)

lemma ialpha_caseless [simp]: "fold_safe ialpha" "fold_safe ialnum"
  by (rule fold_safeI; auto simp: ialpha_def ialnum_def is_digit_def lower_def split: if_splits)+

lemma slash_caseless [simp]: "fold_safe (\<lambda>c. c = 47)" "fold_safe (\<lambda>c. c \<noteq> 47)"
  by (rule fold_safeI; auto simp: lower_def split: if_splits)+

lemma caseless_word: "caseless (word_of folds s)"
  by (induction s) simp_all

lemma caseless_alts: "list_all caseless rs \<Longrightarrow> caseless (alts rs)"
  by (induction rs rule: alts.induct) auto

lemma caseless_seqs: "list_all caseless rs \<Longrightarrow> caseless (seqs rs)"
  by (induction rs rule: seqs.induct) auto

lemma caseless_parts [simp]:
  "caseless (itext t)" "caseless at_segment" "caseless segment_end" "caseless in_segment"
  "caseless (Chr ialpha)" "caseless (Chr ialnum)"
  by (simp_all add: itext_def caseless_word at_segment_def segment_end_def in_segment_def)

lemma protected_caseless:
  assumes "fold_safe word"
  shows "\<forall>p \<in> set (PROTECTED_PATTERNS word). caseless (fst p)"
proof -
  have w: "caseless (Boundary word)" using assms by simp
  show ?thesis
    by (simp only: PROTECTED_PATTERNS_def list.set ball_simps fst_conv seqs.simps alts.simps w
        caseless.simps(1,3-7) caseless_parts opt_def plus_re_def simp_thms)
qed


lemma protected_refused:
  "matches_any (change_path change) (PROTECTED_PATTERNS word) \<noteq> None \<Longrightarrow>
     ruling_verdict (rule_change word surface change) = REFUSED"
  by (simp add: rule_change_verdict)

lemma matches_any_caseless:
  assumes "\<forall>p \<in> set ps. caseless (fst p)" and "map lower s = map lower t"
  shows "matches_any s ps = matches_any t ps"
  using assms(1)
proof (induction ps)
  case (Cons q ps)
  obtain r why where q: "q = (r, why)" by (cases q)
  have "search r s \<longleftrightarrow> search r t"
    by (rule search_caseless [OF _ assms(2)]) (use Cons.prems q in simp)
  with Cons q show ?case by simp
qed simp

section \<open>Properties\<close>

definition ascii_word :: "code_point \<Rightarrow> bool" where
  "ascii_word c \<longleftrightarrow> 48 \<le> c \<and> c \<le> 57 \<or> 65 \<le> c \<and> c \<le> 90 \<or> 97 \<le> c \<and> c \<le> 122 \<or> c = 95"

definition repair_change :: "string \<Rightarrow> proposed_change" where
  "repair_change p = \<lparr>change_path = str p, content = Some [], mode = None, binary = False\<rparr>"



text \<open>
  No spelling of a protected path in other letter cases escapes the protection, whatever the
  declared surface, the mode and the content: if one spelling is protected, so are all.
\<close>

theorem protection_ignores_case:
  assumes "fold_safe word"
    and "map lower (change_path d) = map lower (change_path c)"
    and "search (fst p) (change_path c)" and "p \<in> set (PROTECTED_PATTERNS word)"
  shows "ruling_verdict (rule_change word surface d) = REFUSED"
proof (rule protected_refused)
  have "matches_any (change_path c) (PROTECTED_PATTERNS word) \<noteq> None"
    using assms(3,4) unfolding matches_any_None by blast
  then show "matches_any (change_path d) (PROTECTED_PATTERNS word) \<noteq> None"
    unfolding matches_any_caseless [OF protected_caseless [OF assms(1)] assms(2)] .
qed

lemma ascii_word_caseless: "fold_safe ascii_word"
  by (rule fold_safeI) (auto simp: ascii_word_def lower_def split: if_splits)

theorem protection_ignores_case_witness:
  "ruling_verdict (rule_change ascii_word [str ''src''] (repair_change ''src/Tests/a.ts'')) = REFUSED"
proof (rule protection_ignores_case [OF ascii_word_caseless, of _ "repair_change ''src/tests/a.ts''"
      "hd (PROTECTED_PATTERNS ascii_word)"])
  show "search (fst (hd (PROTECTED_PATTERNS ascii_word))) (change_path (repair_change ''src/tests/a.ts''))"
    by code_simp
  show "hd (PROTECTED_PATTERNS ascii_word) \<in> set (PROTECTED_PATTERNS ascii_word)"
    by (rule hd_in_set) (simp only: PROTECTED_PATTERNS_def list.distinct(2) not_False_eq_True)
qed code_simp

end
