(* ===== verification/Portable.thy ===== *)
theory Portable
  imports Canonical_Digest
begin

text \<open>
  Which values have a digest: the portable ones, whose numbers and text every JSON reader agrees
  on. Used wherever a component has to know that a document it builds can be digested.
\<close>

function (sequential) portable :: "pyval \<Rightarrow> bool" where
  "portable (PStr s) = list_all scalar s"
| "portable (PList vs) = list_all portable vs"
| "portable (PTuple vs) = list_all portable vs"
| "portable (PDict kvs) =
     list_all (\<lambda>kv. (case fst kv of KText k \<Rightarrow> list_all scalar k | KOther \<Rightarrow> False) \<and>
                    portable (snd kv)) kvs"
| "portable (PInt i) = (MIN_SAFE_INTEGER \<le> i \<and> i \<le> MAX_SAFE_INTEGER)"
| "portable (PFloat f) = succeeds (serialize_float f)"
| "portable POther = False"
| "portable v = True"
  by pat_completeness auto

termination portable
  by (relation "measure size") (auto dest: size_list_value size_dict_value)

definition encodes :: "(canon_error, pytext) result \<Rightarrow> bool" where
  "encodes r \<longleftrightarrow> (\<exists>s. r = Inr s \<and> list_all scalar s)"

lemma encodes_simps [simp]:
  "encodes (Inl e) \<longleftrightarrow> False" "encodes (Inr s) \<longleftrightarrow> list_all scalar s"
  by (simp_all add: encodes_def)

lemma small_scalar [simp]: "c < 0xD800 \<Longrightarrow> scalar c"
  by (simp add: scalar_def high_surrogate_def low_surrogate_def)

lemma ascii_scalar: "list_all (\<lambda>c. c < 0xD800) s \<Longrightarrow> list_all scalar s"
  by (auto simp: list_all_iff)

lemma escape_scalar: "list_all scalar (escape c) \<longleftrightarrow> scalar c"
  by (auto simp: escape_def SHORT_ESCAPES_def hex_digit_def)

lemma scalar_text: "list_all scalar s \<Longrightarrow> no_lone_surrogates s"
  by (induction s rule: no_lone_surrogates.induct) (auto simp: scalar_def)

lemma encodes_string: "encodes (serialize_string s) \<longleftrightarrow> list_all scalar s"
proof -
  have "list_all scalar (concat (map escape s)) \<longleftrightarrow> list_all scalar s"
    by (induction s) (simp_all add: escape_scalar)
  then show ?thesis using scalar_text [of s] by (auto simp: serialize_string_def)
qed

lemma show_int_scalar: "list_all scalar (show_int i)"
  by (auto simp: list_all_iff is_digit_def dest!: show_int_chars)

lemma encodes_int: "encodes (serialize_int i) \<longleftrightarrow> succeeds (serialize_int i)"
  by (simp add: serialize_int_def show_int_scalar)

lemma encodes_float: "encodes (serialize_float f) \<longleftrightarrow> succeeds (serialize_float f)"
  by (simp add: serialize_float_def encodes_int split: pyfloat.split)

lemma join_comma_scalar: "list_all scalar (join_comma ps) \<longleftrightarrow> list_all (list_all scalar) ps"
  by (induction ps rule: join_comma.induct) simp_all

lemma encodes_bind:
  "encodes (bind_result r f) \<longleftrightarrow> (\<exists>x. r = Inr x \<and> encodes (f x))"
  by (cases r) simp_all

lemma traverse_encodes:
  "(\<exists>ps. traverse f xs = Inr ps \<and> list_all (list_all scalar) ps) \<longleftrightarrow> (\<forall>x \<in> set xs. encodes (f x))"
proof (induction xs)
  case (Cons x xs)
  then show ?case by (cases "f x") (auto simp: bind_result_Inr)
qed simp

lemma encodes_list:
  assumes "scalar a" and "scalar b"
  shows "encodes (bind_result (traverse f xs) (\<lambda>ps. Inr (a # join_comma ps @ [b]))) \<longleftrightarrow>
    (\<forall>x \<in> set xs. encodes (f x))"
  unfolding traverse_encodes [symmetric] encodes_bind encodes_simps
  using assms by (simp add: join_comma_scalar)

lemma encodes_serialize: "encodes (serialize v) \<longleftrightarrow> portable v"
proof (induction v rule: portable.induct)
  case (2 vs)
  then show ?case by (simp add: encodes_list list_all_iff)
next
  case (3 vs)
  then show ?case by (simp add: encodes_list list_all_iff)
next
  case (4 kvs)
  let ?f = "\<lambda>kv. bind_result (serialize_string (key_text (fst kv))) (\<lambda>k.
              bind_result (serialize (snd kv)) (\<lambda>v. Inr (k @ 58 # v)))"
  have item: "encodes (?f kv) \<longleftrightarrow> list_all scalar (key_text (fst kv)) \<and> portable (snd kv)"
    if "kv \<in> set kvs" for kv
    unfolding 4 [OF that, symmetric] encodes_string [symmetric]
    by (cases "serialize_string (key_text (fst kv))"; cases "serialize (snd kv)") simp_all
  have key: "(case fst kv of KText k \<Rightarrow> list_all scalar k | KOther \<Rightarrow> False) \<longleftrightarrow>
      valid_key kv \<and> encodable_key kv" for kv :: "dict_key \<times> pyval"
    using scalar_text by (auto simp: valid_key_def encodable_key_def split: dict_key.splits)
  have "encodes (serialize (PDict kvs)) \<longleftrightarrow>
      list_all valid_key kvs \<and> list_all encodable_key kvs \<and> (\<forall>kv \<in> set kvs. encodes (?f kv))"
    by (simp add: encodes_list)
  then show ?case
    unfolding portable.simps key by (auto simp: item list_all_iff encodable_key_def)
qed (simp_all add: encodes_string encodes_int encodes_float serialize_int_def show_int_scalar str_def)

lemma digest_portable: "succeeds (digest v) \<longleftrightarrow> portable v"
  by (cases "serialize v")
    (auto simp: digest_def canonicalize_def encode_utf8_def encodes_serialize [symmetric])

lemma digest_scalar: "digest v = Inr d \<Longrightarrow> list_all scalar d"
proof -
  assume "digest v = Inr d"
  then obtain m where "d = hex (sha256 m)"
    by (auto simp: digest_message bind_result_Inr)
  then have "list_all is_lower_hex d"
    using is_sha256_hex_sha256 [of m] by (simp add: is_sha256_hex_def)
  then show ?thesis by (auto simp: list_all_iff is_lower_hex_def)
qed

lemma portable_text_list [simp]: "portable (PList (map PStr ts)) \<longleftrightarrow> list_all (list_all scalar) ts"
  by (simp add: list_all_iff)

lemma str_scalar [simp]: "list_all scalar (str s)"
proof -
  have "of_char c < (0xD800 :: nat)" for c :: char
    by (rule less_trans [OF nat_of_char_less_256]) simp
  then show ?thesis by (simp add: str_def list_all_iff)
qed

lemmas str_scalar_Ball [simp] = str_scalar [unfolded list_all_iff]


end
