(* ===== verification/Journeys.thy ===== *)
theory Journeys
  imports Assertions Regex
begin

text \<open>
  Journeys: their bounded inputs (\<open>journeys/dsl.py\<close>), the capability checks
  (\<open>journeys/validation.py\<close>) and compilation into sealed, digested documents
  (\<open>journeys/compile.py\<close>). The word characters of the patterns are the parameter \<open>word\<close>.
\<close>

section \<open>Vocabulary and budgets\<close>

definition ALLOWED_ACTIONS :: "pytext set" where
  "ALLOWED_ACTIONS =
     set (map str [''NEXT'', ''PREVIOUS'', ''ACTIVATE'', ''TYPE_TEXT'', ''KEY_CHORD'',
                   ''READ_CURRENT'', ''WAIT_FOR_READER_IDLE'', ''STOP''])"

definition ALLOWED_KEY_CHORDS :: "pytext \<rightharpoonup> pytext set" where
  "ALLOWED_KEY_CHORDS =
     [str ''darwin'' \<mapsto>
        set (map str [''TAB'', ''SHIFT+TAB'', ''ENTER'', ''SPACE'', ''ESCAPE'', ''CTRL+OPT+RIGHT'',
                      ''CTRL+OPT+LEFT'']),
      str ''win32'' \<mapsto>
        set (map str [''TAB'', ''SHIFT+TAB'', ''ENTER'', ''SPACE'', ''ESCAPE'', ''DOWN'', ''UP''])]"

definition MAX_ACTIONS :: int where "MAX_ACTIONS = 500"
definition MAX_WALL_TIME_SECONDS :: int where "MAX_WALL_TIME_SECONDS = 1800"

datatype capability =
    UNSUPPORTED_PLATFORM | UNSUPPORTED_ACTION | NO_ACTIONS | FORBIDDEN_KEY_CHORD
  | INCONSISTENT_CAPABILITY | FORBIDDEN_EFFECT_REQUESTED

datatype journey_error =
    MaxActionsOutOfRange | WallTimeOutOfRange
  | SummaryMissing | SuccessConditionMissing | SelectorInTask
  | TemplateMissing | CredentialInValue | SelectorInValue | KeysOverlap
  | CapabilityError capability
  | StopNotPermitted | NextNotPermitted | NoSlotForStop
  | JourneyNotCanonical canon_error

section \<open>Shapes of text\<close>

definition letter :: "code_point \<Rightarrow> bool" where
  "letter c \<longleftrightarrow> 65 \<le> c \<and> c \<le> 90 \<or> 97 \<le> c \<and> c \<le> 122"

definition upper_case :: "code_point \<Rightarrow> bool" where
  "upper_case c \<longleftrightarrow> 65 \<le> c \<and> c \<le> 90"

definition spaces :: re where
  "spaces = Star (Chr py_space)"

definition SELECTOR_SHAPES :: "(code_point \<Rightarrow> bool) \<Rightarrow> re list" where
  "SELECTOR_SHAPES word =
     [seqs [Not_After (\<lambda>c. word c \<or> c = 45), Chr (\<lambda>c. c = 35 \<or> c = 46),
            Chr (\<lambda>c. letter c \<or> c = 95), Star (Chr (\<lambda>c. word c \<or> c = 45))],
      seqs [text_re ''['', plus_re (Chr (\<lambda>c. letter c \<or> c = 45)), spaces, text_re ''='', spaces,
            Chr (\<lambda>c. c = 39 \<or> c = 34)],
      seqs [Boundary word,
            alts [text_re ''div'', text_re ''span'', text_re ''input'', text_re ''button'',
                  text_re ''form''],
            spaces, Chr (\<lambda>c. c = 62 \<or> c = 46 \<or> c = 35 \<or> c = 91)],
      Alt (seqs [Bol, spaces, itext ''//'']) (seqs [Bol, spaces, itext ''/html'']),
      seqs [Boundary word, text_re ''document.querySelector'']]"

definition SECRET_SHAPES :: "(code_point \<Rightarrow> bool) \<Rightarrow> re list" where
  "SECRET_SHAPES word =
     [seqs [Bol, opt (text_re ''secretref://''),
            at_least 40 (Chr (\<lambda>c. letter c \<or> is_digit c \<or> c = 43 \<or> c = 47)),
            opt (text_re ''=''), opt (text_re ''=''), Eol],
      seqs [Boundary word, Alt (text_re ''AKIA'') (text_re ''ASIA''),
            exactly 16 (Chr (\<lambda>c. is_digit c \<or> upper_case c)), Boundary word],
      seqs [Boundary word, text_re ''gh'', Chr (\<lambda>c. c \<in> set (str ''pousr'')), text_re ''_'',
            at_least 20 (Chr (\<lambda>c. letter c \<or> is_digit c)), Boundary word],
      seqs [text_re ''-----BEGIN '', Star (Chr (\<lambda>c. upper_case c \<or> c = 32)),
            text_re ''PRIVATE KEY-----''],
      seqs [Boundary word,
            alts [itext ''password'', itext ''passwd'',
                  seqs [itext ''api'', opt (Chr (\<lambda>c. c = 95 \<or> c = 45)), itext ''key''],
                  itext ''secret'', itext ''token''],
            spaces, Chr (\<lambda>c. c = 58 \<or> c = 61)]]"

definition has_shape :: "re list \<Rightarrow> pytext \<Rightarrow> bool" where
  "has_shape shapes value \<longleftrightarrow> list_ex (\<lambda>r. search r value) shapes"

section \<open>The parts of a draft\<close>

record action_budget =
  max_actions :: int
  wall_time_seconds :: int

definition construct_budget :: "action_budget \<Rightarrow> (journey_error, action_budget) result" where
  "construct_budget b =
     (if \<not> (1 \<le> max_actions b \<and> max_actions b \<le> MAX_ACTIONS) then Inl MaxActionsOutOfRange
      else if \<not> (1 \<le> wall_time_seconds b \<and> wall_time_seconds b \<le> MAX_WALL_TIME_SECONDS)
      then Inl WallTimeOutOfRange
      else Inr b)"

record task_intent =
  summary :: pytext
  start_url :: pytext
  success_condition :: pytext

definition construct_intent ::
  "(code_point \<Rightarrow> bool) \<Rightarrow> task_intent \<Rightarrow> (journey_error, task_intent) result" where
  "construct_intent word t =
     (if blank (summary t) then Inl SummaryMissing
      else if blank (success_condition t) then Inl SuccessConditionMissing
      else if list_ex (\<lambda>shape. search shape (summary t) \<or> search shape (success_condition t))
                (SELECTOR_SHAPES word)
      then Inl SelectorInTask
      else Inr t)"

text \<open>A \<open>dict\<close> of texts is the list of its items in insertion order, without repeated keys.\<close>

type_synonym text_map = "(pytext \<times> pytext) list"

record fixture_binding =
  template_id :: pytext
  navigator_values :: text_map
  reset_values :: text_map
  observer_config :: text_map

fun check_values ::
  "(code_point \<Rightarrow> bool) \<Rightarrow> text_map \<Rightarrow> (journey_error, unit) result" where
  "check_values word [] = Inr ()"
| "check_values word ((k, value) # kvs) =
     (if has_shape (SECRET_SHAPES word) value then Inl CredentialInValue
      else if has_shape (SELECTOR_SHAPES word) value then Inl SelectorInValue
      else check_values word kvs)"

definition construct_fixture ::
  "(code_point \<Rightarrow> bool) \<Rightarrow> fixture_binding \<Rightarrow> (journey_error, fixture_binding) result" where
  "construct_fixture word f =
     (if blank (template_id f) then Inl TemplateMissing
      else bind_result (check_values word (navigator_values f)) (\<lambda>_.
        if list_ex (\<lambda>kv. fst kv \<in> set (map fst (observer_config f))) (navigator_values f)
        then Inl KeysOverlap
        else Inr f))"

definition navigator_view :: "fixture_binding \<Rightarrow> text_map" where
  "navigator_view f = navigator_values f"

record journey_draft =
  name :: pytext
  intent :: task_intent
  assertions :: assertion_set
  fixture :: fixture_binding
  budget :: action_budget
  platform :: pytext
  allowed_actions :: "pytext set"
  allowed_key_chords :: "pytext set"
  allowed_effects :: "pytext set"

record journey_version =
  version_id :: pytext
  draft :: journey_draft
  journey_digest :: pytext
  assertion_set_digest :: pytext
  fixture_digest :: pytext
  navigator_policy_digest :: pytext

section \<open>Capability validation\<close>

text \<open>The loop over \<open>FORBIDDEN_EFFECT\<close> assertions of the source only continues.\<close>

definition validate_draft :: "journey_draft \<Rightarrow> (journey_error, unit) result" where
  "validate_draft d =
     (case ALLOWED_KEY_CHORDS (platform d) of
        None \<Rightarrow> Inl (CapabilityError UNSUPPORTED_PLATFORM)
      | Some chords \<Rightarrow>
          if \<not> allowed_actions d \<subseteq> ALLOWED_ACTIONS then Inl (CapabilityError UNSUPPORTED_ACTION)
          else if allowed_actions d = {} then Inl (CapabilityError NO_ACTIONS)
          else if \<not> allowed_key_chords d \<subseteq> chords then Inl (CapabilityError FORBIDDEN_KEY_CHORD)
          else if allowed_key_chords d \<noteq> {} \<and> str ''KEY_CHORD'' \<notin> allowed_actions d
          then Inl (CapabilityError INCONSISTENT_CAPABILITY)
          else if str ''TYPE_TEXT'' \<in> allowed_actions d \<and> navigator_values (fixture d) = []
          then Inl (CapabilityError INCONSISTENT_CAPABILITY)
          else if \<not> allowed_effects d \<subseteq> {str ''FIXTURE_SUBMIT'', str ''FIXTURE_RESET''}
          then Inl (CapabilityError FORBIDDEN_EFFECT_REQUESTED)
          else Inr ())"

section \<open>Compilation\<close>

definition text_dict :: "text_map \<Rightarrow> pyval" where
  "text_dict kvs = PDict (map (\<lambda>(k, v). (KText k, PStr v)) kvs)"

definition sorted_dict :: "text_map \<Rightarrow> pyval" where
  "sorted_dict kvs = text_dict (sort_key fst kvs)"

definition text_set :: "pytext set \<Rightarrow> pyval" where
  "text_set S = PList (map PStr (sorted_list_of_set S))"

text \<open>The action sequence a rule or one of its steps names.\<close>

definition uses_last_slot :: "int \<Rightarrow> evaluation_rule \<Rightarrow> bool" where
  "uses_last_slot budget' r \<longleftrightarrow>
     rule_action_sequence r \<noteq> PNone \<and> budget' \<le> as_int (rule_action_sequence r) \<or>
     list_ex (\<lambda>s. budget' \<le> step_action_sequence s) (rule_steps r)"

definition rules_of :: "assertion_set \<Rightarrow> evaluation_rule list" where
  "rules_of as = List.map_filter evaluation_rule as"

definition fixture_contract :: "fixture_binding \<Rightarrow> pytext \<Rightarrow> pytext \<Rightarrow> pyval" where
  "fixture_contract f reset_digest observer_digest =
     PDict [(key ''schemaVersion'', PInt 2),
            (key ''templateId'', PStr (template_id f)),
            (key ''navigatorValues'', sorted_dict (navigator_values f)),
            (key ''resetValuesDigest'', PStr reset_digest),
            (key ''observerConfigDigest'', PStr observer_digest)]"

definition navigator_policy_of :: "journey_draft \<Rightarrow> pyval" where
  "navigator_policy_of d =
     PDict [(key ''taskSummary'', PStr (summary (intent d))),
            (key ''successCondition'', PStr (success_condition (intent d))),
            (key ''startUrl'', PStr (start_url (intent d))),
            (key ''allowedActions'', text_set (allowed_actions d)),
            (key ''allowedKeyChords'', text_set (allowed_key_chords d)),
            (key ''maxActions'', PInt (max_actions (budget d))),
            (key ''wallTimeSeconds'', PInt (wall_time_seconds (budget d))),
            (key ''fixtureValues'', text_dict (navigator_view (fixture d))),
            (key ''forbiddenObservations'',
             PList (map lit [''DOM'', ''SELECTORS'', ''SCREENSHOTS'', ''SOURCE'',
                             ''OBSERVER_RECEIPTS'', ''ASSERTION_EXPECTATIONS'']))]"

definition journey_contract :: "journey_draft \<Rightarrow> pytext \<Rightarrow> pytext \<Rightarrow> pytext \<Rightarrow> pyval" where
  "journey_contract d assertions_digest fixture_digest' policy_digest =
     PDict [(key ''name'', PStr (name d)),
            (key ''platform'', PStr (platform d)),
            (key ''intent'',
             PDict [(key ''summary'', PStr (summary (intent d))),
                    (key ''startUrl'', PStr (start_url (intent d))),
                    (key ''successCondition'', PStr (success_condition (intent d)))]),
            (key ''assertionSetDigest'', PStr assertions_digest),
            (key ''fixtureDigest'', PStr fixture_digest'),
            (key ''navigatorPolicyDigest'', PStr policy_digest),
            (key ''allowedEffects'', text_set (allowed_effects d)),
            (key ''budget'',
             PDict [(key ''maxActions'', PInt (max_actions (budget d))),
                    (key ''wallTimeSeconds'', PInt (wall_time_seconds (budget d)))])]"

definition required_summary :: "assertion \<Rightarrow> pyval" where
  "required_summary a =
     PDict ([(key ''id'', PStr (assertion_id a)),
             (key ''kind'', PStr (kind_value (kind a))),
             (key ''mustBeTrue'', PStr (description a)),
             (key ''decidedBy'', PStr (observer_value (observer_of a))),
             (key ''canBeUnknownWhen'', text_set (reason_value ` unknown_reasons a))] @
            (case evaluation_rule a of None \<Rightarrow> []
             | Some r \<Rightarrow> [(key ''evaluationRule'', rule_form r)]))"

definition reviewer_summary_of :: "journey_draft \<Rightarrow> pyval \<Rightarrow> pyval \<Rightarrow> pyval" where
  "reviewer_summary_of d contract fixture' =
     PDict [(key ''journeyContract'', contract),
            (key ''fixtureContract'', fixture'),
            (key ''assertionContract'', set_form (assertions d)),
            (key ''journey'', PStr (name d)),
            (key ''platform'', PStr (platform d)),
            (key ''whatItWillTry'', PStr (summary (intent d))),
            (key ''whatCountsAsSuccess'', PStr (success_condition (intent d))),
            (key ''requiredAssertions'',
             PList (map required_summary (required_assertions_of (assertions d)))),
            (key ''effectsThisPermits'', text_set (allowed_effects d)),
            (key ''boundedBy'',
             PStr (show_int (max_actions (budget d)) @ str '' actions, '' @
                   show_int (wall_time_seconds (budget d)) @ str ''s'')),
            (key ''thisDoesNotPermit'',
             PList (map lit [''applying a patch'', ''publishing to a repository'',
                             ''any effect outside the listed ones'',
                             ''navigating outside the environment's allowed origins'']))]"

record compiled_journey =
  version :: journey_version
  navigator_policy :: pyval
  reviewer_summary :: pyval

definition digested :: "pyval \<Rightarrow> (journey_error, pytext) result" where
  "digested v = map_error JourneyNotCanonical (digest v)"

text \<open>The checks of \<open>compile_journey\<close> that follow validation.\<close>

definition check_slots :: "journey_draft \<Rightarrow> (journey_error, unit) result" where
  "check_slots d =
     (if str ''STOP'' \<notin> allowed_actions d then Inl StopNotPermitted
      else if str ''NEXT'' \<notin> allowed_actions d \<and>
              list_ex (\<lambda>r. rule_type r = lit ''READER_NEXT_SEQUENCE'') (rules_of (assertions d))
      then Inl NextNotPermitted
      else if list_ex (uses_last_slot (max_actions (budget d))) (rules_of (assertions d))
      then Inl NoSlotForStop
      else Inr ())"

text \<open>\<open>fresh\<close> is the identifier \<open>uuid.uuid4\<close> would return.\<close>

definition compile_journey ::
  "pytext \<Rightarrow> pytext option \<Rightarrow> journey_draft \<Rightarrow> (journey_error, compiled_journey) result" where
  "compile_journey fresh vid d =
     bind_result (validate_draft d) (\<lambda>_.
     bind_result (check_slots d) (\<lambda>_.
     bind_result (digested (set_form (assertions d))) (\<lambda>asserted.
     bind_result (digested (sorted_dict (reset_values (fixture d)))) (\<lambda>reset.
     bind_result (digested (sorted_dict (observer_config (fixture d)))) (\<lambda>observer.
     let fc = fixture_contract (fixture d) reset observer in
     bind_result (digested fc) (\<lambda>fixture'.
     let policy = navigator_policy_of d in
     bind_result (digested policy) (\<lambda>policy'.
     let jc = journey_contract d asserted fixture' policy' in
     bind_result (digested jc) (\<lambda>journey'.
       Inr \<lparr>version = \<lparr>version_id = (case vid of None \<Rightarrow> fresh | Some v \<Rightarrow> if v = [] then fresh else v),
                          draft = d, journey_digest = journey', assertion_set_digest = asserted,
                          fixture_digest = fixture', navigator_policy_digest = policy'\<rparr>,
            navigator_policy = policy,
            reviewer_summary = reviewer_summary_of d jc fc\<rparr>))))))))"

end
