(* ===== verification/Sealed_Journeys.thy ===== *)
theory Sealed_Journeys
  imports Portable Journeys
begin

text \<open>
  What compiling a journey guarantees: the capabilities a compiled journey can carry, what its
  digest pins down, and what the navigator's policy can depend on.
\<close>

section \<open>Inversion\<close>

lemma digested_Inr [simp]: "digested v = Inr d \<longleftrightarrow> digest v = Inr d"
  by (simp add: digested_def)

lemma validate_draft_Inr:
  "validate_draft d = Inr u \<longleftrightarrow>
     (\<exists>chords. ALLOWED_KEY_CHORDS (platform d) = Some chords \<and> allowed_key_chords d \<subseteq> chords) \<and>
     allowed_actions d \<subseteq> ALLOWED_ACTIONS \<and> allowed_actions d \<noteq> {} \<and>
     (allowed_key_chords d = {} \<or> str ''KEY_CHORD'' \<in> allowed_actions d) \<and>
     (str ''TYPE_TEXT'' \<in> allowed_actions d \<longrightarrow> navigator_values (fixture d) \<noteq> []) \<and>
     allowed_effects d \<subseteq> {str ''FIXTURE_SUBMIT'', str ''FIXTURE_RESET''}"
  unfolding validate_draft_def by (cases "ALLOWED_KEY_CHORDS (platform d)") (auto split: if_splits)

lemma check_slots_Inr:
  "check_slots d = Inr u \<longleftrightarrow>
     str ''STOP'' \<in> allowed_actions d \<and>
     (str ''NEXT'' \<notin> allowed_actions d \<longrightarrow>
        list_all (\<lambda>r. rule_type r \<noteq> lit ''READER_NEXT_SEQUENCE'') (rules_of (assertions d))) \<and>
     list_all (\<lambda>r. \<not> uses_last_slot (max_actions (budget d)) r) (rules_of (assertions d))"
  by (auto simp: check_slots_def list_all_iff list_ex_iff)

definition seal :: "journey_draft \<Rightarrow> journey_version \<Rightarrow> pyval list" where
  "seal d v =
     [journey_contract d (assertion_set_digest v) (fixture_digest v) (navigator_policy_digest v),
      fixture_contract (fixture d) (constant_digest (sorted_dict (reset_values (fixture d))))
        (constant_digest (sorted_dict (observer_config (fixture d)))),
      navigator_policy_of d, set_form (assertions d), sorted_dict (reset_values (fixture d)),
      sorted_dict (observer_config (fixture d))]"

lemma compile_journey_Inr:
  assumes "compile_journey fresh vid d = Inr c"
  shows "validate_draft d = Inr ()" "check_slots d = Inr ()" "draft (version c) = d"
    "navigator_policy c = navigator_policy_of d"
    "map digest (seal d (version c)) =
       [Inr (journey_digest (version c)), Inr (fixture_digest (version c)),
        Inr (navigator_policy_digest (version c)), Inr (assertion_set_digest (version c)),
        Inr (constant_digest (sorted_dict (reset_values (fixture d)))),
        Inr (constant_digest (sorted_dict (observer_config (fixture d))))]"
  using assms by (auto simp: compile_journey_def result_simps Let_def seal_def constant_digest_def)

section \<open>What the digests pin down\<close>

lemma norm_text_set [simp]: "norm (text_set S) = text_set S"
  by (simp add: text_set_def comp_def)

lemma text_set_inject: "finite S \<Longrightarrow> finite T \<Longrightarrow> text_set S = text_set T \<Longrightarrow> S = T"
  unfolding text_set_def
  by (simp add: inj_map_eq_map inj_def) (metis set_sorted_list_of_set)

lemma norm_text_dict:
  assumes "norm (text_dict kvs) = norm (text_dict kws)"
  shows "set kvs = set kws"
proof -
  have inj: "inj (\<lambda>(k, v). (KText k, PStr v))"
    by (auto simp: inj_def)
  have "map_prod id norm ` set (map (\<lambda>(k, v). (KText k, PStr v)) ts) =
      (\<lambda>(k, v). (KText k, PStr v)) ` set ts" for ts
    by (force simp: image_iff)
  then show ?thesis
    using norm_dict_items [OF assms [unfolded text_dict_def]] by (simp add: inj_image_eq_iff [OF inj])
qed

lemma norm_sorted_dict: "norm (sorted_dict kvs) = norm (sorted_dict kws) \<Longrightarrow> set kvs = set kws"
  unfolding sorted_dict_def using norm_text_dict [of "sort_key fst kvs" "sort_key fst kws"] by simp

lemma norm_fixture_contract:
  "norm (fixture_contract f r o') = norm (fixture_contract f' r' o'') \<Longrightarrow>
     template_id f = template_id f' \<and> set (navigator_values f) = set (navigator_values f') \<and>
     r = r' \<and> o' = o''"
  unfolding fixture_contract_def
  by (drule norm_fields) (auto simp del: norm.simps(8) dest: norm_sorted_dict)

lemma norm_navigator_policy:
  assumes "norm (navigator_policy_of d) = norm (navigator_policy_of e)"
    and "finite (allowed_actions d)" "finite (allowed_actions e)"
    and "finite (allowed_key_chords d)" "finite (allowed_key_chords e)"
  shows "allowed_actions d = allowed_actions e \<and> allowed_key_chords d = allowed_key_chords e"
  using norm_fields [OF assms(1) [unfolded navigator_policy_of_def]] assms(2-)
  by (auto simp del: norm.simps(8) dest: text_set_inject)

lemma norm_journey_contract:
  assumes "norm (journey_contract d a f p) = norm (journey_contract e a' f' p')"
    and "finite (allowed_effects d)" "finite (allowed_effects e)"
  shows "name d = name e \<and> platform d = platform e \<and> intent d = intent e \<and>
    allowed_effects d = allowed_effects e \<and> budget d = budget e \<and> a = a' \<and> f = f' \<and> p = p'"
proof -
  have i: "norm (PDict [(key ''summary'', PStr (summary (intent d))),
        (key ''startUrl'', PStr (start_url (intent d))),
        (key ''successCondition'', PStr (success_condition (intent d)))]) =
      norm (PDict [(key ''summary'', PStr (summary (intent e))),
        (key ''startUrl'', PStr (start_url (intent e))),
        (key ''successCondition'', PStr (success_condition (intent e)))])"
   and b: "norm (PDict [(key ''maxActions'', PInt (max_actions (budget d))),
        (key ''wallTimeSeconds'', PInt (wall_time_seconds (budget d)))]) =
      norm (PDict [(key ''maxActions'', PInt (max_actions (budget e))),
        (key ''wallTimeSeconds'', PInt (wall_time_seconds (budget e)))])"
    and rest: "name d = name e \<and> platform d = platform e \<and> text_set (allowed_effects d) =
       text_set (allowed_effects e) \<and> a = a' \<and> f = f' \<and> p = p'"
    using norm_fields [OF assms(1) [unfolded journey_contract_def]] 
    by (simp_all del: norm.simps(8))
  from norm_fields [OF i] have "intent d = intent e" by simp
  moreover from norm_fields [OF b] have "budget d = budget e" by simp
  ultimately show ?thesis using rest text_set_inject [OF assms(2,3)] by blast
qed

lemma chords_finite: "ALLOWED_KEY_CHORDS p = Some S \<Longrightarrow> finite S"
  by (auto simp: ALLOWED_KEY_CHORDS_def split: if_splits)

lemma validated_finite:
  assumes "validate_draft d = Inr u"
  shows "finite (allowed_actions d)" "finite (allowed_key_chords d)" "finite (allowed_effects d)"
proof -
  note v = assms [unfolded validate_draft_Inr]
  from v obtain chords where "ALLOWED_KEY_CHORDS (platform d) = Some chords"
      "allowed_key_chords d \<subseteq> chords" by blast
  then show "finite (allowed_key_chords d)" by (blast intro: finite_subset chords_finite)
  have "finite ALLOWED_ACTIONS" unfolding ALLOWED_ACTIONS_def by (rule finite_set)
  with v show "finite (allowed_actions d)" by (blast intro: finite_subset)
  have "finite {str ''FIXTURE_SUBMIT'', str ''FIXTURE_RESET''}" by simp
  with v show "finite (allowed_effects d)" by (blast intro: finite_subset)
qed

lemma seal_inject:
  assumes "list_all2 (\<lambda>v w. norm v = norm w) (seal d v) (seal e w)"
    and "validate_draft d = Inr u" and "validate_draft e = Inr u'"
  shows "name d = name e \<and> platform d = platform e \<and> intent d = intent e \<and> budget d = budget e \<and>
    allowed_actions d = allowed_actions e \<and> allowed_key_chords d = allowed_key_chords e \<and>
    allowed_effects d = allowed_effects e \<and> template_id (fixture d) = template_id (fixture e) \<and>
    set (navigator_values (fixture d)) = set (navigator_values (fixture e)) \<and>
    set (reset_values (fixture d)) = set (reset_values (fixture e)) \<and>
    set (observer_config (fixture d)) = set (observer_config (fixture e)) \<and>
    norm (set_form (assertions d)) = norm (set_form (assertions e))"
proof -
  from assms(1) have parts:
    "norm (journey_contract d (assertion_set_digest v) (fixture_digest v) (navigator_policy_digest v)) =
     norm (journey_contract e (assertion_set_digest w) (fixture_digest w) (navigator_policy_digest w))"
    "norm (navigator_policy_of d) = norm (navigator_policy_of e)"
    "norm (set_form (assertions d)) = norm (set_form (assertions e))"
    "norm (sorted_dict (reset_values (fixture d))) = norm (sorted_dict (reset_values (fixture e)))"
    "norm (sorted_dict (observer_config (fixture d))) = norm (sorted_dict (observer_config (fixture e)))"
    and fix': "norm (fixture_contract (fixture d)
        (constant_digest (sorted_dict (reset_values (fixture d))))
        (constant_digest (sorted_dict (observer_config (fixture d))))) =
      norm (fixture_contract (fixture e) (constant_digest (sorted_dict (reset_values (fixture e))))
        (constant_digest (sorted_dict (observer_config (fixture e)))))"
    by (simp_all add: seal_def)
  note fin = validated_finite [OF assms(2)] validated_finite [OF assms(3)]
  show ?thesis
    using norm_journey_contract [OF parts(1) fin(3,6)] norm_fixture_contract [OF fix']
      norm_navigator_policy [OF parts(2) fin(1,4) fin(2,5)]
      norm_sorted_dict [OF parts(4)] norm_sorted_dict [OF parts(5)] parts(3)
    by blast
qed

lemma equal_digests_equal_seals:
  assumes c: "compile_journey fresh vid d = Inr c" and c': "compile_journey fresh' vid' e = Inr c'"
    and eq: "journey_digest (version c) = journey_digest (version c')"
    and free: "\<not> list_ex (\<lambda>(v, w). collides v w) (zip (seal d (version c)) (seal e (version c')))"
  shows "list_all2 (\<lambda>v w. norm v = norm w) (seal d (version c)) (seal e (version c'))"
proof -
  note D = compile_journey_Inr [OF c] and E = compile_journey_Inr [OF c']
  note fin = validated_finite [OF D(1)] validated_finite [OF E(1)]
  note dd = D(5) [unfolded seal_def list.map list.inject] and ee = E(5) [unfolded seal_def list.map list.inject]
  from free have no: "\<forall>(v, w) \<in> set (zip (seal d (version c)) (seal e (version c'))). \<not> collides v w"
    by (auto simp: list_ex_iff)
  note no = no [unfolded seal_def zip_Cons_Cons list.set ball_simps split_conv]
  have step: "norm x = norm y" if "digest x = Inr h" "digest y = Inr h'" "h = h'" "\<not> collides x y"
    for x y h h'
    using digest_inject [of x h y] that by blast
  have J: "norm (journey_contract d (assertion_set_digest (version c)) (fixture_digest (version c))
        (navigator_policy_digest (version c))) =
      norm (journey_contract e (assertion_set_digest (version c')) (fixture_digest (version c'))
        (navigator_policy_digest (version c')))"
    using step [OF dd [THEN conjunct1] ee [THEN conjunct1] eq] no by blast
  note digs = norm_journey_contract [OF J fin(3,6)]
  have F: "norm (fixture_contract (fixture d) (constant_digest (sorted_dict (reset_values (fixture d))))
        (constant_digest (sorted_dict (observer_config (fixture d))))) =
      norm (fixture_contract (fixture e) (constant_digest (sorted_dict (reset_values (fixture e))))
        (constant_digest (sorted_dict (observer_config (fixture e)))))"
    using step dd ee digs no by blast
  note privs = norm_fixture_contract [OF F]
  have "norm (navigator_policy_of d) = norm (navigator_policy_of e)"
    "norm (set_form (assertions d)) = norm (set_form (assertions e))"
    "norm (sorted_dict (reset_values (fixture d))) = norm (sorted_dict (reset_values (fixture e)))"
    "norm (sorted_dict (observer_config (fixture d))) = norm (sorted_dict (observer_config (fixture e)))"
    using step dd ee digs privs no by blast+
  with J F show ?thesis
    unfolding seal_def list.rel_inject by blast
qed


section \<open>Which drafts compile\<close>

lemma digested_succeeds: "(\<exists>d. digest v = Inr d) \<longleftrightarrow> portable v"
  by (simp add: digest_portable [symmetric] succeeds_iff)

definition encodable_draft :: "journey_draft \<Rightarrow> bool" where
  "encodable_draft d \<longleftrightarrow>
     portable (set_form (assertions d)) \<and> portable (text_dict (navigator_values (fixture d))) \<and>
     portable (text_dict (reset_values (fixture d))) \<and>
     portable (text_dict (observer_config (fixture d))) \<and>
     list_all (list_all scalar) [template_id (fixture d), name d, summary (intent d),
       start_url (intent d), success_condition (intent d)]"

lemma portable_sorted_dict [simp]: "portable (sorted_dict kvs) = portable (text_dict kvs)"
  by (simp add: sorted_dict_def text_dict_def list_all_iff)

lemma portable_text_set: "finite S \<Longrightarrow> portable (text_set S) \<longleftrightarrow> (\<forall>t \<in> S. list_all scalar t)"
  by (simp add: text_set_def list_all_iff)

lemma chords_scalar: "ALLOWED_KEY_CHORDS p = Some S \<Longrightarrow> list_all scalar p \<and> (\<forall>t \<in> S. list_all scalar t)"
  by (auto simp: ALLOWED_KEY_CHORDS_def split: if_splits)

lemma validated_portable:
  assumes "validate_draft d = Inr u"
  shows "list_all scalar (platform d)" "portable (text_set (allowed_actions d))"
    "portable (text_set (allowed_key_chords d))" "portable (text_set (allowed_effects d))"
proof -
  note v = assms [unfolded validate_draft_Inr] and fin = validated_finite [OF assms]
  from v obtain chords where c: "ALLOWED_KEY_CHORDS (platform d) = Some chords"
      "allowed_key_chords d \<subseteq> chords" by blast
  from chords_scalar [OF c(1)] c(2) show "list_all scalar (platform d)"
    and "portable (text_set (allowed_key_chords d))"
    using portable_text_set [OF fin(2)] by auto
  show "portable (text_set (allowed_actions d))" "portable (text_set (allowed_effects d))"
    using v portable_text_set [OF fin(1)] portable_text_set [OF fin(3)]
    by (auto simp: ALLOWED_ACTIONS_def)
qed

lemma budget_portable:
  "construct_budget b = Inr b \<Longrightarrow> portable (PInt (max_actions b)) \<and> portable (PInt (wall_time_seconds b))"
  by (auto simp: construct_budget_def MAX_ACTIONS_def MAX_WALL_TIME_SECONDS_def
      MIN_SAFE_INTEGER_def MAX_SAFE_INTEGER_def split: if_splits)

lemma compile_journey_total:
  assumes v: "validate_draft d = Inr ()" and s: "check_slots d = Inr ()" and e: "encodable_draft d"
    and b: "construct_budget (budget d) = Inr (budget d)"
  shows "\<exists>c. compile_journey fresh vid d = Inr c"
proof -
  note p = validated_portable [OF v] budget_portable [OF b] e [unfolded encodable_draft_def]
  obtain a where a: "digest (set_form (assertions d)) = Inr a"
    using p digested_succeeds by blast
  obtain r where r: "digest (sorted_dict (reset_values (fixture d))) = Inr r"
    using p digested_succeeds portable_sorted_dict by blast
  obtain obs where obs: "digest (sorted_dict (observer_config (fixture d))) = Inr obs"
    using p digested_succeeds portable_sorted_dict by blast
  have "portable (fixture_contract (fixture d) r obs)"
    unfolding fixture_contract_def using p digest_scalar [OF r] digest_scalar [OF obs]
    by (simp add: MAX_SAFE_INTEGER_def MIN_SAFE_INTEGER_def)
  then obtain f where f: "digest (fixture_contract (fixture d) r obs) = Inr f"
    using digested_succeeds by blast
  have "portable (navigator_policy_of d)"
    unfolding navigator_policy_of_def navigator_view_def using p by simp
  then obtain n where n: "digest (navigator_policy_of d) = Inr n"
    using digested_succeeds by blast
  have "portable (journey_contract d a f n)"
    unfolding journey_contract_def
    using p digest_scalar [OF a] digest_scalar [OF f] digest_scalar [OF n] by simp
  then obtain j where j: "digest (journey_contract d a f n) = Inr j"
    using digested_succeeds by blast
  show ?thesis
    unfolding compile_journey_def Let_def digested_def v s a r obs f n j map_error.simps
      bind_result.simps by blast
qed


section \<open>Properties\<close>

text \<open>A small journey for the witnesses.\<close>

definition sample_draft :: journey_draft where
  "sample_draft =
     \<lparr>name = str ''Form'',
      intent = \<lparr>summary = str ''Send it'', start_url = str ''https://a.test/'', success_condition = str ''Sent''\<rparr>,
      assertions =
        [\<lparr>assertion_id = str ''A'', kind = TASK_COMPLETION, description = str ''done'', required = True,
          unknown_reasons = {OBSERVER_UNREACHABLE}, evaluation_rule = None\<rparr>,
         \<lparr>assertion_id = str ''B'', kind = REQUIRED_ANNOUNCEMENT, description = str ''said'',
          required = True, unknown_reasons = {OBSERVATION_MISSING},
          evaluation_rule = Some ((bare_rule (lit ''EXACT_READER_PHRASE''))
            \<lparr>rule_action_sequence := PInt 2, rule_phrase := lit ''Sent''\<rparr>)\<rparr>],
      fixture = \<lparr>template_id = str ''T'', navigator_values = [(str ''k'', str ''v'')],
                 reset_values = [], observer_config = [(str ''o'', str ''w'')]\<rparr>,
      budget = \<lparr>max_actions = 5, wall_time_seconds = 60\<rparr>,
      platform = str ''darwin'', allowed_actions = {str ''NEXT'', str ''STOP''},
      allowed_key_chords = {}, allowed_effects = {str ''FIXTURE_SUBMIT''}\<rparr>"

lemma sample_draft_compiles: "\<exists>c. compile_journey fresh vid sample_draft = Inr c"
proof (rule compile_journey_total)
  show "validate_draft sample_draft = Inr ()"
    by (simp add: validate_draft_Inr sample_draft_def ALLOWED_KEY_CHORDS_def ALLOWED_ACTIONS_def)
  show "check_slots sample_draft = Inr ()"
    by (simp add: check_slots_Inr sample_draft_def rules_of_def List.map_filter_def uses_last_slot_def
        bare_rule_def)
  show "encodable_draft sample_draft"
    by (simp add: encodable_draft_def sample_draft_def text_dict_def set_form_def assertion_form_def
        rule_form_def bare_rule_def observer_of_def MIN_SAFE_INTEGER_def MAX_SAFE_INTEGER_def)
  show "construct_budget (budget sample_draft) = Inr (budget sample_draft)"
    by (simp add: construct_budget_def sample_draft_def MAX_ACTIONS_def MAX_WALL_TIME_SECONDS_def)
qed


lemma collides_irrefl: "\<not> collides v v"
  by (auto simp: collides_def)


text \<open>
  C32: what a compiled journey may do is bounded. Its actions and key chords lie in the allowlists
  of its platform and always include STOP, its effects are the two fixture effects, and every
  action a reading rule waits for comes before the last slot of a budget of at most 500 actions,
  so that slot is left for STOP.
\<close>

theorem compiled_journey_bounded:
  assumes "compile_journey fresh vid d = Inr c" and "construct_budget (budget d) = Inr (budget d)"
  shows "1 \<le> max_actions (budget d) \<and> max_actions (budget d) \<le> 500 \<and>
    wall_time_seconds (budget d) \<le> 1800 \<and>
    allowed_actions d \<subseteq> ALLOWED_ACTIONS \<and> str ''STOP'' \<in> allowed_actions d \<and>
    (\<exists>chords. ALLOWED_KEY_CHORDS (platform d) = Some chords \<and> allowed_key_chords d \<subseteq> chords) \<and>
    allowed_effects d \<subseteq> {str ''FIXTURE_SUBMIT'', str ''FIXTURE_RESET''} \<and>
    list_all (\<lambda>r. (rule_action_sequence r = PNone \<or>
                   as_int (rule_action_sequence r) < max_actions (budget d)) \<and>
                  list_all (\<lambda>s. step_action_sequence s < max_actions (budget d)) (rule_steps r))
      (rules_of (assertions d))"
proof -
  note D = compile_journey_Inr(1,2) [OF assms(1)]
  have "1 \<le> max_actions (budget d) \<and> max_actions (budget d) \<le> 500 \<and>
      wall_time_seconds (budget d) \<le> 1800"
    using assms(2) by (auto simp: construct_budget_def MAX_ACTIONS_def MAX_WALL_TIME_SECONDS_def
        split: if_splits)
  moreover have "list_all (\<lambda>r. (rule_action_sequence r = PNone \<or>
                   as_int (rule_action_sequence r) < max_actions (budget d)) \<and>
                  list_all (\<lambda>s. step_action_sequence s < max_actions (budget d)) (rule_steps r))
      (rules_of (assertions d))"
    using D(2) unfolding check_slots_Inr
    by (auto simp: uses_last_slot_def list_all_iff list_ex_iff not_le)
  ultimately show ?thesis using D unfolding validate_draft_Inr check_slots_Inr by blast
qed

lemma compiled_journey_bounded_witness:
  "max_actions (budget sample_draft) = 5 \<and> rules_of (assertions sample_draft) \<noteq> [] \<and>
   list_all (\<lambda>r. as_int (rule_action_sequence r) < 5) (rules_of (assertions sample_draft))"
proof -
  obtain c where c: "compile_journey (str ''x'') None sample_draft = Inr c"
    using sample_draft_compiles by blast
  have "construct_budget (budget sample_draft) = Inr (budget sample_draft)"
    by (simp add: construct_budget_def sample_draft_def MAX_ACTIONS_def MAX_WALL_TIME_SECONDS_def)
  from compiled_journey_bounded [OF c this] show ?thesis
    by (simp add: sample_draft_def rules_of_def List.map_filter_def bare_rule_def)
qed

end
