(* ===== verification/Gate.thy ===== *)
theory Gate
  imports Journeys
begin

text \<open>
  The gate every operating-system action passes (\<open>runners/gate.py\<close>). Monotonic readings are Python
  floats, so a reading can be infinite or not a number; a decision's explanatory text is left out.
\<close>

section \<open>Comparing floats\<close>

text \<open>Any comparison with a NaN is false.\<close>

fun float_less :: "pyfloat \<Rightarrow> pyfloat \<Rightarrow> bool" where
  "float_less FNan g = False"
| "float_less f FNan = False"
| "float_less (FInf b) (FInf c) = (\<not> b \<and> c)"
| "float_less (FInf b) (FFinite _) = (\<not> b)"
| "float_less (FFinite _) (FInf c) = c"
| "float_less (FFinite p) (FFinite q) = (p < q)"

fun float_le :: "pyfloat \<Rightarrow> pyfloat \<Rightarrow> bool" where
  "float_le FNan g = False"
| "float_le f FNan = False"
| "float_le (FInf b) (FInf c) = (b \<longrightarrow> c)"
| "float_le (FInf b) (FFinite _) = (\<not> b)"
| "float_le (FFinite _) (FInf c) = c"
| "float_le (FFinite p) (FFinite q) = (p \<le> q)"

abbreviation float_int :: "int \<Rightarrow> pyfloat" where
  "float_int i \<equiv> FFinite (of_int i)"

section \<open>Leases, requests and decisions\<close>

datatype gate_refusal =
    LEASE_EPOCH_STALE | LEASE_EXPIRED | CANCELLATION_REQUESTED | ACTION_BUDGET_EXHAUSTED
  | WALL_TIME_BUDGET_EXHAUSTED | ACTION_NOT_ALLOWED | KEY_CHORD_NOT_ALLOWED
  | ORIGIN_NOT_PERMITTED | ACTION_IN_FLIGHT | CLOCK_WENT_BACKWARDS | MALFORMED_REQUEST

datatype gate_value_error = EpochBelowOne | AdmittedWithRefusal | RefusedWithoutReason

record lease_view =
  lease_id :: pytext
  epoch :: int
  current_epoch :: int
  deadline_monotonic :: pyfloat
  cancel_requested :: bool
  action_in_flight :: bool

definition construct_lease :: "lease_view \<Rightarrow> (gate_value_error, lease_view) result" where
  "construct_lease l = (if epoch l < 1 \<or> current_epoch l < 1 then Inl EpochBelowOne else Inr l)"

record action_request =
  action :: pytext
  now_monotonic :: pyfloat
  now_utc :: pytext
  actions_used :: int
  max_actions :: int
  wall_time_used_seconds :: pyfloat
  max_wall_time_seconds :: int
  request_platform :: pytext
  origin :: pytext
  permitted_origins :: "pytext set"
  key_chord :: "pytext option"
  typed_text :: "pytext option"

record action_decision =
  admitted :: bool
  refusal :: "gate_refusal option"

definition construct_decision :: "action_decision \<Rightarrow> (gate_value_error, action_decision) result" where
  "construct_decision d =
     (if admitted d \<and> refusal d \<noteq> None then Inl AdmittedWithRefusal
      else if \<not> admitted d \<and> refusal d = None then Inl RefusedWithoutReason
      else Inr d)"

definition ADMITTED :: action_decision where
  "ADMITTED = \<lparr>admitted = True, refusal = None\<rparr>"

definition refuse :: "gate_refusal \<Rightarrow> action_decision" where
  "refuse reason = \<lparr>admitted = False, refusal = Some reason\<rparr>"

text \<open>\<open>ALLOWED_KEY_CHORDS.get(platform, frozenset())\<close>\<close>

definition chords_for :: "pytext \<Rightarrow> pytext set" where
  "chords_for p = (case ALLOWED_KEY_CHORDS p of None \<Rightarrow> {} | Some chords \<Rightarrow> chords)"

definition evaluate_action :: "lease_view \<Rightarrow> action_request \<Rightarrow> action_decision" where
  "evaluate_action l r =
     (if float_less (now_monotonic r) (FFinite 0) then refuse MALFORMED_REQUEST
      else if actions_used r < 0 \<or> float_less (wall_time_used_seconds r) (FFinite 0)
      then refuse MALFORMED_REQUEST
      else if epoch l \<noteq> current_epoch l then refuse LEASE_EPOCH_STALE
      else if float_le (deadline_monotonic l) (now_monotonic r) then refuse LEASE_EXPIRED
      else if cancel_requested l then refuse CANCELLATION_REQUESTED
      else if action_in_flight l then refuse ACTION_IN_FLIGHT
      else if max_actions r \<le> actions_used r then refuse ACTION_BUDGET_EXHAUSTED
      else if float_le (float_int (max_wall_time_seconds r)) (wall_time_used_seconds r)
      then refuse WALL_TIME_BUDGET_EXHAUSTED
      else if action r \<notin> ALLOWED_ACTIONS then refuse ACTION_NOT_ALLOWED
      else if action r = str ''KEY_CHORD'' \<and> key_chord r = None then refuse MALFORMED_REQUEST
      else if action r = str ''KEY_CHORD'' \<and> the (key_chord r) \<notin> chords_for (request_platform r)
      then refuse KEY_CHORD_NOT_ALLOWED
      else if action r = str ''TYPE_TEXT'' \<and> typed_text r = None then refuse MALFORMED_REQUEST
      else if action r \<noteq> str ''STOP'' \<and> origin r \<notin> permitted_origins r
      then refuse ORIGIN_NOT_PERMITTED
      else ADMITTED)"

section \<open>Facts\<close>

lemma refuse_simps [simp]:
  "admitted (refuse why) = False" "refusal (refuse why) = Some why"
  "admitted ADMITTED" "refusal ADMITTED = None" "refuse why \<noteq> ADMITTED" "ADMITTED \<noteq> refuse why"
  by (simp_all add: refuse_def ADMITTED_def)

text \<open>Order on floats without NaN: exactly one of \<open>f < g\<close> and \<open>g \<le> f\<close>.\<close>

lemma float_total: "f \<noteq> FNan \<Longrightarrow> g \<noteq> FNan \<Longrightarrow> \<not> float_le g f \<longleftrightarrow> float_less f g"
  by (cases f; cases g) auto

lemma float_le_trans: "float_le f g \<Longrightarrow> float_le g h \<Longrightarrow> float_le f h"
  by (cases f; cases g; cases h) auto

lemma float_nan [simp]:
  "\<not> float_less f FNan" "\<not> float_le f FNan"
  by (cases f; simp)+

lemma admitted_guard: "admitted (if guard then refuse why else d) \<longleftrightarrow> \<not> guard \<and> admitted d"
  by simp

lemma admitted_iff:
  "admitted (evaluate_action l r) \<longleftrightarrow>
     \<not> float_less (now_monotonic r) (FFinite 0) \<and> 0 \<le> actions_used r \<and>
     \<not> float_less (wall_time_used_seconds r) (FFinite 0) \<and>
     epoch l = current_epoch l \<and> \<not> float_le (deadline_monotonic l) (now_monotonic r) \<and>
     \<not> cancel_requested l \<and> \<not> action_in_flight l \<and> actions_used r < max_actions r \<and>
     \<not> float_le (float_int (max_wall_time_seconds r)) (wall_time_used_seconds r) \<and>
     action r \<in> ALLOWED_ACTIONS \<and>
     (action r = str ''KEY_CHORD'' \<longrightarrow>
        (\<exists>chord. key_chord r = Some chord \<and> chord \<in> chords_for (request_platform r))) \<and>
     (action r = str ''TYPE_TEXT'' \<longrightarrow> typed_text r \<noteq> None) \<and>
     (action r = str ''STOP'' \<or> origin r \<in> permitted_origins r)"
proof -
  have chord: "(\<not> (K \<and> key_chord r = None) \<and> \<not> (K \<and> the (key_chord r) \<notin> S)) \<longleftrightarrow>
      (K \<longrightarrow> (\<exists>chord. key_chord r = Some chord \<and> chord \<in> S))" for K S
    by (cases "key_chord r") auto
  show ?thesis
    unfolding evaluate_action_def admitted_guard chord [symmetric]
    by (simp only: not_le not_less de_Morgan_conj de_Morgan_disj not_not imp_conv_disj refuse_simps(3)
        simp_thms conj_assoc)
qed

section \<open>Properties\<close>

text \<open>
  The gate fails closed for every reading of a clock that is a number: an action is admitted
  exactly when each of the thirteen conditions of the source is positively established. In
  particular an admitted action is inside the lease, not cancelled, alone, within both budgets, in
  the closed vocabulary and on a permitted origin, STOP alone excepted from the last.
\<close>

theorem gate_admits_exactly:
  assumes "now_monotonic r \<noteq> FNan" and "deadline_monotonic l \<noteq> FNan"
    and "wall_time_used_seconds r \<noteq> FNan"
  shows "admitted (evaluate_action l r) \<longleftrightarrow>
     float_le (FFinite 0) (now_monotonic r) \<and> 0 \<le> actions_used r \<and>
     float_le (FFinite 0) (wall_time_used_seconds r) \<and>
     epoch l = current_epoch l \<and> float_less (now_monotonic r) (deadline_monotonic l) \<and>
     \<not> cancel_requested l \<and> \<not> action_in_flight l \<and> actions_used r < max_actions r \<and>
     float_less (wall_time_used_seconds r) (float_int (max_wall_time_seconds r)) \<and>
     action r \<in> ALLOWED_ACTIONS \<and>
     (action r \<noteq> str ''KEY_CHORD'' \<or>
        (\<exists>chord. key_chord r = Some chord \<and> chord \<in> chords_for (request_platform r))) \<and>
     (action r \<noteq> str ''TYPE_TEXT'' \<or> typed_text r \<noteq> None) \<and>
     (action r = str ''STOP'' \<or> origin r \<in> permitted_origins r)"
proof -
  have "\<not> float_less f (FFinite 0) \<longleftrightarrow> float_le (FFinite 0) f" if "f \<noteq> FNan" for f
    using float_total [OF that, of "FFinite 0"] by auto
  then show ?thesis
    unfolding admitted_iff using assms float_total by auto
qed

definition sample_lease :: lease_view where
  "sample_lease =
     \<lparr>lease_id = str ''L'', epoch = 1, current_epoch = 1, deadline_monotonic = FFinite 100,
      cancel_requested = False, action_in_flight = False\<rparr>"

definition sample_request :: action_request where
  "sample_request =
     \<lparr>action = str ''STOP'', now_monotonic = FFinite 10, now_utc = str ''2026-01-01T00:00:00Z'',
      actions_used = 0, max_actions = 5, wall_time_used_seconds = FFinite 1,
      max_wall_time_seconds = 60, request_platform = str ''darwin'', origin = str ''https://x.test'',
      permitted_origins = {}, key_chord = None, typed_text = None\<rparr>"

lemma gate_admits_exactly_witness:
  "admitted (evaluate_action sample_lease sample_request) \<and>
   \<not> admitted (evaluate_action sample_lease (sample_request\<lparr>action := str ''NEXT''\<rparr>))"
proof -
  have "str ''STOP'' \<in> ALLOWED_ACTIONS" by (simp add: ALLOWED_ACTIONS_def)
  then show ?thesis
    using gate_admits_exactly [of sample_request sample_lease]
      gate_admits_exactly [of "sample_request\<lparr>action := str ''NEXT''\<rparr>" sample_lease]
    by (simp add: sample_request_def sample_lease_def)
qed

text \<open>
  A NaN makes the gate fail open. With a lease deadline that is not a number the gate decides
  every request as if the deadline were infinitely far away, and with a clock reading that is not a
  number it never refuses for expiry.
\<close>

theorem nan_never_expires:
  "evaluate_action (l\<lparr>deadline_monotonic := FNan\<rparr>) (r\<lparr>now_monotonic := FFinite t\<rparr>) =
     evaluate_action (l\<lparr>deadline_monotonic := FInf True\<rparr>) (r\<lparr>now_monotonic := FFinite t\<rparr>) \<and>
   refusal (evaluate_action l (r\<lparr>now_monotonic := FNan\<rparr>)) \<noteq> Some LEASE_EXPIRED"
  unfolding evaluate_action_def by simp

text \<open>
  A refusal that rests on the lease does not go away. Once expiry, a superseded epoch or a
  requested cancellation refuses an action, no action is admitted at any later reading of the same
  clock, whatever it is, while the lease stays as it is.
\<close>

theorem expired_lease_stays_expired:
  assumes "refusal (evaluate_action l r) \<in> {Some LEASE_EXPIRED, Some LEASE_EPOCH_STALE,
             Some CANCELLATION_REQUESTED}"
    and "float_le (now_monotonic r) (now_monotonic r')"
  shows "\<not> admitted (evaluate_action l r')"
proof -
  have "epoch l \<noteq> current_epoch l \<or> cancel_requested l \<or>
      float_le (deadline_monotonic l) (now_monotonic r)"
    using assms(1) unfolding evaluate_action_def by (auto split: if_splits)
  then show ?thesis
    unfolding admitted_iff using float_le_trans assms(2) by blast
qed

lemma expired_lease_stays_expired_witness:
  "\<not> admitted (evaluate_action sample_lease (sample_request\<lparr>now_monotonic := FFinite 101\<rparr>))"
  by (rule expired_lease_stays_expired [of _ "sample_request\<lparr>now_monotonic := FFinite 100\<rparr>"])
    (simp_all add: sample_lease_def sample_request_def evaluate_action_def)

end
