(* ===== verification/Navigation.thy ===== *)
theory Navigation
  imports Gate
begin

text \<open>
  The navigator's side of the gate: the sealed policy and the typed proposals
  (\<open>agent-tools/navigation/models.py\<close>), the gateway that resolves a proposal
  (\<open>gateway.py\<close>), and the planning checkpoints it leaves (\<open>navigator/checkpoints.py\<close>). The parsing
  of raw input into typed fields is pydantic's; its constraints on the fields are modelled.
\<close>

section \<open>Policies and proposals\<close>

datatype action_name =
    NEXT | PREVIOUS | ACTIVATE | TYPE_TEXT | KEY_CHORD | READ_CURRENT | WAIT_FOR_READER_IDLE | STOP

fun action_value :: "action_name \<Rightarrow> pytext" where
  "action_value NEXT = str ''NEXT''"
| "action_value PREVIOUS = str ''PREVIOUS''"
| "action_value ACTIVATE = str ''ACTIVATE''"
| "action_value TYPE_TEXT = str ''TYPE_TEXT''"
| "action_value KEY_CHORD = str ''KEY_CHORD''"
| "action_value READ_CURRENT = str ''READ_CURRENT''"
| "action_value WAIT_FOR_READER_IDLE = str ''WAIT_FOR_READER_IDLE''"
| "action_value STOP = str ''STOP''"

datatype model_error =
    FieldOutOfRange | UnsupportedAction | ForbiddenObservationsIncomplete
  | TypeTextArguments | KeyChordArguments | NoArgumentsAccepted
  | PhraseMissing | PhraseManufactured | ReasonMissing
  | ModelIdentity | ActionKind | DispatchStatusKind | StopReasonKind | ActionArguments | ActionIdKind

datatype reader_provenance = ACTUAL_READER | CAPTURE_UNKNOWN

record reader_observation =
  phrase :: "pytext option"
  captured_at_utc :: pytext
  observed_action_id :: pytext
  observed_action_sequence :: int
  observed_provenance :: reader_provenance
  reason :: "pytext option"

definition construct_reader_observation ::
  "reader_observation \<Rightarrow> (model_error, reader_observation) result" where
  "construct_reader_observation o' =
     (if \<not> (case phrase o' of None \<Rightarrow> True | Some p \<Rightarrow> length p \<le> 4096) \<or>
         captured_at_utc o' = [] \<or> observed_action_id o' = [] \<or> observed_action_sequence o' < 1 \<or>
         \<not> (case reason o' of None \<Rightarrow> True | Some r \<Rightarrow> length r \<le> 1000)
      then Inl FieldOutOfRange
      else if observed_provenance o' = ACTUAL_READER \<and> phrase o' = None then Inl PhraseMissing
      else if observed_provenance o' = CAPTURE_UNKNOWN \<and> phrase o' \<noteq> None
      then Inl PhraseManufactured
      else if observed_provenance o' = CAPTURE_UNKNOWN \<and> reason o' \<in> {None, Some []}
      then Inl ReasonMissing
      else Inr o')"

record sealed_policy =
  task_summary :: pytext
  policy_success_condition :: pytext
  policy_start_url :: pytext
  policy_actions :: "action_name list"
  policy_key_chords :: "pytext list"
  policy_max_actions :: int
  policy_wall_time_seconds :: int
  fixture_values :: text_map
  forbidden_observations :: "pytext list"

definition required_forbidden :: "pytext list" where
  "required_forbidden =
     map str [''DOM'', ''SELECTORS'', ''SCREENSHOTS'', ''SOURCE'', ''OBSERVER_RECEIPTS'',
              ''ASSERTION_EXPECTATIONS'']"

definition text_within :: "pytext \<Rightarrow> nat \<Rightarrow> bool" where
  "text_within t n \<longleftrightarrow> 1 \<le> length t \<and> length t \<le> n"

definition construct_policy :: "sealed_policy \<Rightarrow> (model_error, sealed_policy) result" where
  "construct_policy p =
     (if \<not> text_within (task_summary p) 2000 \<or> \<not> text_within (policy_success_condition p) 2000 \<or>
         policy_start_url p = [] \<or> policy_actions p = [] \<or>
         \<not> (1 \<le> policy_max_actions p \<and> policy_max_actions p \<le> 500) \<or>
         \<not> (1 \<le> policy_wall_time_seconds p \<and> policy_wall_time_seconds p \<le> 1800) \<or>
         \<not> set (forbidden_observations p) \<subseteq> set required_forbidden
      then Inl FieldOutOfRange
      else if \<not> action_value ` set (policy_actions p) \<subseteq> ALLOWED_ACTIONS then Inl UnsupportedAction
      else if set (forbidden_observations p) \<noteq> set required_forbidden
      then Inl ForbiddenObservationsIncomplete
      else Inr p)"

record proposed_action =
  proposal_run_ref :: pytext
  proposed :: action_name
  proposed_chord :: "pytext option"
  text_value_ref :: "pytext option"

definition value_ref_ok :: "pytext \<Rightarrow> bool" where
  "value_ref_ok t \<longleftrightarrow>
     t \<noteq> [] \<and> letter (hd t) \<and> length t \<le> 64 \<and>
     list_all (\<lambda>c. letter c \<or> is_digit c \<or> c = 95 \<or> c = 45) (tl t)"

definition construct_proposal :: "proposed_action \<Rightarrow> (model_error, proposed_action) result" where
  "construct_proposal p =
     (if proposal_run_ref p = [] \<or>
         \<not> (case text_value_ref p of None \<Rightarrow> True | Some t \<Rightarrow> value_ref_ok t)
      then Inl FieldOutOfRange
      else case proposed p of
          TYPE_TEXT \<Rightarrow>
            if text_value_ref p = None \<or> proposed_chord p \<noteq> None then Inl TypeTextArguments else Inr p
        | KEY_CHORD \<Rightarrow>
            if proposed_chord p = None \<or> text_value_ref p \<noteq> None then Inl KeyChordArguments else Inr p
        | _ \<Rightarrow>
            if proposed_chord p \<noteq> None \<or> text_value_ref p \<noteq> None then Inl NoArgumentsAccepted
            else Inr p)"

section \<open>The gateway\<close>

datatype dispatch_status = SUCCEEDED | FAILED | AMBIGUOUS | REFUSED

record dispatch_request =
  request_run_ref :: pytext
  request_action :: pytext
  request_chord :: "pytext option"
  request_text :: "pytext option"
  request_value_ref :: "pytext option"

record dispatch_result =
  status :: dispatch_status
  action_id :: "pytext option"

record runtime_state =
  rt_lease_id :: pytext
  rt_lease_epoch :: int
  rt_current_epoch :: int
  rt_deadline_monotonic :: pyfloat
  rt_cancel_requested :: bool
  rt_action_in_flight :: bool
  rt_now_monotonic :: pyfloat
  rt_now_utc :: pytext
  rt_actions_used :: int
  rt_wall_time_used_seconds :: pyfloat
  rt_observed_origin :: pytext

record gateway =
  gw_run_ref :: pytext
  gw_platform :: pytext
  gw_permitted_origins :: "pytext set"
  gw_policy :: sealed_policy

datatype gateway_error =
    WrongRun | ActionOutsidePolicy | ChordOutsidePolicy | TextOutsideFixture
  | GateRefused gate_refusal
  | LeaseInvalid gate_value_error

text \<open>Every \<open>gateway_error\<close> is a \<open>ToolRefusal\<close> but the last, the \<open>ValueError\<close> of the lease view.\<close>

fun tool_refusal :: "gateway_error \<Rightarrow> bool" where
  "tool_refusal (LeaseInvalid _) = False"
| "tool_refusal _ = True"

definition lease_of :: "runtime_state \<Rightarrow> lease_view" where
  "lease_of rt =
     \<lparr>lease_id = rt_lease_id rt, epoch = rt_lease_epoch rt, current_epoch = rt_current_epoch rt,
      deadline_monotonic = rt_deadline_monotonic rt, cancel_requested = rt_cancel_requested rt,
      action_in_flight = rt_action_in_flight rt\<rparr>"

definition request_of ::
  "gateway \<Rightarrow> runtime_state \<Rightarrow> proposed_action \<Rightarrow> pytext option \<Rightarrow> action_request" where
  "request_of g rt p txt =
     \<lparr>action = action_value (proposed p), now_monotonic = rt_now_monotonic rt,
      now_utc = rt_now_utc rt, actions_used = rt_actions_used rt,
      max_actions = policy_max_actions (gw_policy g),
      wall_time_used_seconds = rt_wall_time_used_seconds rt,
      max_wall_time_seconds = policy_wall_time_seconds (gw_policy g),
      request_platform = gw_platform g, origin = rt_observed_origin rt,
      permitted_origins = gw_permitted_origins g, key_chord = proposed_chord p, typed_text = txt\<rparr>"

text \<open>The text a proposal names, where it is a \<open>TYPE_TEXT\<close>.\<close>

definition resolve_text :: "gateway \<Rightarrow> proposed_action \<Rightarrow> (gateway_error, pytext option) result" where
  "resolve_text g p =
     (if proposed p \<noteq> TYPE_TEXT then Inr None
      else case text_value_ref p of
          None \<Rightarrow> Inl TextOutsideFixture
        | Some ref \<Rightarrow>
            (case map_of (fixture_values (gw_policy g)) ref of
               None \<Rightarrow> Inl TextOutsideFixture
             | Some t \<Rightarrow> Inr (Some t)))"

text \<open>\<open>submit\<close> up to the call of the supervisor: the request that reaches it, or the exception.\<close>

definition submit ::
  "gateway \<Rightarrow> runtime_state \<Rightarrow> proposed_action \<Rightarrow> (gateway_error, dispatch_request) result" where
  "submit g rt p =
     (if proposal_run_ref p \<noteq> gw_run_ref g then Inl WrongRun
      else if proposed p \<notin> set (policy_actions (gw_policy g)) then Inl ActionOutsidePolicy
      else if proposed p = KEY_CHORD \<and>
              (case proposed_chord p of None \<Rightarrow> True
               | Some chord \<Rightarrow> chord \<notin> set (policy_key_chords (gw_policy g)))
      then Inl ChordOutsidePolicy
      else bind_result (resolve_text g p) (\<lambda>txt.
           bind_result (map_error LeaseInvalid (construct_lease (lease_of rt))) (\<lambda>lease.
           let decision = evaluate_action lease (request_of g rt p txt) in
           if \<not> admitted decision then Inl (GateRefused (the (refusal decision)))
           else Inr \<lparr>request_run_ref = gw_run_ref g, request_action = action_value (proposed p),
                     request_chord = proposed_chord p, request_text = txt,
                     request_value_ref = text_value_ref p\<rparr>)))"

section \<open>Checkpoints\<close>

datatype checkpoint_kind =
    MODEL_CALL_STARTED | ACTION_PROPOSED | ACTION_RESOLVED | MODEL_CALL_STOPPED | NAVIGATOR_STOPPED

record planning_checkpoint =
  cp_run_ref :: pytext
  cp_kind :: checkpoint_kind
  sdk_version :: "pytext option"
  provider :: "pytext option"
  model_id :: "pytext option"
  cp_action :: "action_name option"
  cp_key_chord :: "pytext option"
  cp_text_value_ref :: "pytext option"
  dispatch_status :: "dispatch_status option"
  cp_action_id :: "pytext option"
  stop_reason :: "pytext option"

definition truthy :: "pytext option \<Rightarrow> bool" where
  "truthy t \<longleftrightarrow> t \<notin> {None, Some []}"

definition construct_checkpoint ::
  "planning_checkpoint \<Rightarrow> (model_error, planning_checkpoint) result" where
  "construct_checkpoint c =
     (let model_kind = cp_kind c \<in> {MODEL_CALL_STARTED, MODEL_CALL_STOPPED, NAVIGATOR_STOPPED};
          identity = [sdk_version c, provider c, model_id c];
          action_kind = cp_kind c \<in> {ACTION_PROPOSED, ACTION_RESOLVED};
          stopped_kind = cp_kind c \<in> {MODEL_CALL_STOPPED, NAVIGATOR_STOPPED}
      in
      if cp_run_ref c = [] then Inl FieldOutOfRange
      else if model_kind \<and> \<not> list_all truthy identity \<or> \<not> model_kind \<and> list_ex (\<lambda>v. v \<noteq> None) identity
      then Inl ModelIdentity
      else if action_kind \<noteq> (cp_action c \<noteq> None) then Inl ActionKind
      else if (cp_kind c = ACTION_RESOLVED) \<noteq> (dispatch_status c \<noteq> None) then Inl DispatchStatusKind
      else if stopped_kind \<noteq> (stop_reason c \<noteq> None) then Inl StopReasonKind
      else if (if cp_action c = Some KEY_CHORD then cp_key_chord c = None \<or> cp_text_value_ref c \<noteq> None
               else if cp_action c = Some TYPE_TEXT then
                 cp_text_value_ref c = None \<or> cp_key_chord c \<noteq> None
               else cp_key_chord c \<noteq> None \<or> cp_text_value_ref c \<noteq> None)
      then Inl ActionArguments
      else if cp_kind c \<noteq> ACTION_RESOLVED \<and> cp_action_id c \<noteq> None then Inl ActionIdKind
      else Inr c)"

end
