(* ===== verification/Submission.thy ===== *)
theory Submission
  imports Navigation
begin

text \<open>
  One-shot submission of a proposal (\<open>navigator/submission.py\<close>) as a transition system: any
  number of concurrent \<open>submit\<close> calls on one object interleave at their awaits, other threads may
  set the cancellation fence at any time, and the event loop may cancel a waiting call. The parser
  of raw model input is the parameter \<open>parse\<close>.
\<close>

section \<open>State\<close>

datatype submit_error =
    AlreadyClaimed | CallCancelled | InvalidProposal model_error
  | Refused gateway_error
  | RefusedBySupervisor
  | RetentionFailed
  | TaskCancelled

datatype submit_outcome =
    Returned dispatch_status "pytext option"
  | Raised submit_error

text \<open>Where a call of \<open>submit\<close> is.\<close>

datatype 'raw place =
    Called 'raw
  | Claimed 'raw
  | Retaining proposed_action
  | Retained proposed_action
  | Handing proposed_action
  | Dispatching proposed_action
  | Lost proposed_action
  | Resolving proposed_action dispatch_result
  | Finished submit_outcome

record shared =
  action_claimed :: bool
  cancel_fence :: bool
  checkpoints :: "planning_checkpoint list"
  dispatched :: "dispatch_request list"

type_synonym 'raw submissions = "shared \<times> 'raw place list"

definition checkpoint_for ::
  "checkpoint_kind \<Rightarrow> proposed_action \<Rightarrow> dispatch_status option \<Rightarrow> pytext option \<Rightarrow> planning_checkpoint" where
  "checkpoint_for k p st aid =
     \<lparr>cp_run_ref = proposal_run_ref p, cp_kind = k, sdk_version = None, provider = None,
      model_id = None, cp_action = Some (proposed p), cp_key_chord = proposed_chord p,
      cp_text_value_ref = text_value_ref p, dispatch_status = st, cp_action_id = aid,
      stop_reason = None\<rparr>"

definition retain_checkpoint :: "planning_checkpoint \<Rightarrow> shared \<Rightarrow> shared" where
  "retain_checkpoint c sh = sh\<lparr>checkpoints := checkpoints sh @ [c]\<rparr>"

definition set_fence :: "shared \<Rightarrow> shared" where
  "set_fence sh = sh\<lparr>cancel_fence := True\<rparr>"

text \<open>\<open>ProposedAction.model_validate\<close>\<close>

definition model_validate ::
  "('raw \<Rightarrow> proposed_action option) \<Rightarrow> 'raw \<Rightarrow> (model_error, proposed_action) result" where
  "model_validate parse raw =
     (case parse raw of None \<Rightarrow> Inl FieldOutOfRange | Some p \<Rightarrow> construct_proposal p)"

section \<open>Steps\<close>

inductive task ::
  "('raw \<Rightarrow> proposed_action option) \<Rightarrow> gateway \<Rightarrow> shared \<times> 'raw place \<Rightarrow> shared \<times> 'raw place \<Rightarrow> bool"
  for parse g where
  claim_again: "action_claimed sh \<Longrightarrow> task parse g (sh, Called r) (sh, Finished (Raised AlreadyClaimed))"
| claim_fenced: "\<not> action_claimed sh \<Longrightarrow> cancel_fence sh \<Longrightarrow>
    task parse g (sh, Called r) (sh, Finished (Raised CallCancelled))"
| claim: "\<not> action_claimed sh \<Longrightarrow> \<not> cancel_fence sh \<Longrightarrow>
    task parse g (sh, Called r) (sh\<lparr>action_claimed := True\<rparr>, Claimed r)"
| invalid: "model_validate parse r = Inl e \<Longrightarrow>
    task parse g (sh, Claimed r) (sh, Finished (Raised (InvalidProposal e)))"
| validate: "model_validate parse r = Inr p \<Longrightarrow> task parse g (sh, Claimed r) (sh, Retaining p)"
| retain: "task parse g (sh, Retaining p)
    (retain_checkpoint (checkpoint_for ACTION_PROPOSED p None None) sh, Retained p)"
| retain_failed: "task parse g (sh, Retaining p) (sh, Finished (Raised RetentionFailed))"
| fenced: "cancel_fence sh \<Longrightarrow> task parse g (sh, Retained p) (sh, Finished (Raised CallCancelled))"
| unfenced: "\<not> cancel_fence sh \<Longrightarrow> task parse g (sh, Retained p) (sh, Handing p)"
| refused: "submit g rt p = Inl e \<Longrightarrow> tool_refusal e \<Longrightarrow>
    task parse g (sh, Handing p) (sh, Finished (Raised (Refused e)))"
| failed: "submit g rt p = Inl e \<Longrightarrow> \<not> tool_refusal e \<Longrightarrow>
    task parse g (sh, Handing p) (set_fence sh, Lost p)"
| dispatch: "submit g rt p = Inr req \<Longrightarrow>
    task parse g (sh, Handing p) (sh\<lparr>dispatched := dispatched sh @ [req]\<rparr>, Dispatching p)"
| answered: "task parse g (sh, Dispatching p) (sh, Resolving p result)"
| refused_below: "task parse g (sh, Dispatching p) (sh, Finished (Raised RefusedBySupervisor))"
| transport_failed: "task parse g (sh, Dispatching p) (set_fence sh, Lost p)"
| lost: "task parse g (sh, Lost p)
    (retain_checkpoint (checkpoint_for ACTION_RESOLVED p (Some AMBIGUOUS) None) sh,
     Finished (Returned AMBIGUOUS None))"
| lost_unretained: "task parse g (sh, Lost p) (sh, Finished (Raised RetentionFailed))"
| resolved_ambiguous: "status result = AMBIGUOUS \<Longrightarrow> task parse g (sh, Resolving p result)
    (set_fence (retain_checkpoint (checkpoint_for ACTION_RESOLVED p (Some (status result))
       (action_id result)) sh), Finished (Returned AMBIGUOUS (action_id result)))"
| resolved: "status result \<noteq> AMBIGUOUS \<Longrightarrow> task parse g (sh, Resolving p result)
    (retain_checkpoint (checkpoint_for ACTION_RESOLVED p (Some (status result)) (action_id result)) sh,
     Finished (Returned (status result) (action_id result)))"
| unresolved: "task parse g (sh, Resolving p result)
    (set_fence sh, Finished (Returned AMBIGUOUS (action_id result)))"
| cancelled: "pc \<in> {Called r, Retaining p, Dispatching p, Lost p, Resolving p result} \<Longrightarrow>
    task parse g (sh, pc) (sh, Finished (Raised TaskCancelled))"

inductive submissions_step ::
  "('raw \<Rightarrow> proposed_action option) \<Rightarrow> gateway \<Rightarrow> 'raw submissions \<Rightarrow> 'raw submissions \<Rightarrow> bool"
  for parse g where
  call: "submissions_step parse g (sh, ts) (sh, ts @ [Called r])"
| advance_task: "i < length ts \<Longrightarrow> task parse g (sh, ts ! i) (sh', pc) \<Longrightarrow>
    submissions_step parse g (sh, ts) (sh', ts[i := pc])"
| cancel: "submissions_step parse g (sh, ts) (set_fence sh, ts)"

definition fresh_submissions :: "'raw submissions \<Rightarrow> bool" where
  "fresh_submissions s \<longleftrightarrow>
     s = (\<lparr>action_claimed = False, cancel_fence = False, checkpoints = [], dispatched = []\<rparr>, [])"

section \<open>Checkpoints of a proposal\<close>

lemma construct_proposal_arguments:
  "construct_proposal p = Inr q \<Longrightarrow> q = p \<and> proposal_run_ref p \<noteq> [] \<and>
     (if proposed p = KEY_CHORD then proposed_chord p \<noteq> None \<and> text_value_ref p = None
      else if proposed p = TYPE_TEXT then text_value_ref p \<noteq> None \<and> proposed_chord p = None
      else proposed_chord p = None \<and> text_value_ref p = None)"
  by (cases "proposed p") (auto simp: construct_proposal_def split: if_splits)

lemma checkpoint_for_valid:
  assumes "construct_proposal p = Inr p" and "k \<in> {ACTION_PROPOSED, ACTION_RESOLVED}"
    and "k = ACTION_RESOLVED \<longleftrightarrow> st \<noteq> None" and "k = ACTION_PROPOSED \<Longrightarrow> aid = None"
  shows "construct_checkpoint (checkpoint_for k p st aid) = Inr (checkpoint_for k p st aid)"
  using construct_proposal_arguments [OF assms(1)] assms(2-)
  by (auto simp: construct_checkpoint_def checkpoint_for_def split: if_splits)

section \<open>The invariant\<close>

text \<open>A call that may still dispatch.\<close>

fun pending :: "'raw place \<Rightarrow> nat" where
  "pending (Claimed _) = 1"
| "pending (Retaining _) = 1"
| "pending (Retained _) = 1"
| "pending (Handing _) = 1"
| "pending _ = 0"

definition proposal_retained :: "shared \<Rightarrow> proposed_action \<Rightarrow> bool" where
  "proposal_retained sh p \<longleftrightarrow> checkpoint_for ACTION_PROPOSED p None None \<in> set (checkpoints sh)"

text \<open>What a finished or handing call has to show for.\<close>

fun place_ok :: "shared \<Rightarrow> 'raw place \<Rightarrow> bool" where
  "place_ok sh (Retained p) = proposal_retained sh p"
| "place_ok sh (Handing p) = proposal_retained sh p"
| "place_ok sh (Lost p) = cancel_fence sh"
| "place_ok sh (Finished (Returned st _)) = (st = AMBIGUOUS \<longrightarrow> cancel_fence sh)"
| "place_ok sh _ = True"

definition dispatch_ok :: "gateway \<Rightarrow> shared \<Rightarrow> dispatch_request \<Rightarrow> bool" where
  "dispatch_ok g sh req \<longleftrightarrow> (\<exists>p rt. proposal_retained sh p \<and> submit g rt p = Inr req)"

definition submissions_inv :: "gateway \<Rightarrow> 'raw submissions \<Rightarrow> bool" where
  "submissions_inv g s \<longleftrightarrow>
     sum_list (map pending (snd s)) + length (dispatched (fst s)) \<le>
       (if action_claimed (fst s) then 1 else 0) \<and>
     list_all (place_ok (fst s)) (snd s) \<and> list_all (dispatch_ok g (fst s)) (dispatched (fst s))"

text \<open>Shared state only grows, so what was shown stays shown.\<close>

definition grows :: "shared \<Rightarrow> shared \<Rightarrow> bool" where
  "grows sh sh' \<longleftrightarrow> (cancel_fence sh \<longrightarrow> cancel_fence sh') \<and> (action_claimed sh \<longrightarrow> action_claimed sh') \<and>
     set (checkpoints sh) \<subseteq> set (checkpoints sh')"

lemma place_ok_grows: "grows sh sh' \<Longrightarrow> place_ok sh pc \<Longrightarrow> place_ok sh' pc"
  by (cases "(sh, pc)" rule: place_ok.cases) (auto simp: grows_def proposal_retained_def)

lemma dispatch_ok_grows: "grows sh sh' \<Longrightarrow> dispatch_ok g sh req \<Longrightarrow> dispatch_ok g sh' req"
  by (auto simp: grows_def dispatch_ok_def proposal_retained_def)

lemma task_effect:
  assumes "task parse g (sh, pc) (sh', pc')" and "place_ok sh pc"
  shows "grows sh sh' \<and> place_ok sh' pc' \<and>
    (\<exists>new. dispatched sh' = dispatched sh @ new \<and> list_all (dispatch_ok g sh') new \<and>
       pending pc' + length new + (if action_claimed sh then 1 else 0) \<le>
         pending pc + (if action_claimed sh' then 1 else 0))"
  using assms
  by (cases rule: task.cases)
    (auto simp: grows_def retain_checkpoint_def set_fence_def proposal_retained_def dispatch_ok_def)


lemma sum_list_pending_update:
  assumes "i < length ts"
  shows "sum_list (map pending (ts[i := pc])) + pending (ts ! i) = sum_list (map pending ts) + pending pc"
proof -
  have "pending (ts ! i) \<le> sum_list (map pending ts)"
    using assms by (metis length_map nth_map elem_le_sum_list)
  then show ?thesis using assms by (simp add: map_update sum_list_update)
qed

lemma submissions_inv_step:
  assumes "submissions_inv g s" and "submissions_step parse g s s'"
  shows "submissions_inv g s'"
  using assms(2)
proof cases
  case (call sh ts r)
  with assms(1) show ?thesis by (simp add: submissions_inv_def)
next
  case (cancel sh ts)
  have "grows sh (set_fence sh)" by (simp add: grows_def set_fence_def)
  moreover have "dispatched (set_fence sh) = dispatched sh"
    "action_claimed (set_fence sh) = action_claimed sh"
    by (simp_all add: set_fence_def)
  ultimately show ?thesis
    using assms(1) cancel place_ok_grows dispatch_ok_grows unfolding submissions_inv_def
    by (simp add: list_all_iff) blast
next
  case (advance_task i ts sh sh' pc)
  from assms(1) advance_task have inv: "submissions_inv g (sh, ts)" by simp
  then have "place_ok sh (ts ! i)"
    using advance_task(3) by (simp add: submissions_inv_def list_all_length)
  from task_effect [OF advance_task(4) this] obtain new where
    eff: "grows sh sh'" "place_ok sh' pc" "dispatched sh' = dispatched sh @ new"
      "list_all (dispatch_ok g sh') new"
      "pending pc + length new + (if action_claimed sh then 1 else 0) \<le>
         pending (ts ! i) + (if action_claimed sh' then 1 else 0)"
    by blast
  have "sum_list (map pending (ts[i := pc])) + length (dispatched sh') \<le>
      (if action_claimed sh' then 1 else 0)"
    using sum_list_pending_update [OF advance_task(3), of pc] eff(3,5) inv
    unfolding submissions_inv_def fst_conv snd_conv by (simp split: if_splits)
  moreover have "list_all (place_ok sh') (ts[i := pc])"
    using inv eff(2) place_ok_grows [OF eff(1)] set_update_subset_insert [of ts i pc]
    unfolding submissions_inv_def by (auto simp: list_all_iff)
  moreover have "list_all (dispatch_ok g sh') (dispatched sh')"
    using inv eff(3,4) dispatch_ok_grows [OF eff(1)]
    unfolding submissions_inv_def by (auto simp: list_all_iff)
  ultimately show ?thesis
    using advance_task unfolding submissions_inv_def by simp
qed

interpretation submissions: invariant_system fresh_submissions "submissions_step parse g" "submissions_inv g"
proof
  show "submissions_inv g s" if "fresh_submissions s" for s :: "'a submissions"
    using that by (simp add: fresh_submissions_def submissions_inv_def)
qed (rule submissions_inv_step)

section \<open>Fences\<close>

definition fenced_from :: "dispatch_request list \<Rightarrow> 'raw submissions \<Rightarrow> bool" where
  "fenced_from ds s \<longleftrightarrow>
     cancel_fence (fst s) \<and> dispatched (fst s) = ds \<and> (\<forall>pc \<in> set (snd s). \<forall>p. pc \<noteq> Handing p)"

lemma fenced_task:
  "task parse g (sh, pc) (sh', pc') \<Longrightarrow> cancel_fence sh \<Longrightarrow> \<forall>p. pc \<noteq> Handing p \<Longrightarrow>
     cancel_fence sh' \<and> dispatched sh' = dispatched sh \<and> (\<forall>p. pc' \<noteq> Handing p)"
  by (cases rule: task.cases) (auto simp: retain_checkpoint_def set_fence_def)

lemma fence_step:
  assumes "fenced_from ds s" and "submissions_step parse g s s'"
  shows "fenced_from ds s'"
  using assms(2)
proof cases
  case (advance_task i ts sh sh' pc)
  from assms(1) advance_task have f: "cancel_fence sh" "dispatched sh = ds" "\<forall>p. ts ! i \<noteq> Handing p"
    by (auto simp: fenced_from_def)
  show ?thesis
    using fenced_task [OF advance_task(4) f(1,3)] assms(1) advance_task f(2)
      set_update_subset_insert [of ts i pc]
    by (auto simp: fenced_from_def)
qed (use assms(1) in \<open>auto simp: fenced_from_def set_fence_def\<close>)

interpretation fence: invariant_system "fenced_from ds" "submissions_step parse g" "fenced_from ds"
  by unfold_locales (blast intro: fence_step)+


section \<open>Termination\<close>

fun remaining :: "'raw place \<Rightarrow> nat" where
  "remaining (Called _) = 7"
| "remaining (Claimed _) = 6"
| "remaining (Retaining _) = 5"
| "remaining (Retained _) = 4"
| "remaining (Handing _) = 3"
| "remaining (Dispatching _) = 2"
| "remaining (Lost _) = 1"
| "remaining (Resolving _ _) = 1"
| "remaining (Finished _) = 0"

lemma task_decreases: "task parse g (sh, pc) (sh', pc') \<Longrightarrow> remaining pc' < remaining pc"
  by (cases rule: task.cases) auto

lemma task_progress: "(\<exists>s. task parse g (sh, pc) s) \<or> (\<exists>o'. pc = Finished o')"
proof (cases pc)
  case (Called r)
  then show ?thesis using claim_again claim_fenced claim by metis
next
  case (Claimed r)
  show ?thesis
  proof (cases "model_validate parse r")
    case (Inl e)
    from task.invalid [OF this, of g sh] show ?thesis unfolding Claimed by blast
  next
    case (Inr p)
    from task.validate [OF this, of g sh] show ?thesis unfolding Claimed by blast
  qed
next
  case (Retaining p)
  then show ?thesis using retain by blast
next
  case (Retained p)
  then show ?thesis using fenced unfenced by blast
next
  case (Handing p)
  show ?thesis
  proof (cases "submit g undefined p")
    case (Inl e)
    show ?thesis
    proof (cases "tool_refusal e")
      case True
      from task.refused [OF Inl this, of parse sh] show ?thesis unfolding Handing by blast
    next
      case False
      from task.failed [OF Inl this, of parse sh] show ?thesis unfolding Handing by blast
    qed
  next
    case (Inr req)
    from task.dispatch [OF this, of parse sh] show ?thesis unfolding Handing by blast
  qed
next
  case (Dispatching p)
  then show ?thesis using answered by blast
next
  case (Lost p)
  then show ?thesis using lost by blast
next
  case (Resolving p result)
  then show ?thesis using unresolved by blast
qed simp

section \<open>Properties\<close>

text \<open>A navigator that may read on or type one value, and a healthy runtime.\<close>

definition sample_gateway :: gateway where
  "sample_gateway =
     \<lparr>gw_run_ref = str ''R'', gw_platform = str ''darwin'', gw_permitted_origins = {str ''https://a.test''},
      gw_policy =
        \<lparr>task_summary = str ''Send'', policy_success_condition = str ''Sent'',
         policy_start_url = str ''https://a.test/'', policy_actions = [NEXT, TYPE_TEXT, STOP],
         policy_key_chords = [], policy_max_actions = 5, policy_wall_time_seconds = 60,
         fixture_values = [(str ''email'', str ''x@y.test'')],
         forbidden_observations = required_forbidden\<rparr>\<rparr>"

definition sample_runtime :: runtime_state where
  "sample_runtime =
     \<lparr>rt_lease_id = str ''L'', rt_lease_epoch = 1, rt_current_epoch = 1,
      rt_deadline_monotonic = FFinite 100, rt_cancel_requested = False, rt_action_in_flight = False,
      rt_now_monotonic = FFinite 10, rt_now_utc = str ''2026-01-01T00:00:00Z'', rt_actions_used = 0,
      rt_wall_time_used_seconds = FFinite 1, rt_observed_origin = str ''https://a.test''\<rparr>"

definition sample_proposal :: proposed_action where
  "sample_proposal =
     \<lparr>proposal_run_ref = str ''R'', proposed = TYPE_TEXT, proposed_chord = None,
      text_value_ref = Some (str ''email'')\<rparr>"

definition sample_dispatch :: dispatch_request where
  "sample_dispatch =
     \<lparr>request_run_ref = str ''R'', request_action = str ''TYPE_TEXT'', request_chord = None,
      request_text = Some (str ''x@y.test''), request_value_ref = Some (str ''email'')\<rparr>"

lemma sample_submit: "submit sample_gateway sample_runtime sample_proposal = Inr sample_dispatch"
proof -
  have "admitted (evaluate_action (lease_of sample_runtime)
      (request_of sample_gateway sample_runtime sample_proposal (Some (str ''x@y.test''))))"
    unfolding admitted_iff
    by (simp add: lease_of_def request_of_def sample_runtime_def sample_gateway_def sample_proposal_def
        ALLOWED_ACTIONS_def)
  then show ?thesis
    by (simp add: submit_def resolve_text_def construct_lease_def sample_gateway_def
        sample_proposal_def sample_dispatch_def) (simp add: lease_of_def sample_runtime_def)
qed

lemma sample_proposal_valid: "construct_proposal sample_proposal = Inr sample_proposal"
  by (simp add: construct_proposal_def sample_proposal_def value_ref_ok_def) (code_simp)



text \<open>
  One invocation acts at most once, and never off the record. However many calls of \<open>submit\<close>
  interleave, whatever fails and whenever the fence closes, at most one request reaches the
  supervisor; it is the resolution of a proposal retained before it was dispatched; and once any
  call has reported an ambiguous outcome the fence is closed.
\<close>

theorem one_dispatch_per_invocation:
  assumes "reachable fresh_submissions (submissions_step parse g) (sh, ts)"
  shows "length (dispatched sh) \<le> 1 \<and>
    list_all (\<lambda>req. \<exists>p rt. submit g rt p = Inr req \<and>
        checkpoint_for ACTION_PROPOSED p None None \<in> set (checkpoints sh)) (dispatched sh) \<and>
    (cancel_fence sh \<or> (\<forall>aid. Finished (Returned AMBIGUOUS aid) \<notin> set ts))"
proof -
  from submissions.invar_reachable [OF assms]
  have inv: "submissions_inv g (sh, ts)" .
  then have "length (dispatched sh) \<le> 1"
    by (auto simp: submissions_inv_def split: if_splits)
  moreover have "list_all (dispatch_ok g sh) (dispatched sh)" "list_all (place_ok sh) ts"
    using inv by (simp_all add: submissions_inv_def)
  ultimately show ?thesis
    by (force simp: dispatch_ok_def proposal_retained_def list_all_iff)
qed

text \<open>A run of one call from the claim to the dispatch, for the parser that returns its input.\<close>

lemma sample_run:
  "\<exists>sh. reachable fresh_submissions (submissions_step Some sample_gateway)
     (sh, [Dispatching sample_proposal]) \<and> dispatched sh = [sample_dispatch]"
proof -
  let ?R = "reachable fresh_submissions (submissions_step Some sample_gateway)"
  let ?sh = "\<lparr>action_claimed = False, cancel_fence = False, checkpoints = [], dispatched = []\<rparr>"
  let ?claimed = "?sh\<lparr>action_claimed := True\<rparr>"
  let ?kept = "retain_checkpoint (checkpoint_for ACTION_PROPOSED sample_proposal None None) ?claimed"
  have go: "?R (a, [x]) \<Longrightarrow> task Some sample_gateway (a, x) (b, y) \<Longrightarrow> ?R (b, [y])" for a b x y
    using reach_step advance_task [of 0 "[x]" Some sample_gateway a b y] by fastforce
  have "?R (?sh, [])"
    by (rule reach_init) (simp add: fresh_submissions_def)
  then have "?R (?sh, [Called sample_proposal])"
    using reach_step call [of Some sample_gateway ?sh "[]" sample_proposal] by fastforce
  then have "?R (?claimed, [Claimed sample_proposal])"
    by (rule go) (rule task.claim; simp)
  then have "?R (?claimed, [Retaining sample_proposal])"
    by (rule go) (rule task.validate, simp add: model_validate_def sample_proposal_valid)
  then have "?R (?kept, [Retained sample_proposal])"
    by (rule go) (rule task.retain)
  then have "?R (?kept, [Handing sample_proposal])"
    by (rule go) (rule task.unfenced, simp add: retain_checkpoint_def)
  then have "?R (?kept\<lparr>dispatched := dispatched ?kept @ [sample_dispatch]\<rparr>, [Dispatching sample_proposal])"
    by (rule go) (rule task.dispatch [OF sample_submit])
  then show ?thesis by (force simp: retain_checkpoint_def)
qed

lemma one_dispatch_per_invocation_witness:
  "\<exists>sh. dispatched sh = [sample_dispatch] \<and>
     list_all (\<lambda>req. \<exists>p rt. submit sample_gateway rt p = Inr req \<and>
        checkpoint_for ACTION_PROPOSED p None None \<in> set (checkpoints sh)) (dispatched (sh :: shared))"
  using sample_run one_dispatch_per_invocation by blast

text \<open>
  Cancellation is a fence, not a hope. From a state in which the fence is closed and no call has
  already passed its check of it, no sequence of steps dispatches anything.
\<close>

theorem closed_fence_stops_dispatch:
  assumes "(submissions_step parse g)\<^sup>*\<^sup>* (sh, ts) (sh', ts')" and "cancel_fence sh"
    and "\<forall>pc \<in> set ts. \<forall>p. pc \<noteq> Handing p"
  shows "dispatched sh' = dispatched sh \<and> cancel_fence sh'"
  using fence.invar_run [OF assms(1), of "dispatched sh"] assms(2,3) by (simp add: fenced_from_def)

lemma closed_fence_stops_dispatch_witness:
  "\<exists>sh'. (submissions_step Some sample_gateway)\<^sup>*\<^sup>*
      (\<lparr>action_claimed = False, cancel_fence = True, checkpoints = [], dispatched = []\<rparr>, [])
      (sh', [Called sample_proposal]) \<and> dispatched sh' = []"
proof -
  let ?sh = "\<lparr>action_claimed = False, cancel_fence = True, checkpoints = [], dispatched = []\<rparr>"
  have run: "(submissions_step Some sample_gateway)\<^sup>*\<^sup>* (?sh, []) (?sh, [Called sample_proposal])"
    using call [of Some sample_gateway ?sh "[]" sample_proposal] by auto
  with closed_fence_stops_dispatch [OF run] show ?thesis by auto
qed




end
