(* ===== verification/Preflight.thy ===== *)
theory Preflight
  imports States Timestamps Payload Regex
begin

text \<open>
  Runner readiness: preflight results and the runner's transitions (\<open>runners/preflight.py\<close>), and the
  identity of a desktop and its profile (\<open>runners/identity.py\<close>, \<open>runtime_profile.py\<close>).
\<close>

section \<open>Checks\<close>

datatype preflight_check =
    READER_ACTIVE | READER_VERSION_MATCHES_PROFILE | BROWSER_VERSION_MATCHES_PROFILE
  | SPEECH_CAPTURE_WORKING | PERMITTED_ORIGIN_REACHABLE | ENVIRONMENT_RESET_SUCCEEDED
  | BUILD_IDENTITY_MATCHES_MANIFEST | DESKTOP_SESSION_OWNED | SCREEN_UNLOCKED
  | ACCESSIBILITY_PERMISSION_GRANTED | AUTOMATION_PERMISSION_GRANTED | NO_STALE_INPUT_SOURCE
  | LOCAL_JOURNAL_WRITABLE | MONOTONIC_CLOCK_HEALTHY

fun check_value :: "preflight_check \<Rightarrow> pytext" where
  "check_value READER_ACTIVE = str ''READER_ACTIVE''"
| "check_value READER_VERSION_MATCHES_PROFILE = str ''READER_VERSION_MATCHES_PROFILE''"
| "check_value BROWSER_VERSION_MATCHES_PROFILE = str ''BROWSER_VERSION_MATCHES_PROFILE''"
| "check_value SPEECH_CAPTURE_WORKING = str ''SPEECH_CAPTURE_WORKING''"
| "check_value PERMITTED_ORIGIN_REACHABLE = str ''PERMITTED_ORIGIN_REACHABLE''"
| "check_value ENVIRONMENT_RESET_SUCCEEDED = str ''ENVIRONMENT_RESET_SUCCEEDED''"
| "check_value BUILD_IDENTITY_MATCHES_MANIFEST = str ''BUILD_IDENTITY_MATCHES_MANIFEST''"
| "check_value DESKTOP_SESSION_OWNED = str ''DESKTOP_SESSION_OWNED''"
| "check_value SCREEN_UNLOCKED = str ''SCREEN_UNLOCKED''"
| "check_value ACCESSIBILITY_PERMISSION_GRANTED = str ''ACCESSIBILITY_PERMISSION_GRANTED''"
| "check_value AUTOMATION_PERMISSION_GRANTED = str ''AUTOMATION_PERMISSION_GRANTED''"
| "check_value NO_STALE_INPUT_SOURCE = str ''NO_STALE_INPUT_SOURCE''"
| "check_value LOCAL_JOURNAL_WRITABLE = str ''LOCAL_JOURNAL_WRITABLE''"
| "check_value MONOTONIC_CLOCK_HEALTHY = str ''MONOTONIC_CLOCK_HEALTHY''"

definition REQUIRED_PREFLIGHT_CHECKS :: "preflight_check list" where
  "REQUIRED_PREFLIGHT_CHECKS =
     [READER_ACTIVE, READER_VERSION_MATCHES_PROFILE, BROWSER_VERSION_MATCHES_PROFILE,
      SPEECH_CAPTURE_WORKING, PERMITTED_ORIGIN_REACHABLE, ENVIRONMENT_RESET_SUCCEEDED,
      BUILD_IDENTITY_MATCHES_MANIFEST, DESKTOP_SESSION_OWNED, SCREEN_UNLOCKED,
      ACCESSIBILITY_PERMISSION_GRANTED, AUTOMATION_PERMISSION_GRANTED, NO_STALE_INPUT_SOURCE,
      LOCAL_JOURNAL_WRITABLE, MONOTONIC_CLOCK_HEALTHY]"

datatype quarantine_reason =
    LEASE_EXPIRED_WITHOUT_STOP_PROOF | AMBIGUOUS_ACTION | PREFLIGHT_FAILED | PROFILE_DRIFTED
  | RESET_FAILED | STALE_EPOCH_SUBMISSION | OPERATOR_REQUESTED

datatype ambiguity_reason =
    ACTION_RESULT_NEVER_ARRIVED | STOP_ACKNOWLEDGEMENT_LOST | LEASE_EXPIRED_MID_ACTION
  | SUPERVISOR_CRASHED_AFTER_INTENT | CLOCK_DISCONTINUITY

text \<open>A key of the submitted mapping is a check, or a text outside the vocabulary.\<close>

type_synonym check_key = "preflight_check + pytext"

record preflight_result =
  runner_profile_digest :: pytext
  environment_config_digest :: pytext
  preflight_manifest_digest :: pytext
  observed_reader_version :: pytext
  observed_browser_version :: pytext
  observed_locale :: pytext
  observed_keyboard_layout :: pytext
  desktop_session_key :: pytext
  observed_at :: pytext
  checks :: "(check_key \<times> condition) list"

datatype preflight_error =
    ObservedAtInvalid | BindingFieldEmpty | UnknownCheckReported
  | TransitionNotAdmissible | PreflightMissing | PreflightUnsuccessful

definition construct_preflight ::
  "preflight_result \<Rightarrow> (preflight_error, preflight_result) result" where
  "construct_preflight p =
     bind_result (map_error (\<lambda>_. ObservedAtInvalid) (parse_rfc3339_utc (observed_at p))) (\<lambda>_.
     if list_ex blank [runner_profile_digest p, environment_config_digest p,
                       preflight_manifest_digest p, desktop_session_key p]
     then Inl BindingFieldEmpty
     else if list_ex (\<lambda>kc. case fst kc of Inl _ \<Rightarrow> False | Inr _ \<Rightarrow> True) (checks p)
     then Inl UnknownCheckReported
     else Inr p)"

text \<open>\<open>self.checks.get(check)\<close>\<close>

definition reported :: "preflight_result \<Rightarrow> preflight_check \<Rightarrow> condition option" where
  "reported p k = map_of (checks p) (Inl k)"

definition missing_checks :: "preflight_result \<Rightarrow> preflight_check set" where
  "missing_checks p = set (filter (\<lambda>k. reported p k = None) REQUIRED_PREFLIGHT_CHECKS)"

definition failed_checks :: "preflight_result \<Rightarrow> preflight_check set" where
  "failed_checks p =
     set (filter (\<lambda>k. (case reported p k of None \<Rightarrow> UNKNOWN | Some c \<Rightarrow> c) = FALSE)
            REQUIRED_PREFLIGHT_CHECKS)"

definition unknown_checks :: "preflight_result \<Rightarrow> preflight_check set" where
  "unknown_checks p = set (filter (\<lambda>k. reported p k = Some UNKNOWN) REQUIRED_PREFLIGHT_CHECKS)"

definition is_successful :: "preflight_result \<Rightarrow> bool" where
  "is_successful p \<longleftrightarrow> missing_checks p = {} \<and> failed_checks p = {} \<and> unknown_checks p = {}"

fun join_texts :: "pytext \<Rightarrow> pytext list \<Rightarrow> pytext" where
  "join_texts sep [] = []"
| "join_texts sep [t] = t"
| "join_texts sep (t # u # ts) = t @ sep @ join_texts sep (u # ts)"

definition check_list :: "preflight_check set \<Rightarrow> pytext" where
  "check_list ks = join_texts (str '', '') (sorted_list_of_set (check_value ` ks))"

definition refusal_summary :: "preflight_result \<Rightarrow> pytext" where
  "refusal_summary p =
     (if is_successful p then []
      else join_texts (str ''; '')
        ((if failed_checks p \<noteq> {} then [str ''failed: '' @ check_list (failed_checks p)] else []) @
         (if unknown_checks p \<noteq> {}
          then [str ''could not be determined: '' @ check_list (unknown_checks p)] else []) @
         (if missing_checks p \<noteq> {}
          then [str ''not reported at all: '' @ check_list (missing_checks p)] else [])))"

section \<open>Transitions\<close>

fun admissible_runner_transitions :: "runner_status \<Rightarrow> runner_status set" where
  "admissible_runner_transitions OFFLINE = {PREFLIGHT_REQUIRED, QUARANTINED}"
| "admissible_runner_transitions PREFLIGHT_REQUIRED = {READY, OFFLINE, QUARANTINED}"
| "admissible_runner_transitions READY = {BUSY, OFFLINE, QUARANTINED}"
| "admissible_runner_transitions BUSY = {PREFLIGHT_REQUIRED, OFFLINE, QUARANTINED}"
| "admissible_runner_transitions QUARANTINED = {PREFLIGHT_REQUIRED}"

definition assert_runner_transition ::
  "runner_status \<Rightarrow> runner_status \<Rightarrow> preflight_result option \<Rightarrow> (preflight_error, unit) result" where
  "assert_runner_transition current proposed preflight =
     (if proposed \<notin> admissible_runner_transitions current then Inl TransitionNotAdmissible
      else if proposed = READY then
        (case preflight of
           None \<Rightarrow> Inl PreflightMissing
         | Some p \<Rightarrow> if \<not> is_successful p then Inl PreflightUnsuccessful else Inr ())
      else Inr ())"

section \<open>Desktops and profiles\<close>

definition SUPPORTED_PLATFORMS :: "pytext list" where
  "SUPPORTED_PLATFORMS = map str [''darwin'', ''win32'']"

definition PROCESS_SHAPED_KEYS :: "pytext list" where
  "PROCESS_SHAPED_KEYS =
     map str [''pid'', ''process_id'', ''processid'', ''container_id'', ''containerid'', ''docker_id'',
              ''task_arn'', ''instance_id'', ''hostname'', ''boot_id'']"

definition ascii_alnum :: "code_point \<Rightarrow> bool" where
  "ascii_alnum c \<longleftrightarrow> 65 \<le> c \<and> c \<le> 90 \<or> 97 \<le> c \<and> c \<le> 122 \<or> is_digit c"

definition SESSION_ID_SHAPE :: "pytext \<Rightarrow> bool" where
  "SESSION_ID_SHAPE s \<longleftrightarrow>
     s \<noteq> [] \<and> length s \<le> 128 \<and> ascii_alnum (hd s) \<and>
     list_all (\<lambda>c. ascii_alnum c \<or> c \<in> set (str ''._:-'')) (tl s)"

datatype enrollment_error =
    PlatformUnsupported | IdentifierUnusable | ProfileFieldEmpty | ProcessIdentity
  | ProfileNotClosed
  | NotDigestible canon_error

record physical_session =
  device_id :: pytext
  session_platform :: pytext
  interactive_session_id :: pytext
  console :: bool

definition construct_session :: "physical_session \<Rightarrow> (enrollment_error, physical_session) result" where
  "construct_session s =
     (if session_platform s \<notin> set SUPPORTED_PLATFORMS then Inl PlatformUnsupported
      else if \<not> SESSION_ID_SHAPE (device_id s) \<or> \<not> SESSION_ID_SHAPE (interactive_session_id s)
      then Inl IdentifierUnusable
      else Inr s)"

definition session_document :: "physical_session \<Rightarrow> pyval" where
  "session_document s =
     PDict [(key ''console'', PBool (console s)),
            (key ''deviceId'', PStr (device_id s)),
            (key ''interactiveSessionId'', PStr (interactive_session_id s)),
            (key ''platform'', PStr (session_platform s))]"

definition session_key :: "physical_session \<Rightarrow> (enrollment_error, pytext) result" where
  "session_key s = map_error NotDigestible (digest (session_document s))"

record runner_profile =
  profile_platform :: pytext
  reader_name :: pytext
  reader_version :: pytext
  browser_name :: pytext
  browser_version :: pytext
  locale_name :: pytext
  keyboard_layout :: pytext

definition construct_profile :: "runner_profile \<Rightarrow> (enrollment_error, runner_profile) result" where
  "construct_profile p =
     (if profile_platform p \<notin> set SUPPORTED_PLATFORMS then Inl PlatformUnsupported
      else if list_ex blank [reader_name p, reader_version p, browser_name p, browser_version p,
                             locale_name p, keyboard_layout p]
      then Inl ProfileFieldEmpty
      else Inr p)"

definition profile_document :: "runner_profile \<Rightarrow> pyval" where
  "profile_document p =
     PDict [(key ''browserName'', PStr (browser_name p)),
            (key ''browserVersion'', PStr (browser_version p)),
            (key ''keyboardLayout'', PStr (keyboard_layout p)),
            (key ''locale'', PStr (locale_name p)),
            (key ''platform'', PStr (profile_platform p)),
            (key ''readerName'', PStr (reader_name p)),
            (key ''readerVersion'', PStr (reader_version p))]"

definition profile_digest :: "runner_profile \<Rightarrow> (enrollment_error, pytext) result" where
  "profile_digest p = map_error NotDigestible (digest (profile_document p))"

text \<open>\<open>str.lower\<close> is the parameter \<open>lower_text\<close>.\<close>

definition assert_not_process_identity ::
  "(pytext \<Rightarrow> pytext) \<Rightarrow> pytext list \<Rightarrow> (enrollment_error, unit) result" where
  "assert_not_process_identity lower_text claimed =
     (if list_ex (\<lambda>k. lower_text k \<in> set PROCESS_SHAPED_KEYS) claimed then Inl ProcessIdentity
      else Inr ())"

definition profile_text :: "pytext \<Rightarrow> bool" where
  "profile_text t \<longleftrightarrow>
     1 \<le> length t \<and> length t \<le> 128 \<and> \<not> blank t \<and>
     list_all (\<lambda>c. ascii_alnum c \<or> c \<in> set (str '' ._():-'')) t"

definition observed_profile :: "pyval \<Rightarrow> (enrollment_error, runner_profile) result" where
  "observed_profile value =
     (case value of
        PDict kvs \<Rightarrow>
          if \<not> fields_are kvs [''platform'', ''readerName'', ''readerVersion'', ''browserName'',
                              ''browserVersion'', ''locale'', ''keyboardLayout''] \<or>
             list_ex (\<lambda>kv. \<not> text_with (snd kv) profile_text) kvs \<or>
             item kvs ''platform'' \<noteq> lit ''darwin'' \<or> item kvs ''readerName'' \<noteq> lit ''VoiceOver'' \<or>
             item kvs ''browserName'' \<noteq> lit ''Safari''
          then Inl ProfileNotClosed
          else construct_profile
            \<lparr>profile_platform = as_text (item kvs ''platform''),
             reader_name = as_text (item kvs ''readerName''),
             reader_version = as_text (item kvs ''readerVersion''),
             browser_name = as_text (item kvs ''browserName''),
             browser_version = as_text (item kvs ''browserVersion''),
             locale_name = as_text (item kvs ''locale''),
             keyboard_layout = as_text (item kvs ''keyboardLayout'')\<rparr>
      | _ \<Rightarrow> Inl ProfileNotClosed)"

section \<open>Facts\<close>

lemma required_all: "k \<in> set REQUIRED_PREFLIGHT_CHECKS"
  by (cases k) (simp_all add: REQUIRED_PREFLIGHT_CHECKS_def)

lemma is_successful_iff: "is_successful p \<longleftrightarrow> (\<forall>k. reported p k = Some TRUE)"
proof -
  have "is_successful p \<longleftrightarrow> (\<forall>k. reported p k \<noteq> None \<and> reported p k \<noteq> Some FALSE \<and> reported p k \<noteq> Some UNKNOWN)"
    using required_all
    by (auto simp: is_successful_def missing_checks_def failed_checks_def unknown_checks_def
        filter_empty_conv set_empty2 split: option.splits)
  moreover have "c = TRUE \<longleftrightarrow> c \<noteq> FALSE \<and> c \<noteq> UNKNOWN" for c by (cases c) auto
  ultimately show ?thesis by (metis not_None_eq option.inject)
qed

text \<open>A runner and the preflight its last arrival in \<open>READY\<close> was granted on.\<close>

record runner =
  runner_state :: runner_status
  granted_on :: "preflight_result option"

inductive runner_step :: "runner \<Rightarrow> runner \<Rightarrow> bool" where
  move: "assert_runner_transition (runner_state r) proposed preflight = Inr () \<Longrightarrow>
    runner_step r (r\<lparr>runner_state := proposed,
      granted_on := (if proposed = READY then preflight
                     else if proposed = BUSY then granted_on r else None)\<rparr>)"

definition runner_ok :: "runner \<Rightarrow> bool" where
  "runner_ok r \<longleftrightarrow> (runner_state r \<in> {READY, BUSY} \<longrightarrow>
     (\<exists>p. granted_on r = Some p \<and> is_successful p))"

lemma runner_ok_step: "runner_ok r \<Longrightarrow> runner_step r r' \<Longrightarrow> runner_ok r'"
  by (erule runner_step.cases, cases "runner_state r")
    (auto simp: runner_ok_def assert_runner_transition_def split: if_splits option.splits)

interpretation runners: invariant_system "\<lambda>r. runner_state r = OFFLINE" runner_step runner_ok
proof
  show "runner_ok r" if "runner_state r = OFFLINE" for r
    using that by (simp add: runner_ok_def)
qed (rule runner_ok_step)

text \<open>
  A desktop works only on evidence. However a runner got where it is, if it is ready or busy then
  its readiness was granted on a preflight that reported every one of the fourteen checks as true;
  and a quarantined runner's only way on is a new preflight requirement.
\<close>

theorem preflight_gates_work:
  assumes "reachable (\<lambda>r. runner_state r = OFFLINE) runner_step r"
  shows "(runner_state r \<in> {READY, BUSY} \<longrightarrow>
      (\<exists>p. granted_on r = Some p \<and> (\<forall>k. reported p k = Some TRUE))) \<and>
    (runner_state r = QUARANTINED \<longrightarrow> (\<forall>r'. runner_step r r' \<longrightarrow> runner_state r' = PREFLIGHT_REQUIRED))"
proof
  show "runner_state r \<in> {READY, BUSY} \<longrightarrow>
      (\<exists>p. granted_on r = Some p \<and> (\<forall>k. reported p k = Some TRUE))"
    using runners.invar_reachable [OF assms] by (simp add: runner_ok_def is_successful_iff)
  show "runner_state r = QUARANTINED \<longrightarrow> (\<forall>r'. runner_step r r' \<longrightarrow> runner_state r' = PREFLIGHT_REQUIRED)"
    by (auto elim!: runner_step.cases simp: assert_runner_transition_def split: if_splits)
qed

definition sample_session :: physical_session where
  "sample_session = \<lparr>device_id = [100], session_platform = str ''darwin'', interactive_session_id = [105], console = True\<rparr>"

definition sample_profile :: runner_profile where
  "sample_profile = \<lparr>profile_platform = str ''darwin'', reader_name = [86], reader_version = str ''10'',
     browser_name = [83], browser_version = str ''18'', locale_name = str ''en'', keyboard_layout = str ''us''\<rparr>"

definition good_preflight :: preflight_result where
  "good_preflight =
     \<lparr>runner_profile_digest = str ''p'', environment_config_digest = str ''e'',
      preflight_manifest_digest = str ''m'', observed_reader_version = str ''10'',
      observed_browser_version = str ''18'', observed_locale = str ''en'',
      observed_keyboard_layout = str ''us'', desktop_session_key = str ''k'',
      observed_at = str ''2026-01-01T00:00:00Z'',
      checks = map (\<lambda>k. (Inl k, TRUE)) REQUIRED_PREFLIGHT_CHECKS\<rparr>"

lemma preflight_gates_work_witness:
  "\<exists>r. runner_state (r :: runner) = READY \<and> (\<exists>p. granted_on r = Some p \<and> (\<forall>k. reported p k = Some TRUE))"
proof -
  have good: "is_successful good_preflight"
    by (auto simp: is_successful_def missing_checks_def failed_checks_def unknown_checks_def
        reported_def good_preflight_def REQUIRED_PREFLIGHT_CHECKS_def)
  let ?R = "reachable (\<lambda>r. runner_state r = OFFLINE) runner_step"
  let ?r = "\<lparr>runner_state = OFFLINE, granted_on = None\<rparr>"
  have "?R ?r" by (rule reach_init) simp
  moreover have "assert_runner_transition OFFLINE PREFLIGHT_REQUIRED None = Inr ()"
    by (simp add: assert_runner_transition_def)
  ultimately have "?R (?r\<lparr>runner_state := PREFLIGHT_REQUIRED, granted_on := None\<rparr>)"
    using reach_step move [of ?r PREFLIGHT_REQUIRED None] by fastforce
  moreover have "assert_runner_transition PREFLIGHT_REQUIRED READY (Some good_preflight) = Inr ()"
    using good by (simp add: assert_runner_transition_def)
  ultimately have "?R (?r\<lparr>runner_state := READY, granted_on := Some good_preflight\<rparr>)"
    using reach_step move [of "?r\<lparr>runner_state := PREFLIGHT_REQUIRED, granted_on := None\<rparr>" READY "Some good_preflight"]
    by fastforce
  from preflight_gates_work [OF this] have
    "\<exists>p. granted_on (?r\<lparr>runner_state := READY, granted_on := Some good_preflight\<rparr>) = Some p \<and>
       (\<forall>k. reported p k = Some TRUE)"
    by simp
  then show ?thesis
    by - (rule exI, rule conjI [rotated], assumption, simp)
qed

end
