(* ===== verification/Sequencer.thy ===== *)
theory Sequencer
  imports Timestamps Canonical_Digest
begin

text \<open>
  The evidence sequencer (\<open>persistence/sequencer.py\<close>). The three tables it writes are lists of rows
  in insertion order; a call runs in one transaction under the attempt's lock, so it either commits
  all its writes or, when it raises, none. Which attempts a workspace owns is the parameter \<open>owned\<close>,
  the database's answer to \<open>_assert_attempt_belongs_to_workspace\<close>. A \<open>timestamptz\<close> is an \<open>instant\<close>.
\<close>

section \<open>Tables\<close>

definition GENESIS_MESSAGE :: "byte list" where
  "GENESIS_MESSAGE = str ''accessforge:evidence:genesis:v1''"

definition GENESIS_HASH :: pytext where
  "GENESIS_HASH = hex (sha256 GENESIS_MESSAGE)"

type_synonym attempt_key = "pytext \<times> pytext"

record canonical_event =
  event_key :: attempt_key
  sequence :: int
  event_id :: pytext
  event_type :: pytext
  event_lease_epoch :: int
  source_time :: instant
  received_time :: instant
  event_manifest_digest :: pytext
  previous_event_hash :: pytext
  payload_digest :: pytext
  payload :: pyval

record source_record =
  source_key :: attempt_key
  source_producer :: pytext
  source_record_id :: pytext
  source_record_digest :: pytext
  source_producer_sequence :: int
  canonical_sequence :: "int option"
  source_event_id :: pytext

record producer_stream =
  stream_key :: attempt_key
  stream_producer :: pytext
  admitted_through :: int
  closed_at_sequence :: "int option"

record evidence_db =
  events :: "canonical_event list"
  sources :: "source_record list"
  streams :: "producer_stream list"

datatype sequencer_error =
    AttemptNotOwned
  | PayloadNotCanonical canon_error
  | SourceRecordConflict
  | PositionUnknown | EventMissing
  | StreamClosed | NotContiguous
  | LinkNotCanonical canon_error
  | NoStream | ClosedElsewhere | TailIncomplete

record admitted_event =
  admitted_event_id :: pytext
  admitted_sequence :: int
  admitted_previous_hash :: pytext
  is_replay :: bool

text \<open>The arguments of \<open>admit_record\<close> and the identifier \<open>uuid.uuid4\<close> would return.\<close>

record submission =
  workspace_id :: pytext
  attempt :: attempt_key
  lease_epoch :: int
  producer_id :: pytext
  record_id :: pytext
  producer_sequence :: int
  submitted_type :: pytext
  manifest_digest :: pytext
  submitted_payload :: pyval
  submitted_time :: instant
  moment :: instant
  fresh_id :: pytext

section \<open>Queries\<close>

definition chain :: "evidence_db \<Rightarrow> attempt_key \<Rightarrow> canonical_event list" where
  "chain db k = filter (\<lambda>e. event_key e = k) (events db)"

definition find_source :: "evidence_db \<Rightarrow> attempt_key \<Rightarrow> pytext \<Rightarrow> pytext \<Rightarrow> source_record option" where
  "find_source db k p i =
     List.find (\<lambda>r. source_key r = k \<and> source_producer r = p \<and> source_record_id r = i) (sources db)"

definition find_stream :: "evidence_db \<Rightarrow> attempt_key \<Rightarrow> pytext \<Rightarrow> producer_stream option" where
  "find_stream db k p = List.find (\<lambda>s. stream_key s = k \<and> stream_producer s = p) (streams db)"

definition update_stream ::
  "attempt_key \<Rightarrow> pytext \<Rightarrow> (producer_stream \<Rightarrow> producer_stream) \<Rightarrow> evidence_db \<Rightarrow> evidence_db" where
  "update_stream k p f db =
     db\<lparr>streams := map (\<lambda>s. if stream_key s = k \<and> stream_producer s = p then f s else s) (streams db)\<rparr>"

definition link_document :: "canonical_event \<Rightarrow> pyval" where
  "link_document e =
     PDict [(KText (str ''sequence''), PInt (sequence e)),
            (KText (str ''eventType''), PStr (event_type e)),
            (KText (str ''sourceTime''), PStr (isoformat_utc (source_time e))),
            (KText (str ''payloadDigest''), PStr (payload_digest e)),
            (KText (str ''previousEventHash''), PStr (previous_event_hash e))]"

text \<open>\<open>ORDER BY sequence DESC LIMIT 1\<close>\<close>

definition chain_tail :: "evidence_db \<Rightarrow> attempt_key \<Rightarrow> (sequencer_error, int \<times> pytext) result" where
  "chain_tail db k =
     (if chain db k = [] then Inr (0, GENESIS_HASH)
      else let row = last (sort_key sequence (chain db k)) in
        bind_result (map_error LinkNotCanonical (digest (link_document row)))
          (\<lambda>link. Inr (sequence row, link)))"

section \<open>Operations\<close>

text \<open>The answer to a record that was admitted before.\<close>

definition replay ::
  "evidence_db \<Rightarrow> attempt_key \<Rightarrow> source_record \<Rightarrow> pytext \<Rightarrow> (sequencer_error, admitted_event) result" where
  "replay db k existing dig =
     (if source_record_digest existing \<noteq> dig then Inl SourceRecordConflict
      else case canonical_sequence existing of
          None \<Rightarrow> Inl PositionUnknown
        | Some n \<Rightarrow>
            (case List.find (\<lambda>e. sequence e = n) (chain db k) of
               None \<Rightarrow> Inl EventMissing
             | Some e \<Rightarrow>
                 Inr \<lparr>admitted_event_id = event_id e, admitted_sequence = sequence e,
                      admitted_previous_hash = previous_event_hash e, is_replay = True\<rparr>))"

text \<open>The stream's high-water mark, and the database with the stream's row.\<close>

definition open_stream ::
  "evidence_db \<Rightarrow> attempt_key \<Rightarrow> pytext \<Rightarrow> (sequencer_error, evidence_db \<times> int) result" where
  "open_stream db k p =
     (case find_stream db k p of
        None \<Rightarrow>
          Inr (db\<lparr>streams := streams db @
                 [\<lparr>stream_key = k, stream_producer = p, admitted_through = 0,
                   closed_at_sequence = None\<rparr>]\<rparr>, 0)
      | Some s \<Rightarrow>
          if closed_at_sequence s \<noteq> None then Inl StreamClosed else Inr (db, admitted_through s))"

definition append_event ::
  "submission \<Rightarrow> pytext \<Rightarrow> int \<Rightarrow> pytext \<Rightarrow> evidence_db \<Rightarrow> evidence_db" where
  "append_event x dig seq prev db =
     update_stream (attempt x) (producer_id x) (\<lambda>s. s\<lparr>admitted_through := producer_sequence x\<rparr>)
      (db\<lparr>events := events db @
            [\<lparr>event_key = attempt x, sequence = seq, event_id = fresh_id x,
              event_type = submitted_type x, event_lease_epoch = lease_epoch x,
              source_time = submitted_time x, received_time = moment x,
              event_manifest_digest = manifest_digest x, previous_event_hash = prev,
              payload_digest = dig, payload = submitted_payload x\<rparr>],
          sources := sources db @
            [\<lparr>source_key = attempt x, source_producer = producer_id x,
              source_record_id = record_id x, source_record_digest = dig,
              source_producer_sequence = producer_sequence x, canonical_sequence = Some seq,
              source_event_id = fresh_id x\<rparr>]\<rparr>)"

definition admit_record ::
  "(pytext \<Rightarrow> attempt_key \<Rightarrow> bool) \<Rightarrow> submission \<Rightarrow> evidence_db \<Rightarrow>
     (sequencer_error, evidence_db \<times> admitted_event) result" where
  "admit_record owned x db =
     bind_result (map_error PayloadNotCanonical (digest (submitted_payload x))) (\<lambda>dig.
     if \<not> owned (workspace_id x) (attempt x) then Inl AttemptNotOwned
     else case find_source db (attempt x) (producer_id x) (record_id x) of
         Some existing \<Rightarrow> bind_result (replay db (attempt x) existing dig) (\<lambda>r. Inr (db, r))
       | None \<Rightarrow>
           bind_result (open_stream db (attempt x) (producer_id x)) (\<lambda>(db', through).
           if producer_sequence x \<noteq> through + 1 then Inl NotContiguous
           else bind_result (chain_tail db' (attempt x)) (\<lambda>(last_sequence, prev).
             Inr (append_event x dig (last_sequence + 1) prev db',
                  \<lparr>admitted_event_id = fresh_id x, admitted_sequence = last_sequence + 1,
                   admitted_previous_hash = prev, is_replay = False\<rparr>))))"

definition close_producer_stream ::
  "(pytext \<Rightarrow> attempt_key \<Rightarrow> bool) \<Rightarrow> pytext \<Rightarrow> attempt_key \<Rightarrow> pytext \<Rightarrow> int \<Rightarrow> evidence_db \<Rightarrow>
     (sequencer_error, evidence_db) result" where
  "close_producer_stream owned w k p final db =
     (if \<not> owned w k then Inl AttemptNotOwned
      else case find_stream db k p of
          None \<Rightarrow> Inl NoStream
        | Some s \<Rightarrow>
            (case closed_at_sequence s of
               Some n \<Rightarrow> if n = final then Inr db else Inl ClosedElsewhere
             | None \<Rightarrow>
                 if admitted_through s \<noteq> final then Inl TailIncomplete
                 else Inr (update_stream k p (\<lambda>s. s\<lparr>closed_at_sequence := Some final\<rparr>) db)))"

definition producer_tails_closed :: "evidence_db \<Rightarrow> attempt_key \<Rightarrow> pytext set \<Rightarrow> bool" where
  "producer_tails_closed db k required \<longleftrightarrow>
     required \<subseteq> stream_producer `
       set (filter (\<lambda>s. stream_key s = k \<and> closed_at_sequence s \<noteq> None) (streams db))"

definition chain_is_contiguous :: "evidence_db \<Rightarrow> attempt_key \<Rightarrow> bool" where
  "chain_is_contiguous db k \<longleftrightarrow>
     (let seqs = map sequence (chain db k) in
      seqs = [] \<or> Min (set seqs) = 1 \<and> Max (set seqs) = int (length seqs))"

inductive sequencer_step :: "(pytext \<Rightarrow> attempt_key \<Rightarrow> bool) \<Rightarrow> evidence_db \<Rightarrow> evidence_db \<Rightarrow> bool"
  for owned where
  admitted: "admit_record owned x db = Inr (db', r) \<Longrightarrow> sequencer_step owned db db'"
| closed: "close_producer_stream owned w k p final db = Inr db' \<Longrightarrow> sequencer_step owned db db'"

definition empty_db :: "evidence_db \<Rightarrow> bool" where
  "empty_db db \<longleftrightarrow> db = \<lparr>events = [], sources = [], streams = []\<rparr>"

section \<open>What a step does\<close>

text \<open>
  Every step either leaves the tables alone, or appends one event with its source record to one
  attempt, or closes one stream whose tail is complete.
\<close>

definition appends :: "attempt_key \<Rightarrow> pytext \<Rightarrow> canonical_event \<Rightarrow> source_record \<Rightarrow>
    evidence_db \<Rightarrow> evidence_db \<Rightarrow> bool" where
  "appends k p e r db db' \<longleftrightarrow>
     events db' = events db @ [e] \<and> sources db' = sources db @ [r] \<and>
     event_key e = k \<and> source_key r = k \<and> source_producer r = p \<and>
     chain_tail db k = Inr (sequence e - 1, previous_event_hash e) \<and>
     canonical_sequence r = Some (sequence e) \<and> source_record_digest r = payload_digest e \<and>
     find_source db k p (source_record_id r) = None \<and>
     (case find_stream db k p of
        None \<Rightarrow> source_producer_sequence r = 1 \<and>
          streams db' = streams db @
            [\<lparr>stream_key = k, stream_producer = p, admitted_through = 1, closed_at_sequence = None\<rparr>]
      | Some s \<Rightarrow> closed_at_sequence s = None \<and> source_producer_sequence r = admitted_through s + 1 \<and>
          streams db' = streams (update_stream k p
            (\<lambda>s. s\<lparr>admitted_through := source_producer_sequence r\<rparr>) db))"

definition closes :: "attempt_key \<Rightarrow> pytext \<Rightarrow> evidence_db \<Rightarrow> evidence_db \<Rightarrow> bool" where
  "closes k p db db' \<longleftrightarrow>
     (\<exists>s. find_stream db k p = Some s \<and> closed_at_sequence s = None \<and>
       db' = update_stream k p (\<lambda>t. t\<lparr>closed_at_sequence := Some (admitted_through s)\<rparr>) db)"

lemma chain_tail_streams [simp]: "chain_tail (db\<lparr>streams := ss\<rparr>) k = chain_tail db k"
  by (simp add: chain_tail_def chain_def)

lemma find_none_map: "List.find P xs = None \<Longrightarrow> map (\<lambda>x. if P x then f x else x) xs = xs"
  by (induction xs) (auto split: if_splits)

lemma admit_record_cases:
  assumes "admit_record owned x db = Inr (db', a)"
  shows "(db' = db \<and> is_replay a) \<or>
    (\<exists>e r. appends (attempt x) (producer_id x) e r db db' \<and> \<not> is_replay a \<and>
       source_record_id r = record_id x \<and> digest (submitted_payload x) = Inr (payload_digest e) \<and>
       a = \<lparr>admitted_event_id = event_id e, admitted_sequence = sequence e,
            admitted_previous_hash = previous_event_hash e, is_replay = False\<rparr>)"
proof -
  from assms obtain dig where dig: "digest (submitted_payload x) = Inr dig"
    and rest: "(case find_source db (attempt x) (producer_id x) (record_id x) of
         Some existing \<Rightarrow> bind_result (replay db (attempt x) existing dig) (\<lambda>r. Inr (db, r))
       | None \<Rightarrow>
           bind_result (open_stream db (attempt x) (producer_id x)) (\<lambda>(db', through).
           if producer_sequence x \<noteq> through + 1 then Inl NotContiguous
           else bind_result (chain_tail db' (attempt x)) (\<lambda>(last_sequence, prev).
             Inr (append_event x dig (last_sequence + 1) prev db',
                  \<lparr>admitted_event_id = fresh_id x, admitted_sequence = last_sequence + 1,
                   admitted_previous_hash = prev, is_replay = False\<rparr>)))) = Inr (db', a)"
    unfolding admit_record_def by (auto simp: bind_result_Inr split: if_splits)
  show ?thesis
  proof (cases "find_source db (attempt x) (producer_id x) (record_id x)")
    case (Some existing)
    with rest show ?thesis
      by (auto simp: bind_result_Inr replay_def split: if_splits option.splits)
  next
    case None
    with rest obtain db1 through last_sequence prev where
      open': "open_stream db (attempt x) (producer_id x) = Inr (db1, through)"
      and seq: "producer_sequence x = through + 1"
      and tail: "chain_tail db1 (attempt x) = Inr (last_sequence, prev)"
      and db': "db' = append_event x dig (last_sequence + 1) prev db1"
      and a: "a = \<lparr>admitted_event_id = fresh_id x, admitted_sequence = last_sequence + 1,
                   admitted_previous_hash = prev, is_replay = False\<rparr>"
      by (auto simp: bind_result_Inr split: if_splits)
    let ?e = "last (events db')" and ?r = "last (sources db')"
    have "appends (attempt x) (producer_id x) ?e ?r db db'"
    proof (cases "find_stream db (attempt x) (producer_id x)")
      case None': None
      with open' have db1: "db1 = db\<lparr>streams := streams db @ [\<lparr>stream_key = attempt x,
          stream_producer = producer_id x, admitted_through = 0, closed_at_sequence = None\<rparr>]\<rparr>"
        and "through = 0" by (auto simp: open_stream_def)
      moreover have "map (\<lambda>s. if stream_key s = attempt x \<and> stream_producer s = producer_id x
          then s\<lparr>admitted_through := producer_sequence x\<rparr> else s) (streams db) = streams db"
        by (rule find_none_map) (use None' in \<open>simp add: find_stream_def\<close>)
      ultimately show ?thesis
        using seq tail None None' unfolding db' appends_def append_event_def update_stream_def by simp
    next
      case (Some s)
      with open' have "db1 = db" "through = admitted_through s" "closed_at_sequence s = None"
        by (auto simp: open_stream_def split: if_splits)
      then show ?thesis
        using seq tail None Some unfolding db' appends_def append_event_def update_stream_def by simp
    qed
    then show ?thesis
      using dig by (intro disjI2 exI [of _ ?e] exI [of _ ?r]) (simp add: a db' append_event_def update_stream_def)
  qed
qed

lemma close_cases:
  "close_producer_stream owned w k p final db = Inr db' \<Longrightarrow> db' = db \<or> closes k p db db'"
  by (auto simp: close_producer_stream_def closes_def split: if_splits option.splits)

lemma sequencer_step_cases:
  assumes "sequencer_step owned db db'"
  obtains (same) "db' = db" | (append) k p e r where "appends k p e r db db'" | (close) k p where "closes k p db db'"
  using assms
proof cases
  case (admitted x r)
  from admit_record_cases [OF this] show ?thesis using that by blast
next
  case (closed w k p final)
  from close_cases [OF this] show ?thesis using that by blast
qed

section \<open>Hash chains\<close>

text \<open>
  The contract of a hash chain: each entry carries the hash of its predecessor, and entries with
  the same hash agree on what they say and on their predecessor, unless they clash.
\<close>

locale hash_chain =
  fixes link :: "'e \<Rightarrow> 'h \<Rightarrow> bool"
    and prev :: "'e \<Rightarrow> 'h"
    and genesis :: 'h
    and content :: "'e \<Rightarrow> 'c"
    and clash :: "'e \<Rightarrow> 'e \<Rightarrow> bool"
    and clash_genesis :: "'e \<Rightarrow> bool"
  assumes link_content: "link e h \<Longrightarrow> link f h \<Longrightarrow> \<not> clash e f \<Longrightarrow> content e = content f"
    and link_prev: "link e h \<Longrightarrow> link f h \<Longrightarrow> \<not> clash e f \<Longrightarrow> prev e = prev f"
    and link_genesis: "link e genesis \<Longrightarrow> clash_genesis e"
begin

text \<open>A chain, newest entry first, whose tail hash is \<open>h\<close>.\<close>

fun chained :: "'e list \<Rightarrow> 'h \<Rightarrow> bool" where
  "chained [] h = (h = genesis)"
| "chained (e # es) h = (link e h \<and> chained es (prev e))"

lemma tail_seals:
  "chained es h \<Longrightarrow> chained fs h \<Longrightarrow> \<forall>e \<in> set es. \<forall>f \<in> set fs. \<not> clash e f \<Longrightarrow>
     \<forall>e \<in> set es \<union> set fs. \<not> clash_genesis e \<Longrightarrow> map content es = map content fs"
proof (induction es arbitrary: fs h)
  case Nil
  then show ?case by (cases fs) (auto dest: link_genesis)
next
  case (Cons e es)
  show ?case
  proof (cases fs)
    case Nil
    with Cons.prems show ?thesis by (auto dest: link_genesis)
  next
    case fs: (Cons f fs')
    with Cons.prems have "prev e = prev f" "content e = content f"
      by (auto intro: link_prev link_content)
    moreover have "map content es = map content fs'"
      by (rule Cons.IH [of "prev e"]) (use Cons.prems fs \<open>prev e = prev f\<close> in auto)
    ultimately show ?thesis using fs by simp
  qed
qed

end

definition event_content :: "canonical_event \<Rightarrow> int \<times> pytext \<times> pytext \<times> pytext" where
  "event_content e =
     (sequence e, event_type e, isoformat_utc (source_time e), payload_digest e)"

definition genesis_collision :: "canonical_event \<Rightarrow> bool" where
  "genesis_collision e \<longleftrightarrow>
     (\<exists>m. message (link_document e) = Inr m \<and> sha256 m = sha256 GENESIS_MESSAGE)"

lemma link_document_inject:
  assumes "norm (link_document e) = norm (link_document f)"
  shows "event_content e = event_content f \<and> previous_event_hash e = previous_event_hash f"
  using norm_fields [OF assms [unfolded link_document_def]] by (simp add: event_content_def)

interpretation evidence: hash_chain "\<lambda>e h. digest (link_document e) = Inr h" previous_event_hash
    GENESIS_HASH event_content "\<lambda>e f. collides (link_document e) (link_document f)" genesis_collision
proof
  fix e f h
  assume "digest (link_document e) = Inr h" "digest (link_document f) = Inr h"
    "\<not> collides (link_document e) (link_document f)"
  then have "norm (link_document e) = norm (link_document f)"
    using digest_inject by blast
  from link_document_inject [OF this] show "event_content e = event_content f"
    and "previous_event_hash e = previous_event_hash f" by simp_all
next
  fix e
  assume "digest (link_document e) = Inr GENESIS_HASH"
  then show "genesis_collision e"
    by (auto simp: digest_message bind_result_Inr GENESIS_HASH_def genesis_collision_def
        hex_inject sha256_bound)
qed

section \<open>The invariant\<close>

text \<open>The events of one attempt: numbered from 1 and linked, newest last.\<close>

definition well_chained :: "canonical_event list \<Rightarrow> bool" where
  "well_chained es \<longleftrightarrow>
     map sequence es = map int [1..<Suc (length es)] \<and>
     (case rev es of [] \<Rightarrow> True | e # fs \<Rightarrow> evidence.chained fs (previous_event_hash e))"

definition chains_ok :: "evidence_db \<Rightarrow> bool" where
  "chains_ok db \<longleftrightarrow> (\<forall>k. well_chained (chain db k))"

lemma sorted_sequences:
  assumes "map sequence es = map int [1..<Suc (length es)]"
  shows "sort_key sequence es = es"
proof -
  have "sorted (map int [1..<Suc (length es)])"
    by (simp add: sorted_iff_nth_mono del: upt_Suc)
  then show ?thesis by (intro sort_key_id_if_sorted) (simp add: assms)
qed

lemma chain_tail_chained:
  assumes "well_chained (chain db k)" and "chain_tail db k = Inr (n, h)"
  shows "n = int (length (chain db k)) \<and> evidence.chained (rev (chain db k)) h"
proof (cases "chain db k" rule: rev_cases)
  case Nil
  with assms(2) show ?thesis by (simp add: chain_tail_def)
next
  case (snoc es e)
  have "map sequence (es @ [e]) = map int [1..<Suc (length (es @ [e]))]"
    using assms(1) snoc by (simp add: well_chained_def)
  from sorted_sequences [OF this] have "last (sort_key sequence (chain db k)) = e"
    using snoc by simp
  moreover have "sequence e = int (length (chain db k))"
    using arg_cong [OF \<open>map sequence (es @ [e]) = _\<close>, of last] snoc by simp
  moreover have "evidence.chained (rev es) (previous_event_hash e)"
    using assms(1) snoc by (simp add: well_chained_def)
  ultimately show ?thesis
    using assms(2) snoc by (auto simp: chain_tail_def bind_result_Inr Let_def)
qed

lemma chains_ok_step:
  assumes "chains_ok db" and "sequencer_step owned db db'"
  shows "chains_ok db'"
  using assms(2)
proof (cases rule: sequencer_step_cases)
  case (append k p e r)
  have other: "chain db' l = chain db l" if "l \<noteq> k" for l
    using append that by (auto simp: appends_def chain_def)
  have this': "chain db' k = chain db k @ [e]"
    using append by (auto simp: appends_def chain_def)
  have ok: "well_chained (chain db k)" using assms(1) unfolding chains_ok_def by blast
  have "chain_tail db k = Inr (sequence e - 1, previous_event_hash e)"
    using append by (simp add: appends_def)
  from chain_tail_chained [OF ok this]
  have "well_chained (chain db k @ [e])"
    using ok by (simp add: well_chained_def)
  with assms(1) other this' show ?thesis
    unfolding chains_ok_def by metis
next
  case (close k p)
  then show ?thesis
    using assms(1) unfolding chains_ok_def closes_def update_stream_def chain_def by auto
qed (use assms in simp)

interpretation sequencer_chain: invariant_system empty_db "sequencer_step owned" chains_ok
proof
  show "chains_ok db" if "empty_db db" for db
    using that by (simp add: empty_db_def chains_ok_def chain_def well_chained_def)
qed (rule chains_ok_step)


section \<open>Replays\<close>

lemma find_append: "List.find P (xs @ ys) = (case List.find P xs of None \<Rightarrow> List.find P ys | Some x \<Rightarrow> Some x)"
  by (induction xs) auto

lemma find_distinct:
  "distinct (map f xs) \<Longrightarrow> x \<in> set xs \<Longrightarrow> List.find (\<lambda>y. f y = f x) xs = Some x"
  by (induction xs) (auto simp: image_iff)

lemma well_chained_distinct: "well_chained es \<Longrightarrow> distinct (map sequence es)"
  by (simp add: well_chained_def distinct_map del: upt_Suc)

lemma step_grows:
  assumes "sequencer_step owned db db'"
  shows "\<exists>es rs. chain db' k = chain db k @ es \<and> sources db' = sources db @ rs"
  using assms
  by (cases rule: sequencer_step_cases)
    (auto simp: appends_def closes_def chain_def update_stream_def)

lemma replay_step:
  assumes "sequencer_step owned db db'" and "find_source db k p i = Some r" and "replay db k r dig = Inr a"
  shows "find_source db' k p i = Some r \<and> replay db' k r dig = Inr a"
proof -
  from step_grows [OF assms(1)] obtain es rs where
    "chain db' k = chain db k @ es" "sources db' = sources db @ rs" by blast
  with assms(2,3) show ?thesis
    by (auto simp: find_source_def replay_def find_append split: if_splits option.splits)
qed

lemma replay_steps:
  assumes "(sequencer_step owned)\<^sup>*\<^sup>* db db'"
    and "find_source db k p i = Some r" and "replay db k r dig = Inr a"
  shows "find_source db' k p i = Some r \<and> replay db' k r dig = Inr a"
  using assms by (induction rule: rtranclp_induct) (auto dest: replay_step)

lemma admit_then_replay:
  assumes "chains_ok db" and adm: "admit_record owned x db = Inr (db', a)"
  shows "\<exists>r dig. find_source db' (attempt x) (producer_id x) (record_id x) = Some r \<and>
    digest (submitted_payload x) = Inr dig \<and> source_record_digest r = dig \<and>
    replay db' (attempt x) r dig = Inr (a\<lparr>is_replay := True\<rparr>)"
proof (cases "find_source db (attempt x) (producer_id x) (record_id x)")
  case (Some r)
  with adm show ?thesis
    by (auto simp: admit_record_def bind_result_Inr replay_def split: if_splits option.splits)
next
  case None
  have "sequencer_step owned db db'" by (rule admitted [OF adm])
  with assms(1) have ok: "well_chained (chain db' (attempt x))"
    using chains_ok_step unfolding chains_ok_def by blast
  have "\<not> is_replay a"
    using adm None by (auto simp: admit_record_def bind_result_Inr split: if_splits)
  with admit_record_cases [OF adm] obtain e r where app: "appends (attempt x) (producer_id x) e r db db'"
    and r: "source_record_id r = record_id x" "digest (submitted_payload x) = Inr (payload_digest e)"
    and a: "a = \<lparr>admitted_event_id = event_id e, admitted_sequence = sequence e,
            admitted_previous_hash = previous_event_hash e, is_replay = False\<rparr>"
    by blast
  have e: "e \<in> set (chain db' (attempt x))"
    using app by (simp add: appends_def chain_def)
  have found: "List.find (\<lambda>f. sequence f = sequence e) (chain db' (attempt x)) = Some e"
    by (rule find_distinct [OF well_chained_distinct [OF ok] e])
  have "find_source db' (attempt x) (producer_id x) (record_id x) = Some r"
    using app None r(1) by (simp add: find_source_def appends_def find_append)
  then show ?thesis
    using app r(2) found by (auto simp: replay_def appends_def a)
qed

section \<open>Streams\<close>

definition admitted_sequences :: "evidence_db \<Rightarrow> attempt_key \<Rightarrow> pytext \<Rightarrow> int list" where
  "admitted_sequences db k p =
     map source_producer_sequence (filter (\<lambda>r. source_key r = k \<and> source_producer r = p) (sources db))"

definition stream_ok :: "int list \<Rightarrow> producer_stream option \<Rightarrow> bool" where
  "stream_ok ns s \<longleftrightarrow>
     ns = map int [1..<Suc (length ns)] \<and>
     (case s of None \<Rightarrow> ns = []
      | Some s \<Rightarrow> admitted_through s = int (length ns) \<and>
          closed_at_sequence s \<in> {None, Some (int (length ns))})"

definition streams_ok :: "evidence_db \<Rightarrow> bool" where
  "streams_ok db \<longleftrightarrow> (\<forall>k p. stream_ok (admitted_sequences db k p) (find_stream db k p))"

lemma find_map_option:
  "(\<And>x. P (f x) = P x) \<Longrightarrow> List.find P (map f xs) = map_option f (List.find P xs)"
  by (induction xs) auto

lemma find_stream_update:
  assumes "\<And>s. stream_key (f s) = stream_key s" and "\<And>s. stream_producer (f s) = stream_producer s"
  shows "find_stream (update_stream k p f db) l q =
    (if l = k \<and> q = p then map_option f (find_stream db l q) else find_stream db l q)"
proof -
  let ?f = "\<lambda>s. if stream_key s = k \<and> stream_producer s = p then f s else s"
  have "find_stream (update_stream k p f db) l q = map_option ?f (find_stream db l q)"
    unfolding find_stream_def update_stream_def
    by (simp, rule find_map_option) (simp add: assms)
  also have "\<dots> = (if l = k \<and> q = p then map_option f (find_stream db l q) else find_stream db l q)"
  proof (cases "find_stream db l q")
    case (Some s)
    then have "stream_key s = l \<and> stream_producer s = q"
      by (auto simp: find_stream_def find_Some_iff)
    with Some show ?thesis by auto
  qed auto
  finally show ?thesis .
qed

lemma find_stream_cong: "streams db = streams db' \<Longrightarrow> find_stream db k p = find_stream db' k p"
  by (simp add: find_stream_def)

lemma append_stream:
  assumes "appends k p e r db db'"
  shows "admitted_sequences db' l q = admitted_sequences db l q @
      (if l = k \<and> q = p then [source_producer_sequence r] else [])"
    and "find_stream db' l q = (if l = k \<and> q = p
      then Some (case find_stream db k p of
         None \<Rightarrow> \<lparr>stream_key = k, stream_producer = p, admitted_through = 1, closed_at_sequence = None\<rparr>
       | Some s \<Rightarrow> s\<lparr>admitted_through := source_producer_sequence r\<rparr>)
      else find_stream db l q)"
proof -
  show "admitted_sequences db' l q = admitted_sequences db l q @
      (if l = k \<and> q = p then [source_producer_sequence r] else [])"
    using assms by (auto simp: appends_def admitted_sequences_def)
  show "find_stream db' l q = (if l = k \<and> q = p
      then Some (case find_stream db k p of
         None \<Rightarrow> \<lparr>stream_key = k, stream_producer = p, admitted_through = 1, closed_at_sequence = None\<rparr>
       | Some s \<Rightarrow> s\<lparr>admitted_through := source_producer_sequence r\<rparr>)
      else find_stream db l q)"
  proof (cases "find_stream db k p")
    case None
    then show ?thesis
      using assms by (auto simp: appends_def find_stream_def find_append split: option.split)
  next
    case (Some s)
    with assms have "streams db' = streams (update_stream k p
        (\<lambda>s. s\<lparr>admitted_through := source_producer_sequence r\<rparr>) db)"
      by (simp add: appends_def)
    from find_stream_cong [OF this] Some show ?thesis by (simp add: find_stream_update)
  qed
qed

lemma streams_ok_step:
  assumes "streams_ok db" and "sequencer_step owned db db'"
  shows "streams_ok db'"
  using assms(2)
proof (cases rule: sequencer_step_cases)
  case (append k p e r)
  have ok: "stream_ok (admitted_sequences db l q) (find_stream db l q)" for l q
    using assms(1) unfolding streams_ok_def by blast
  have "stream_ok (admitted_sequences db' l q) (find_stream db' l q)" for l q
  proof (cases "l = k \<and> q = p")
    case True
    have "source_producer_sequence r = int (Suc (length (admitted_sequences db k p)))"
      using append ok [of k p]
      by (auto simp: appends_def stream_ok_def split: option.splits)
    then have "stream_ok (admitted_sequences db' k p) (find_stream db' k p)"
      using ok [of k p] append unfolding append_stream [OF append]
      by (auto simp: stream_ok_def appends_def split: option.splits)
    with True show ?thesis by simp
  next
    case False
    with ok [of l q] show ?thesis unfolding append_stream [OF append] by auto
  qed
  then show ?thesis unfolding streams_ok_def by blast
next
  case (close k p)
  then obtain s where s: "find_stream db k p = Some s"
    and db': "db' = update_stream k p (\<lambda>t. t\<lparr>closed_at_sequence := Some (admitted_through s)\<rparr>) db"
    by (auto simp: closes_def)
  have same: "admitted_sequences db' l q = admitted_sequences db l q" for l q
    by (simp add: db' admitted_sequences_def update_stream_def)
  have ok: "stream_ok (admitted_sequences db l q) (find_stream db l q)" for l q
    using assms(1) unfolding streams_ok_def by blast
  have "stream_ok (admitted_sequences db' l q) (find_stream db' l q)" for l q
    using ok [of l q] s unfolding same unfolding db'
    by (auto simp: find_stream_update stream_ok_def split: if_splits)
  then show ?thesis unfolding streams_ok_def by blast
qed (use assms in simp)

interpretation sequencer_streams: invariant_system empty_db "sequencer_step owned" streams_ok
proof
  show "streams_ok db" if "empty_db db" for db
    using that by (simp add: empty_db_def streams_ok_def stream_ok_def admitted_sequences_def find_stream_def)
qed (rule streams_ok_step)

lemma closed_stream_step:
  assumes "find_stream db k p = Some s" and "closed_at_sequence s \<noteq> None" and "sequencer_step owned db db'"
  shows "find_stream db' k p = Some s \<and> admitted_sequences db' k p = admitted_sequences db k p"
  using assms(3)
proof (cases rule: sequencer_step_cases)
  case (append l q e r)
  then have "\<not> (k = l \<and> p = q)"
    using assms(1,2) by (auto simp: appends_def)
  then show ?thesis using assms(1) unfolding append_stream [OF append] by auto
next
  case (close l q)
  then have "\<not> (k = l \<and> p = q)"
    using assms(1,2) by (auto simp: closes_def)
  with close assms(1) show ?thesis
    by (auto simp: closes_def find_stream_update admitted_sequences_def)
      (simp_all add: update_stream_def)
qed (use assms in simp)

lemma closed_stream_steps:
  assumes "(sequencer_step owned)\<^sup>*\<^sup>* db db'"
    and "find_stream db k p = Some s" and "closed_at_sequence s \<noteq> None"
  shows "find_stream db' k p = Some s \<and> admitted_sequences db' k p = admitted_sequences db k p"
  using assms by (induction rule: rtranclp_induct) (auto dest: closed_stream_step)


section \<open>Properties\<close>

definition sample_record :: "pytext \<Rightarrow> int \<Rightarrow> submission" where
  "sample_record i n =
     \<lparr>workspace_id = str ''W'', attempt = (str ''R'', str ''A''), lease_epoch = 1,
      producer_id = str ''reader'', record_id = i, producer_sequence = n, submitted_type = str ''E'',
      manifest_digest = str ''m'', submitted_payload = PDict [], submitted_time = Instant 2026 9 9 12 0 0 0,
      moment = Instant 2026 9 9 12 0 1 0, fresh_id = str ''id''\<rparr>"

definition no_rows :: evidence_db where
  "no_rows = \<lparr>events = [], sources = [], streams = []\<rparr>"

lemma empty_payload_digest: "\<exists>d. digest (PDict []) = Inr d"
  by (simp add: digest_def canonicalize_def result_simps encode_utf8_def scalar_def
      high_surrogate_def low_surrogate_def)

lemma sample_admission:
  "\<exists>db. admit_record (\<lambda>_ _. True) (sample_record (str ''x'') 1) no_rows =
     Inr (db, \<lparr>admitted_event_id = str ''id'', admitted_sequence = 1,
               admitted_previous_hash = GENESIS_HASH, is_replay = False\<rparr>)"
proof -
  obtain d where "digest (PDict []) = Inr d" using empty_payload_digest by blast
  then show ?thesis
    by (simp add: admit_record_def sample_record_def no_rows_def find_source_def open_stream_def
        find_stream_def chain_tail_def chain_def)
qed

text \<open>
  Whatever records and closings arrive, in whatever order and however often refused, the events
  of every attempt are numbered 1, 2, 3, ... without gaps, each carries the link hash of its
  predecessor back to the genesis hash, and \<open>chain_is_contiguous\<close> says so.
\<close>

theorem every_chain_is_linked:
  assumes "reachable empty_db (sequencer_step owned) db"
  shows "map sequence (chain db k) = map int [1..<Suc (length (chain db k))] \<and>
    (case rev (chain db k) of [] \<Rightarrow> True | e # es \<Rightarrow> evidence.chained es (previous_event_hash e)) \<and>
    chain_is_contiguous db k"
proof -
  have ok: "well_chained (chain db k)"
    using sequencer_chain.invar_reachable [OF assms] unfolding chains_ok_def by blast
  then have seqs: "map sequence (chain db k) = map int [1..<Suc (length (chain db k))]"
    by (simp add: well_chained_def)
  have "chain_is_contiguous db k"
  proof (cases "chain db k")
    case Nil
    then show ?thesis by (simp add: chain_is_contiguous_def)
  next
    case (Cons e es)
    let ?n = "length (chain db k)"
    have "set (map sequence (chain db k)) = int ` {1..<Suc ?n}"
      unfolding seqs by (simp del: upt_Suc)
    also have "\<dots> = {1..int ?n}"
      by (simp add: image_int_atLeastLessThan atLeastLessThanSuc_atLeastAtMost image_int_atLeastAtMost)
    finally have "set (map sequence (chain db k)) = {1..int ?n}" .
    moreover have "1 \<le> int ?n" using Cons by simp
    moreover from this have "Min {1..int ?n} = 1" "Max {1..int ?n} = int ?n"
      by (auto intro: Min_eqI Max_eqI)
    ultimately show ?thesis
      unfolding chain_is_contiguous_def Let_def by simp
  qed
  with ok show ?thesis by (simp add: well_chained_def)
qed

lemma reachable_sample:
  assumes "admit_record (\<lambda>_ _. True) (sample_record (str ''x'') 1) no_rows = Inr (db, a)"
  shows "reachable empty_db (sequencer_step (\<lambda>_ _. True)) db"
proof -
  have "reachable empty_db (sequencer_step (\<lambda>_ _. True)) no_rows"
    by (rule reach_init) (simp add: empty_db_def no_rows_def)
  then show ?thesis by (rule reach_step) (rule admitted [OF assms])
qed

lemma every_chain_is_linked_witness:
  "\<exists>db a. admit_record (\<lambda>_ _. True) (sample_record (str ''x'') 1) no_rows = Inr (db, a) \<and>
     chain_is_contiguous db (str ''R'', str ''A'')"
  using sample_admission every_chain_is_linked [OF reachable_sample] by blast



text \<open>
  Resubmission is harmless for good. Once a record was admitted, sending the same source record
  of the same producer again, at any later time, after any number of other admissions and
  closings, changes nothing and answers with the original position; sending it with other content
  is refused as a conflict.
\<close>

theorem resubmission_is_idempotent:
  assumes "reachable empty_db (sequencer_step owned) db"
    and "admit_record owned x db = Inr (db1, a)" and "(sequencer_step owned)\<^sup>*\<^sup>* db1 db2"
    and "attempt y = attempt x \<and> producer_id y = producer_id x \<and> record_id y = record_id x"
    and "owned (workspace_id y) (attempt y)" and "digest (submitted_payload y) = Inr dy"
  shows "admit_record owned y db2 =
    (if digest (submitted_payload y) = digest (submitted_payload x)
     then Inr (db2, a\<lparr>is_replay := True\<rparr>) else Inl SourceRecordConflict)"
proof -
  have ok: "chains_ok db" by (rule sequencer_chain.invar_reachable [OF assms(1)])
  from admit_then_replay [OF ok assms(2)] obtain r d where
    r: "find_source db1 (attempt x) (producer_id x) (record_id x) = Some r"
    and d: "digest (submitted_payload x) = Inr d" "source_record_digest r = d"
    and rep: "replay db1 (attempt x) r d = Inr (a\<lparr>is_replay := True\<rparr>)"
    by blast
  from replay_steps [OF assms(3) r rep] show ?thesis
    using assms(4-6) d by (simp add: admit_record_def replay_def)
qed

lemma resubmission_is_idempotent_witness:
  "\<exists>db a. admit_record (\<lambda>_ _. True) (sample_record (str ''x'') 1) no_rows = Inr (db, a) \<and>
     admit_record (\<lambda>_ _. True) (sample_record (str ''x'') 7) db = Inr (db, a\<lparr>is_replay := True\<rparr>)"
proof -
  obtain db a where adm: "admit_record (\<lambda>_ _. True) (sample_record (str ''x'') 1) no_rows = Inr (db, a)"
    using sample_admission by blast
  obtain d where "digest (PDict []) = Inr d" using empty_payload_digest by blast
  then have d: "digest (submitted_payload (sample_record (str ''x'') 7)) = Inr d"
    by (simp add: sample_record_def)
  have start: "reachable empty_db (sequencer_step (\<lambda>_ _. True)) no_rows"
    by (rule reach_init) (simp add: empty_db_def no_rows_def)
  from resubmission_is_idempotent [OF start adm rtranclp.rtrancl_refl _ _ d] adm show ?thesis
    by (auto simp: sample_record_def)
qed

text \<open>
  A closing watermark means the whole stream was seen. In every reachable state a closed stream
  was closed at exactly the number of its admitted records, which carry the producer's sequence
  numbers 1 to that watermark; and no later call admits another record of it.
\<close>

theorem closed_stream_is_complete:
  assumes "reachable empty_db (sequencer_step owned) db"
    and "find_stream db k p = Some s" and "closed_at_sequence s = Some n"
    and "(sequencer_step owned)\<^sup>*\<^sup>* db db'"
  shows "n = admitted_through s \<and> admitted_sequences db k p = map int [1..<Suc (nat n)] \<and>
    admitted_sequences db' k p = admitted_sequences db k p \<and> find_stream db' k p = Some s"
proof -
  have "stream_ok (admitted_sequences db k p) (find_stream db k p)"
    using sequencer_streams.invar_reachable [OF assms(1)] unfolding streams_ok_def by blast
  then have "n = admitted_through s \<and> admitted_sequences db k p = map int [1..<Suc (nat n)]"
    using assms(2,3) by (simp add: stream_ok_def del: upt_Suc)
  moreover have "closed_at_sequence s \<noteq> None" using assms(3) by simp
  ultimately show ?thesis
    using closed_stream_steps [OF assms(4,2)] by blast
qed

lemma closed_stream_is_complete_witness:
  "\<exists>db s. find_stream db (str ''R'', str ''A'') (str ''reader'') = Some s \<and>
     closed_at_sequence s = Some 1 \<and>
     admitted_sequences db (str ''R'', str ''A'') (str ''reader'') = [1]"
proof -
  let ?k = "(str ''R'', str ''A'')" and ?own = "\<lambda>_ _. True"
  obtain db a where adm: "admit_record ?own (sample_record (str ''x'') 1) no_rows = Inr (db, a)"
    using sample_admission by blast
  obtain d where "digest (PDict []) = Inr d" using empty_payload_digest by blast
  with adm have "find_stream db ?k (str ''reader'') = Some \<lparr>stream_key = ?k,
      stream_producer = str ''reader'', admitted_through = 1, closed_at_sequence = None\<rparr>"
    by (auto simp: admit_record_def sample_record_def no_rows_def find_source_def open_stream_def
        find_stream_def chain_tail_def chain_def append_event_def update_stream_def)
  then obtain db' s where cl: "close_producer_stream ?own (str ''W'') ?k (str ''reader'') 1 db = Inr db'"
    and s: "find_stream db' ?k (str ''reader'') = Some s" "closed_at_sequence s = Some 1"
    by (simp add: close_producer_stream_def find_stream_update)
  have "reachable empty_db (sequencer_step ?own) db'"
    by (rule reach_step [OF reachable_sample [OF adm]]) (rule closed [OF cl])
  from closed_stream_is_complete [OF this s rtranclp.rtrancl_refl] s show ?thesis by auto
qed

end
