(* ===== verification/Evidence_Bundle.thy ===== *)
theory Evidence_Bundle
  imports Verdicts Patch_Policy
begin

text \<open>
  What leaves the system: the bundle and its signed manifest (\<open>evidence/bundle.py\<close>), the archive
  that carries it (\<open>archive.py\<close>) and the attestation over it (\<open>signing.py\<close>). A zip file is the
  list of its members as the reader's library presents them; base64 decoding, key loading and
  Ed25519 verification are parameters.
\<close>

section \<open>The bundle\<close>

definition BUNDLE_SCHEMA_VERSION :: pytext where
  "BUNDLE_SCHEMA_VERSION = str ''1.0.0''"

definition CANONICALIZATION_VERSION :: pytext where
  "CANONICALIZATION_VERSION = str ''RFC8785+SHA256/1''"

datatype trust_level = FULLY_VERIFIABLE | LIMITED_DISCLOSURE | INCOMPLETE

datatype evidence_state = RETAINED | REDACTED | DELETED | UNAVAILABLE

fun trust_level_value :: "trust_level \<Rightarrow> pytext" where
  "trust_level_value FULLY_VERIFIABLE = str ''FULLY_VERIFIABLE''"
| "trust_level_value LIMITED_DISCLOSURE = str ''LIMITED_DISCLOSURE''"
| "trust_level_value INCOMPLETE = str ''INCOMPLETE''"

fun evidence_state_value :: "evidence_state \<Rightarrow> pytext" where
  "evidence_state_value RETAINED = str ''RETAINED''"
| "evidence_state_value REDACTED = str ''REDACTED''"
| "evidence_state_value DELETED = str ''DELETED''"
| "evidence_state_value UNAVAILABLE = str ''UNAVAILABLE''"

record artifact_entry =
  artifact_kind :: pytext
  artifact_producer :: pytext
  content_digest :: pytext
  size_bytes :: int
  state :: evidence_state
  redacted_digest :: "pytext option"
  included :: bool

record producer_entry =
  entry_producer :: pytext
  entry_admitted :: int
  entry_closed_at :: "int option"
  source_record_digests :: "pytext list"

record review_entry =
  review_id :: pytext
  reviewer_id :: pytext
  review_verdict :: pytext
  observations :: pytext
  limitations :: pytext
  used_assistive_technology :: bool
  submitted_at :: pytext

record completeness_declaration =
  canonical_chain_contiguous :: bool
  all_required_producers_closed :: bool
  all_required_artifacts_present :: bool
  completeness_reasons :: "pytext list"

record bundle_event =
  be_sequence :: int
  be_event_id :: pytext
  be_event_type :: pytext
  be_previous_hash :: pytext
  be_payload_digest :: pytext
  be_source_time :: pytext

record evidence_bundle =
  schema_version :: pytext
  canonicalization_version :: pytext
  bundle_workspace :: pytext
  bundle_run :: pytext
  bundle_attempt :: pytext
  bundle_manifest_digest :: pytext
  bundle_identities :: "(pytext \<times> pytext) list"
  bundle_outcome :: pytext
  outcome_reasons :: "pytext list"
  bundle_evaluator :: pytext
  scope_statement :: pytext
  bundle_events :: "bundle_event list"
  producers :: "producer_entry list"
  artifacts :: "artifact_entry list"
  reviews :: "review_entry list"
  completeness :: completeness_declaration
  comparison :: pyval
  redaction_notes :: "pytext list"

definition bundle_trust_level :: "evidence_bundle \<Rightarrow> trust_level" where
  "bundle_trust_level b =
     (if \<not> (canonical_chain_contiguous (completeness b) \<and>
            all_required_producers_closed (completeness b) \<and>
            all_required_artifacts_present (completeness b))
      then INCOMPLETE
      else if list_ex (\<lambda>a. state a \<in> {REDACTED, DELETED}) (artifacts b) then LIMITED_DISCLOSURE
      else if list_ex (\<lambda>a. \<not> included a) (artifacts b) then LIMITED_DISCLOSURE
      else FULLY_VERIFIABLE)"

definition optional :: "('a \<Rightarrow> pyval) \<Rightarrow> 'a option \<Rightarrow> pyval" where
  "optional f v = (case v of None \<Rightarrow> PNone | Some x \<Rightarrow> f x)"

definition event_for_digest :: "bundle_event \<Rightarrow> pyval" where
  "event_for_digest e =
     PDict [(key ''sequence'', PInt (be_sequence e)),
            (key ''eventId'', PStr (be_event_id e)),
            (key ''eventType'', PStr (be_event_type e)),
            (key ''previousEventHash'', PStr (be_previous_hash e)),
            (key ''payloadDigest'', PStr (be_payload_digest e)),
            (key ''sourceTime'', PStr (be_source_time e))]"

definition texts :: "pytext list \<Rightarrow> pyval" where
  "texts ts = PList (map PStr ts)"

definition producer_item :: "producer_entry \<Rightarrow> pyval" where
  "producer_item p =
     PDict [(key ''producerId'', PStr (entry_producer p)),
            (key ''admittedThrough'', PInt (entry_admitted p)),
            (key ''closedAtSequence'', optional PInt (entry_closed_at p))]"

definition artifact_item :: "artifact_entry \<Rightarrow> pyval" where
  "artifact_item a =
     PDict [(key ''kind'', PStr (artifact_kind a)),
            (key ''producerId'', PStr (artifact_producer a)),
            (key ''contentDigest'', PStr (content_digest a)),
            (key ''state'', PStr (evidence_state_value (state a))),
            (key ''redactedDigest'', optional PStr (redacted_digest a)),
            (key ''included'', PBool (included a))]"

definition completeness_item :: "completeness_declaration \<Rightarrow> pyval" where
  "completeness_item c =
     PDict [(key ''canonicalChainContiguous'', PBool (canonical_chain_contiguous c)),
            (key ''allRequiredProducersClosed'', PBool (all_required_producers_closed c)),
            (key ''allRequiredArtifactsPresent'', PBool (all_required_artifacts_present c)),
            (key ''reasons'', texts (completeness_reasons c))]"

definition events_document :: "evidence_bundle \<Rightarrow> pyval" where
  "events_document b = PDict [(key ''events'', PList (map event_for_digest (bundle_events b)))]"

definition manifest :: "evidence_bundle \<Rightarrow> (canon_error, pyval) result" where
  "manifest b =
     bind_result (digest (events_document b)) (\<lambda>chain_digest.
     Inr (PDict
       [(key ''schemaVersion'', PStr (schema_version b)),
        (key ''canonicalizationVersion'', PStr (canonicalization_version b)),
        (key ''workspaceId'', PStr (bundle_workspace b)),
        (key ''runId'', PStr (bundle_run b)),
        (key ''attemptId'', PStr (bundle_attempt b)),
        (key ''manifestDigest'', PStr (bundle_manifest_digest b)),
        (key ''identities'',
         PDict (map (\<lambda>(k, v). (KText k, PStr v)) (sort_key fst (bundle_identities b)))),
        (key ''outcome'', PStr (bundle_outcome b)),
        (key ''evaluatorVersion'', PStr (bundle_evaluator b)),
        (key ''trustLevel'', PStr (trust_level_value (bundle_trust_level b))),
        (key ''eventChainDigest'', PStr chain_digest),
        (key ''producers'', PList (map producer_item (sort_key entry_producer (producers b)))),
        (key ''artifacts'',
         PList (map artifact_item
           (sort_key (\<lambda>a. [artifact_kind a, content_digest a]) (artifacts b)))),
        (key ''reviewIds'', texts (sort (map review_id (reviews b)))),
        (key ''completeness'', completeness_item (completeness b))]))"

definition manifest_bytes :: "evidence_bundle \<Rightarrow> (canon_error, byte list) result" where
  "manifest_bytes b =
     bind_result (manifest b) (\<lambda>m. bind_result (canonicalize m) encode_utf8)"

definition review_item :: "review_entry \<Rightarrow> pyval" where
  "review_item r =
     PDict [(key ''reviewId'', PStr (review_id r)),
            (key ''reviewerId'', PStr (reviewer_id r)),
            (key ''verdict'', PStr (review_verdict r)),
            (key ''observations'', PStr (observations r)),
            (key ''limitations'', PStr (limitations r)),
            (key ''usedAssistiveTechnology'', PBool (used_assistive_technology r)),
            (key ''submittedAt'', PStr (submitted_at r)),
            (key ''establishedBy'', lit ''a person's judgement, attributable to them'')]"

text \<open>The document \<open>to_json\<close> prints.\<close>

definition bundle_document :: "evidence_bundle \<Rightarrow> (canon_error, pyval) result" where
  "bundle_document b =
     bind_result (manifest b) (\<lambda>m.
     Inr (PDict
       [(key ''manifest'', m),
        (key ''events'', PList (map event_for_digest (bundle_events b))),
        (key ''producerSourceDigests'',
         PDict (map (\<lambda>p. (KText (entry_producer p), texts (source_record_digests p))) (producers b))),
        (key ''reviews'', PList (map review_item (reviews b))),
        (key ''machineOutcome'',
         PDict [(key ''outcome'', PStr (bundle_outcome b)),
                (key ''reasons'', texts (outcome_reasons b)),
                (key ''evaluatorVersion'', PStr (bundle_evaluator b)),
                (key ''establishedBy'', lit ''deterministic evaluation of the recorded evidence'')]),
        (key ''comparison'', comparison b),
        (key ''redactionNotes'', texts (redaction_notes b)),
        (key ''scopeStatement'', PStr (scope_statement b)),
        (key ''whatThisDoesNotEstablish'',
         PList (map lit
           [''that the application is usable by people with disabilities in general'',
            ''that it works with assistive technologies other than the one it names'',
            ''that untested journeys behave the same way'',
            ''that any legal or regulatory obligation is satisfied'',
            ''that the signature over this manifest makes its contents true, rather than attributing them to an issuer'']))]))"

section \<open>The archive\<close>

definition ALLOWED_MEMBERS :: "pytext list" where
  "ALLOWED_MEMBERS =
     map str [''bundle.json'', ''manifest.canonical.json'', ''attestation.json'', ''artifacts/'']"

definition MAX_ARCHIVE_BYTES :: int where "MAX_ARCHIVE_BYTES = 256 * 1024 * 1024"
definition MAX_MEMBER_BYTES :: int where "MAX_MEMBER_BYTES = 32 * 1024 * 1024"
definition MAX_MEMBERS :: nat where "MAX_MEMBERS = 256"
definition MAX_COMPRESSION_RATIO :: int where "MAX_COMPRESSION_RATIO = 200"

datatype unsafe_archive =
    ArchiveTooLarge | TooManyMembers | DuplicateMember | NestedMember | HiddenMember
  | MemberCharacters | UnknownMember | MemberTooLarge | CompressionRatio | MemberUnderstated
  | NotReadable | RequiredMemberMissing

text \<open>The test \<open>c.isalnum()\<close> is the parameter \<open>alnum\<close>.\<close>

definition assert_member_name_safe ::
  "(code_point \<Rightarrow> bool) \<Rightarrow> pytext \<Rightarrow> (unsafe_archive, unit) result" where
  "assert_member_name_safe alnum name =
     (let prefix = str ''artifacts/''; tail = drop (length prefix) name in
      if name \<in> set ALLOWED_MEMBERS then Inr ()
      else if startswith name prefix \<and> name \<noteq> prefix then
        (if 47 \<in> set tail \<or> 92 \<in> set tail then Inl NestedMember
         else if tail = str ''.'' \<or> tail = str ''..'' \<or> startswith tail (str ''.'') then Inl HiddenMember
         else if \<not> list_all (\<lambda>c. alnum c \<or> c \<in> set (str ''._-'')) tail then Inl MemberCharacters
         else Inr ())
      else Inl UnknownMember)"

text \<open>A member as the directory declares it, with the bytes its decompression yields.\<close>

record zip_info =
  filename :: pytext
  file_size :: int
  compress_size :: int
  contents :: "byte list"

type_synonym archive_members = "(pytext \<times> byte list) list"

definition endswith_slash :: "pytext \<Rightarrow> bool" where
  "endswith_slash name \<longleftrightarrow> name \<noteq> [] \<and> last name = 47"

fun read_members ::
  "(code_point \<Rightarrow> bool) \<Rightarrow> pytext list \<Rightarrow> archive_members \<Rightarrow> zip_info list \<Rightarrow>
     (unsafe_archive, archive_members) result" where
  "read_members alnum seen members [] = Inr members"
| "read_members alnum seen members (info # infos) =
     (if filename info \<in> set seen then Inl DuplicateMember
      else bind_result (assert_member_name_safe alnum (filename info)) (\<lambda>_.
        let seen' = filename info # seen in
        if endswith_slash (filename info) then read_members alnum seen' members infos
        else if MAX_MEMBER_BYTES < file_size info then Inl MemberTooLarge
        else if 0 < compress_size info \<and> MAX_COMPRESSION_RATIO * compress_size info < file_size info
        then Inl CompressionRatio
        else if MAX_MEMBER_BYTES < int (length (contents info)) then Inl MemberUnderstated
        else read_members alnum seen' (members @ [(filename info, contents info)]) infos))"

text \<open>\<open>infos\<close> is None when the file is not a readable zip.\<close>

definition read_archive ::
  "(code_point \<Rightarrow> bool) \<Rightarrow> int \<Rightarrow> zip_info list option \<Rightarrow> (unsafe_archive, archive_members) result" where
  "read_archive alnum size' infos =
     (if MAX_ARCHIVE_BYTES < size' then Inl ArchiveTooLarge
      else case infos of
          None \<Rightarrow> Inl NotReadable
        | Some infos \<Rightarrow>
            if MAX_MEMBERS < length infos then Inl TooManyMembers
            else bind_result (read_members alnum [] [] infos) (\<lambda>members.
              if list_all (\<lambda>r. r \<in> set (map fst members))
                   (map str [''bundle.json'', ''manifest.canonical.json'', ''attestation.json''])
              then Inr members else Inl RequiredMemberMissing))"

section \<open>Attestations\<close>

datatype key_provenance = EXTERNALLY_SUPPLIED | EMBEDDED_IN_BUNDLE

record trust_root =
  key_id :: pytext
  issuer :: pytext
  public_key_base64 :: pytext
  root_provenance :: key_provenance

definition root_independently_trusted :: "trust_root \<Rightarrow> bool" where
  "root_independently_trusted t \<longleftrightarrow> root_provenance t = EXTERNALLY_SUPPLIED"

record attestation =
  att_key_id :: pytext
  att_issuer :: pytext
  algorithm :: pytext
  signature_base64 :: pytext

record attestation_check =
  signature_matches :: bool
  attributed_to :: "pytext option"
  check_key_id :: pytext
  check_independently_trusted :: bool

text \<open>
  The cryptography library: decoding of base64, loading of a raw public key, and verification,
  each None where the library raises something else than \<open>InvalidSignature\<close>.
\<close>

record 'k crypto =
  b64decode :: "pytext \<Rightarrow> byte list option"
  load_key :: "byte list \<Rightarrow> 'k option"
  ed25519_verify :: "'k \<Rightarrow> byte list \<Rightarrow> byte list \<Rightarrow> bool"

datatype signing_error = LibraryError

definition check_attestation ::
  "'k crypto \<Rightarrow> byte list \<Rightarrow> attestation \<Rightarrow> trust_root \<Rightarrow> (signing_error, attestation_check) result" where
  "check_attestation c manifest_bytes' a t =
     (let answer = (\<lambda>ok who. Inr \<lparr>signature_matches = ok, attributed_to = who,
                      check_key_id = att_key_id a,
                      check_independently_trusted = root_independently_trusted t\<rparr>)
      in if att_key_id a \<noteq> key_id t then answer False None
         else if algorithm a \<noteq> str ''Ed25519'' then answer False None
         else case Option.bind (b64decode c (public_key_base64 t)) (load_key c) of
             None \<Rightarrow> Inl LibraryError
           | Some k \<Rightarrow>
               (case b64decode c (signature_base64 a) of
                  None \<Rightarrow> Inl LibraryError
                | Some sig \<Rightarrow>
                    if \<not> ed25519_verify c k sig manifest_bytes' then answer False None
                    else answer True (Some (att_issuer a))))"

section \<open>What reading an archive establishes\<close>

lemma read_members_safe:
  "read_members alnum seen members infos = Inr ms \<Longrightarrow>
     \<exists>new. ms = members @ new \<and> distinct (map fst new) \<and> set (map fst new) \<inter> set seen = {} \<and>
       (\<forall>(n, bs) \<in> set new. assert_member_name_safe alnum n = Inr () \<and> \<not> endswith_slash n \<and>
          int (length bs) \<le> MAX_MEMBER_BYTES)"
proof (induction alnum seen members infos rule: read_members.induct)
  case (1 alnum seen members)
  then show ?case by simp
next
  case (2 alnum seen members info infos)
  from 2 have fresh: "filename info \<notin> set seen"
    and safe: "assert_member_name_safe alnum (filename info) = Inr ()"
    by (auto simp: bind_result_Inr split: if_splits)
  show ?case
  proof (cases "endswith_slash (filename info)")
    case True
    with 2 fresh safe show ?thesis by (auto simp: Let_def)
  next
    case False
    with 2 fresh safe obtain new where
      "ms = (members @ [(filename info, contents info)]) @ new" "distinct (map fst new)"
      "set (map fst new) \<inter> set (filename info # seen) = {}"
      "\<forall>(n, bs) \<in> set new. assert_member_name_safe alnum n = Inr () \<and> \<not> endswith_slash n \<and>
          int (length bs) \<le> MAX_MEMBER_BYTES"
      and "int (length (contents info)) \<le> MAX_MEMBER_BYTES"
      by (fastforce simp: Let_def split: if_splits)
    with fresh safe False show ?thesis
      by (intro exI [of _ "(filename info, contents info) # new"]) auto
  qed
qed

lemma safe_name:
  assumes "assert_member_name_safe alnum n = Inr ()"
  shows "n \<in> set ALLOWED_MEMBERS \<or>
    (\<exists>t. n = str ''artifacts/'' @ t \<and> t \<noteq> [] \<and> 47 \<notin> set t \<and> 92 \<notin> set t \<and> hd t \<noteq> 46)"
proof (cases "n \<in> set ALLOWED_MEMBERS")
  case False
  define P where "P = str ''artifacts/''"
  from assms(1) False have pre: "startswith n P" "n \<noteq> P"
    and tail: "47 \<notin> set (drop (length P) n)" "92 \<notin> set (drop (length P) n)"
      "\<not> startswith (drop (length P) n) (str ''.'')"
    unfolding assert_member_name_safe_def P_def [symmetric] Let_def by (auto split: if_splits)
  from pre obtain t where t: "n = P @ t" "t \<noteq> []"
    by (auto simp: startswith_iff)
  with tail have "47 \<notin> set t" "92 \<notin> set t" "hd t \<noteq> 46"
    by (cases t; simp add: str_def)+
  with t show ?thesis unfolding P_def by blast
qed simp

end
