(* ===== verification/Evidence_Verifier.thy ===== *)
theory Evidence_Verifier
  imports Canonical_Digest Evidence_Bundle
begin

text \<open>
  The offline verifier (\<open>evidence/verifier.py\<close>). A finding keeps its check and its outcome; the
  explanatory text is left out. \<open>loads\<close> is \<open>json.loads\<close>. Where a document is not shaped as the format
  says (a list for an object, a number for a text), or a digest cannot be computed, the source
  raises and so does the model: \<open>Malformed\<close>.
\<close>

section \<open>Findings\<close>

datatype check_outcome = PASSED | FAILED | NOT_APPLICABLE | UNSUPPORTED

record finding =
  check :: pytext
  finding_outcome :: check_outcome

record verification_report =
  findings :: "finding list"
  trust_level :: "trust_level option"
  report_attributed_to :: "pytext option"
  independently_trusted :: bool

datatype verifier_error = Malformed | LibraryRaised

definition failed :: "verification_report \<Rightarrow> finding list" where
  "failed r = filter (\<lambda>f. finding_outcome f = FAILED) (findings r)"

definition integrity_intact :: "verification_report \<Rightarrow> bool" where
  "integrity_intact r \<longleftrightarrow> failed r = []"

definition exit_code :: "verification_report \<Rightarrow> int" where
  "exit_code r = (if failed r \<noteq> [] then 1 else 0)"

abbreviation finds :: "string \<Rightarrow> check_outcome \<Rightarrow> finding" where
  "finds c o' \<equiv> \<lparr>check = str c, finding_outcome = o'\<rparr>"

definition finds_for :: "string \<Rightarrow> pytext \<Rightarrow> check_outcome \<Rightarrow> finding" where
  "finds_for c name o' = \<lparr>check = str c @ str ''['' @ name @ str '']'', finding_outcome = o'\<rparr>"

type_synonym 'a verifying = "(verifier_error, 'a) result"

section \<open>Taking documents apart\<close>

fun dict_of :: "pyval \<Rightarrow> items verifying" where
  "dict_of (PDict kvs) = Inr kvs"
| "dict_of _ = Inl Malformed"

fun list_of :: "pyval \<Rightarrow> pyval list verifying" where
  "list_of (PList vs) = Inr vs"
| "list_of _ = Inl Malformed"

fun int_of :: "pyval \<Rightarrow> int verifying" where
  "int_of (PInt i) = Inr i"
| "int_of _ = Inl Malformed"

fun text_of :: "pyval \<Rightarrow> pytext verifying" where
  "text_of (PStr s) = Inr s"
| "text_of _ = Inl Malformed"

definition get_or :: "items \<Rightarrow> string \<Rightarrow> pyval \<Rightarrow> pyval" where
  "get_or kvs n dflt = (case get_item kvs n of None \<Rightarrow> dflt | Some v \<Rightarrow> v)"

definition required_item :: "items \<Rightarrow> string \<Rightarrow> pyval verifying" where
  "required_item kvs n = (case get_item kvs n of None \<Rightarrow> Inl Malformed | Some v \<Rightarrow> Inr v)"

fun truthy_value :: "pyval \<Rightarrow> bool" where
  "truthy_value PNone = False"
| "truthy_value (PBool b) = b"
| "truthy_value (PInt i) = (i \<noteq> 0)"
| "truthy_value (PFloat f) = (f \<noteq> FFinite 0)"
| "truthy_value (PStr s) = (s \<noteq> [])"
| "truthy_value (PList vs) = (vs \<noteq> [])"
| "truthy_value (PTuple vs) = (vs \<noteq> [])"
| "truthy_value (PDict kvs) = (kvs \<noteq> [])"
| "truthy_value POther = True"

definition digest_of :: "pyval \<Rightarrow> pytext verifying" where
  "digest_of v = map_error (\<lambda>_. Malformed) (digest v)"

section \<open>The checks\<close>

definition check_versions :: "items \<Rightarrow> finding list" where
  "check_versions m =
     [finds ''bundle.schemaVersion''
        (if item m ''schemaVersion'' \<noteq> PStr BUNDLE_SCHEMA_VERSION then UNSUPPORTED else PASSED),
      finds ''bundle.canonicalizationVersion''
        (if item m ''canonicalizationVersion'' \<noteq> PStr CANONICALIZATION_VERSION then UNSUPPORTED
         else PASSED)]"

definition check_manifest_matches_canonical_bytes ::
  "(byte list \<Rightarrow> pyval option) \<Rightarrow> items \<Rightarrow> byte list \<Rightarrow> finding verifying" where
  "check_manifest_matches_canonical_bytes loads m bs =
     (case loads bs of
        None \<Rightarrow> Inr (finds ''manifest.signedBytes'' FAILED)
      | Some shown \<Rightarrow>
          bind_result (digest_of shown) (\<lambda>s.
          bind_result (digest_of (PDict m)) (\<lambda>d.
          Inr (finds ''manifest.signedBytes'' (if s \<noteq> d then FAILED else PASSED)))))"

definition event_sequence :: "pyval \<Rightarrow> int verifying" where
  "event_sequence e =
     bind_result (dict_of e) (\<lambda>kvs. bind_result (required_item kvs ''sequence'') int_of)"

definition check_event_chain :: "items \<Rightarrow> items \<Rightarrow> finding verifying" where
  "check_event_chain document m =
     bind_result (list_of (get_or document ''events'' (PList []))) (\<lambda>es.
     if es = [] then Inr (finds ''events.chain'' FAILED)
     else bind_result (traverse event_sequence es) (\<lambda>seqs.
       if seqs \<noteq> sort seqs then Inr (finds ''events.chain'' FAILED)
       else if seqs \<noteq> map int [1..<Suc (length seqs)] then Inr (finds ''events.chain'' FAILED)
       else bind_result (digest_of (PDict [(key ''events'', PList es)])) (\<lambda>recomputed.
         Inr (finds ''events.chain''
           (if item m ''eventChainDigest'' \<noteq> PStr recomputed then FAILED else PASSED)))))"

definition check_producer :: "pyval \<Rightarrow> finding verifying" where
  "check_producer v =
     bind_result (dict_of v) (\<lambda>p.
     let name = as_text (get_or p ''producerId'' (lit ''?'')) in
     Inr (finds_for ''producers.watermarks'' name
       (if item p ''closedAtSequence'' = PNone then FAILED
        else if \<not> py_eq (item p ''closedAtSequence'') (item p ''admittedThrough'') then FAILED
        else PASSED)))"

definition check_producers :: "items \<Rightarrow> finding list verifying" where
  "check_producers m =
     bind_result (list_of (get_or m ''producers'' (PList []))) (\<lambda>ps.
     if ps = [] then Inr [finds ''producers.watermarks'' FAILED] else traverse check_producer ps)"

definition check_artifact :: "archive_members \<Rightarrow> pyval \<Rightarrow> finding verifying" where
  "check_artifact members v =
     bind_result (dict_of v) (\<lambda>a.
     bind_result (text_of (get_or a ''contentDigest'' (PStr []))) (\<lambda>expected.
     let name = as_text (get_or a ''kind'' (lit ''?''));
         finding' = finds_for ''artifacts.digests'' name in
     if item a ''state'' = lit ''DELETED'' then Inr (finding' NOT_APPLICABLE)
     else if \<not> truthy_value (item a ''included'') then Inr (finding' NOT_APPLICABLE)
     else case map_of members (str ''artifacts/'' @ expected) of
         None \<Rightarrow> Inr (finding' FAILED)
       | Some bs \<Rightarrow> Inr (finding' (if hex (sha256 bs) \<noteq> expected then FAILED else PASSED))))"

definition check_artifacts :: "items \<Rightarrow> archive_members \<Rightarrow> finding list verifying" where
  "check_artifacts m members =
     bind_result (list_of (get_or m ''artifacts'' (PList []))) (\<lambda>as.
     if as = [] then Inr [finds ''artifacts.digests'' NOT_APPLICABLE]
     else traverse (check_artifact members) as)"

definition check_identities :: "items \<Rightarrow> finding verifying" where
  "check_identities m =
     bind_result (dict_of (get_or m ''identities'' (PDict []))) (\<lambda>ids.
     Inr (finds ''identities.bound''
       (if list_all (\<lambda>k. KText (identity_value k) \<in> set (map fst ids)) ALWAYS_REQUIRED
        then PASSED else FAILED)))"

definition known_outcomes :: "pytext list" where
  "known_outcomes = map outcome_value [NOT_EVALUATED, PASS, FAIL, INCONCLUSIVE]"

fun is_text :: "pyval \<Rightarrow> bool" where
  "is_text (PStr _) = True"
| "is_text _ = False"

definition check_outcome_present :: "items \<Rightarrow> items \<Rightarrow> finding" where
  "check_outcome_present document m =
     (let verdict' = finds ''outcome.frozen'' in
      case get_or document ''machineOutcome'' (PDict []) of
        PDict machine \<Rightarrow>
          if \<not> text_with (item machine ''outcome'') (\<lambda>t. t \<in> set known_outcomes) then verdict' FAILED
          else if \<not> text_with (item machine ''evaluatorVersion'') (\<lambda>t. \<not> blank t) then verdict' FAILED
          else if item machine ''outcome'' \<noteq> item m ''outcome'' \<or>
                  item machine ''evaluatorVersion'' \<noteq> item m ''evaluatorVersion'' then verdict' FAILED
          else (case get_or machine ''reasons'' (PList []) of
              PList rs \<Rightarrow> if list_all is_text rs then verdict' PASSED else verdict' FAILED
            | _ \<Rightarrow> verdict' FAILED)
      | _ \<Rightarrow> verdict' FAILED)"

text \<open>Only texts, null and numbers can be members of a Python set.\<close>

definition review_key :: "pyval \<Rightarrow> pyval verifying" where
  "review_key v = (case v of PStr s \<Rightarrow> Inr v | PNone \<Rightarrow> Inr v | _ \<Rightarrow> Inl Malformed)"

definition check_reviews :: "items \<Rightarrow> items \<Rightarrow> finding verifying" where
  "check_reviews document m =
     bind_result (list_of (get_or m ''reviewIds'' (PList []))) (\<lambda>ids.
     bind_result (traverse review_key ids) (\<lambda>declared.
     bind_result (list_of (get_or document ''reviews'' (PList []))) (\<lambda>rs.
     bind_result (traverse dict_of rs) (\<lambda>reviews'.
     bind_result (traverse (\<lambda>r. review_key (item r ''reviewId'')) reviews') (\<lambda>present.
     Inr (finds ''reviews.attribution''
       (if declared = [] \<and> present = [] then NOT_APPLICABLE
        else if set present \<noteq> set declared then FAILED
        else if list_ex (\<lambda>r. \<not> truthy_value (item r ''reviewerId'') \<or>
                             \<not> truthy_value (item r ''verdict'')) reviews' then FAILED
        else PASSED)))))))"

definition attestation_of :: "items \<Rightarrow> attestation verifying" where
  "attestation_of doc =
     bind_result (text_of (get_or doc ''keyId'' (PStr []))) (\<lambda>k.
     bind_result (text_of (get_or doc ''issuer'' (PStr []))) (\<lambda>i.
     bind_result (text_of (get_or doc ''algorithm'' (PStr []))) (\<lambda>a.
     bind_result (text_of (get_or doc ''signature'' (PStr []))) (\<lambda>s.
     Inr \<lparr>att_key_id = k, att_issuer = i, algorithm = a, signature_base64 = s\<rparr>))))"

definition check_signature ::
  "'k crypto \<Rightarrow> byte list \<Rightarrow> pyval \<Rightarrow> trust_root option \<Rightarrow> (finding \<times> pytext option \<times> bool) verifying" where
  "check_signature c bs attestation_doc trust =
     (case trust of
        None \<Rightarrow> Inr (finds ''attestation.signature'' UNSUPPORTED, None, False)
      | Some t \<Rightarrow>
          bind_result (bind_result (dict_of attestation_doc) attestation_of) (\<lambda>a.
          bind_result (map_error (\<lambda>_. LibraryRaised) (check_attestation c bs a t)) (\<lambda>r.
          Inr (finds ''attestation.signature'' (if signature_matches r then PASSED else FAILED),
               attributed_to r, check_independently_trusted r))))"

definition supported_level :: "items \<Rightarrow> trust_level verifying" where
  "supported_level m =
     bind_result (list_of (get_or m ''artifacts'' (PList []))) (\<lambda>as.
     bind_result (traverse dict_of as) (\<lambda>artifacts'.
     bind_result (dict_of (get_or m ''completeness'' (PDict []))) (\<lambda>comp.
     Inr (if \<not> list_all (\<lambda>n. truthy_value (get_or comp n (PBool False)))
               [''canonicalChainContiguous'', ''allRequiredProducersClosed'',
                ''allRequiredArtifactsPresent'']
          then INCOMPLETE
          else if list_ex (\<lambda>a. item a ''state'' \<in> {lit ''REDACTED'', lit ''DELETED''} \<or>
                               \<not> truthy_value (item a ''included'')) artifacts'
          then LIMITED_DISCLOSURE
          else FULLY_VERIFIABLE))))"

definition check_trust_level_not_overclaimed :: "items \<Rightarrow> finding verifying" where
  "check_trust_level_not_overclaimed m =
     bind_result (supported_level m) (\<lambda>level.
     Inr (finds ''bundle.trustLevel''
       (if item m ''trustLevel'' \<noteq> PStr (trust_level_value level) then FAILED else PASSED)))"

text \<open>\<open>TrustLevel(declared) if declared in set(TrustLevel) else None\<close>\<close>

definition declared_level :: "pyval \<Rightarrow> trust_level option" where
  "declared_level v =
     List.find (\<lambda>l. v = PStr (trust_level_value l)) [FULLY_VERIFIABLE, LIMITED_DISCLOSURE, INCOMPLETE]"

section \<open>The report\<close>

definition only_finding :: "finding list \<Rightarrow> verification_report" where
  "only_finding fs =
     \<lparr>findings = fs, trust_level = None, report_attributed_to = None, independently_trusted = False\<rparr>"

definition verify_members ::
  "(byte list \<Rightarrow> pyval option) \<Rightarrow> 'k crypto \<Rightarrow> trust_root option \<Rightarrow> archive_members \<Rightarrow>
     verification_report verifying" where
  "verify_members loads c trust members =
     (let safety = finds ''archive.safety'' PASSED;
          read = (\<lambda>n. Option.bind (map_of members (str n)) loads)
      in case (read ''bundle.json'', map_of members (str ''manifest.canonical.json''), read ''attestation.json'') of
        (Some document_value, Some manifest_bytes', Some attestation_doc) \<Rightarrow>
          bind_result (dict_of document_value) (\<lambda>document.
          bind_result (dict_of (get_or document ''manifest'' (PDict []))) (\<lambda>m.
          bind_result (check_manifest_matches_canonical_bytes loads m manifest_bytes') (\<lambda>signed_bytes.
          bind_result (check_event_chain document m) (\<lambda>events'.
          bind_result (check_producers m) (\<lambda>producers'.
          bind_result (check_artifacts m members) (\<lambda>artifacts'.
          bind_result (check_identities m) (\<lambda>identities.
          bind_result (check_reviews document m) (\<lambda>reviews'.
          bind_result (check_signature c manifest_bytes' attestation_doc trust) (\<lambda>(signature, who, trusted).
          bind_result (check_trust_level_not_overclaimed m) (\<lambda>level.
          Inr \<lparr>findings = [safety] @ check_versions m @ [signed_bytes, events'] @ producers' @ artifacts' @
                 [identities, check_outcome_present document m, reviews', signature, level],
               trust_level = declared_level (item m ''trustLevel''), report_attributed_to = who,
               independently_trusted = trusted\<rparr>))))))))))
      | _ \<Rightarrow> Inr (only_finding [safety, finds ''bundle.parse'' FAILED]))"

definition verify_archive ::
  "(code_point \<Rightarrow> bool) \<Rightarrow> (byte list \<Rightarrow> pyval option) \<Rightarrow> 'k crypto \<Rightarrow> trust_root option \<Rightarrow>
     int \<Rightarrow> zip_info list option \<Rightarrow> verification_report verifying" where
  "verify_archive alnum loads c trust size' infos =
     (case read_archive alnum size' infos of
        Inl _ \<Rightarrow> Inr (only_finding [finds ''archive.safety'' FAILED])
      | Inr members \<Rightarrow> verify_members loads c trust members)"


section \<open>Inversion\<close>

lemma int_of_Inr [simp]: "int_of v = Inr i \<longleftrightarrow> v = PInt i"
  by (cases v) auto

lemma text_of_Inr [simp]: "text_of v = Inr t \<longleftrightarrow> v = PStr t"
  by (cases v) auto

lemma dict_of_Inr [simp]: "dict_of v = Inr kvs \<longleftrightarrow> v = PDict kvs"
  by (cases v) auto

lemma list_of_Inr [simp]: "list_of v = Inr vs \<longleftrightarrow> v = PList vs"
  by (cases v) auto

lemma digest_of_Inr [simp]: "digest_of v = Inr d \<longleftrightarrow> digest v = Inr d"
  by (simp add: digest_of_def)

lemma finding_outcome_finds_for [simp]: "finding_outcome (finds_for c n o') = o'"
  by (simp add: finds_for_def)

lemma integrity_intact_iff: "integrity_intact r \<longleftrightarrow> (\<forall>f \<in> set (findings r). finding_outcome f \<noteq> FAILED)"
  by (auto simp: integrity_intact_def failed_def filter_empty_conv)

text \<open>A report without failures on an archive whose documents could be read.\<close>

definition parts ::
  "(byte list \<Rightarrow> pyval option) \<Rightarrow> archive_members \<Rightarrow> items \<Rightarrow> items \<Rightarrow> byte list \<Rightarrow> pyval \<Rightarrow> bool" where
  "parts loads members document m bs att \<longleftrightarrow>
     Option.bind (map_of members (str ''bundle.json'')) loads = Some (PDict document) \<and>
     get_or document ''manifest'' (PDict []) = PDict m \<and>
     map_of members (str ''manifest.canonical.json'') = Some bs \<and>
     Option.bind (map_of members (str ''attestation.json'')) loads = Some att"

lemma intact_checks:
  assumes "verify_members loads c trust members = Inr report" and "integrity_intact report"
  shows "\<exists>document m bs att. parts loads members document m bs att \<and>
    (\<exists>f. check_manifest_matches_canonical_bytes loads m bs = Inr f \<and> finding_outcome f \<noteq> FAILED) \<and>
    (\<exists>f. check_event_chain document m = Inr f \<and> finding_outcome f \<noteq> FAILED) \<and>
    (\<exists>fs. check_producers m = Inr fs \<and> (\<forall>f \<in> set fs. finding_outcome f \<noteq> FAILED)) \<and>
    (\<exists>fs. check_artifacts m members = Inr fs \<and> (\<forall>f \<in> set fs. finding_outcome f \<noteq> FAILED)) \<and>
    (\<exists>f. check_identities m = Inr f \<and> finding_outcome f \<noteq> FAILED) \<and>
    finding_outcome (check_outcome_present document m) \<noteq> FAILED \<and>
    (\<exists>f. check_reviews document m = Inr f \<and> finding_outcome f \<noteq> FAILED) \<and>
    (\<exists>f. check_signature c bs att trust = Inr (f, report_attributed_to report, independently_trusted report) \<and>
       finding_outcome f \<noteq> FAILED) \<and>
    (\<exists>f. check_trust_level_not_overclaimed m = Inr f \<and> finding_outcome f \<noteq> FAILED) \<and>
    trust_level report = declared_level (item m ''trustLevel'')"
proof -
  have "\<not> integrity_intact (only_finding [finds ''archive.safety'' PASSED, finds ''bundle.parse'' FAILED])"
    by (simp add: integrity_intact_iff only_finding_def)
  with assms obtain document m bs att where "parts loads members document m bs att"
    and "bind_result (check_manifest_matches_canonical_bytes loads m bs) (\<lambda>signed_bytes.
          bind_result (check_event_chain document m) (\<lambda>events'.
          bind_result (check_producers m) (\<lambda>producers'.
          bind_result (check_artifacts m members) (\<lambda>artifacts'.
          bind_result (check_identities m) (\<lambda>identities.
          bind_result (check_reviews document m) (\<lambda>reviews'.
          bind_result (check_signature c bs att trust) (\<lambda>(signature, who, trusted).
          bind_result (check_trust_level_not_overclaimed m) (\<lambda>level.
          Inr \<lparr>findings = [finds ''archive.safety'' PASSED] @ check_versions m @ [signed_bytes, events'] @
                 producers' @ artifacts' @
                 [identities, check_outcome_present document m, reviews', signature, level],
               trust_level = declared_level (item m ''trustLevel''), report_attributed_to = who,
               independently_trusted = trusted\<rparr>)))))))) = Inr report"
    unfolding verify_members_def Let_def parts_def
    by (auto simp: bind_result_Inr split: option.splits)
  with assms(2) show ?thesis
    by (intro exI [of _ document] exI [of _ m] exI [of _ bs] exI [of _ att])
      (auto simp: bind_result_Inr integrity_intact_iff)
qed

lemma event_sequence_Inr:
  "event_sequence e = Inr i \<longleftrightarrow> (\<exists>kvs. e = PDict kvs \<and> get_item kvs ''sequence'' = Some (PInt i))"
  by (auto simp: event_sequence_def required_item_def bind_result_Inr split: option.splits)

lemma event_chain_passes:
  assumes "check_event_chain document m = Inr f" and "finding_outcome f \<noteq> FAILED"
  shows "\<exists>es d. get_or document ''events'' (PList []) = PList es \<and> es \<noteq> [] \<and>
    traverse event_sequence es = Inr (map int [1..<Suc (length es)]) \<and>
    digest (PDict [(key ''events'', PList es)]) = Inr d \<and> item m ''eventChainDigest'' = PStr d"
proof -
  from assms obtain es seqs d where es: "get_or document ''events'' (PList []) = PList es" "es \<noteq> []"
    and seqs: "traverse event_sequence es = Inr seqs" "seqs = map int [1..<Suc (length seqs)]"
    and d: "digest (PDict [(key ''events'', PList es)]) = Inr d" "item m ''eventChainDigest'' = PStr d"
    unfolding check_event_chain_def by (auto simp: bind_result_Inr simp del: upt_Suc split: if_splits)
  moreover have "length seqs = length es" using traverse_length [OF seqs(1)] .
  ultimately show ?thesis by metis
qed

lemma artifact_passes:
  assumes "check_artifacts m members = Inr fs" and "\<forall>f \<in> set fs. finding_outcome f \<noteq> FAILED"
    and "get_or m ''artifacts'' (PList []) = PList as" and "PDict a \<in> set as"
    and "item a ''state'' \<noteq> lit ''DELETED''" and "truthy_value (item a ''included'')"
  shows "\<exists>bs. map_of members (str ''artifacts/'' @ hex (sha256 bs)) = Some bs \<and>
    get_or a ''contentDigest'' (PStr []) = PStr (hex (sha256 bs))"
proof -
  from assms(1,3,4) have "traverse (check_artifact members) as = Inr fs"
    by (auto simp: check_artifacts_def split: if_splits)
  then obtain f where f: "f \<in> set fs" "check_artifact members (PDict a) = Inr f"
    using list_all2_partner(1) [OF _ assms(4)] by (auto simp: traverse_Inr_iff)
  then obtain expected where e: "get_or a ''contentDigest'' (PStr []) = PStr expected"
    by (auto simp: check_artifact_def bind_result_Inr)
  show ?thesis
  proof (cases "map_of members (str ''artifacts/'' @ expected)")
    case None
    with f assms(2,5,6) e show ?thesis by (auto simp: check_artifact_def Let_def)
  next
    case (Some bs)
    with f assms(2,5,6) e have "hex (sha256 bs) = expected"
      by (auto simp: check_artifact_def Let_def split: if_splits)
    with Some e show ?thesis by blast
  qed
qed

lemma producer_passes:
  assumes "check_producers m = Inr fs" and "\<forall>f \<in> set fs. finding_outcome f \<noteq> FAILED"
    and "get_or m ''producers'' (PList []) = PList ps" and "PDict p \<in> set ps"
  shows "item p ''closedAtSequence'' \<noteq> PNone \<and> py_eq (item p ''closedAtSequence'') (item p ''admittedThrough'')"
proof -
  from assms(1,3,4) have "traverse check_producer ps = Inr fs"
    by (auto simp: check_producers_def split: if_splits)
  then obtain f where f: "f \<in> set fs" "check_producer (PDict p) = Inr f"
    using list_all2_partner(1) [OF _ assms(4)] by (auto simp: traverse_Inr_iff)
  with assms(2) show ?thesis
    by (auto simp: check_producer_def Let_def split: if_splits)
qed


section \<open>An honest bundle\<close>

text \<open>What the service has to put in a bundle for it to be accepted.\<close>

definition honest :: "evidence_bundle \<Rightarrow> archive_members \<Rightarrow> bool" where
  "honest b members \<longleftrightarrow>
     bundle_events b \<noteq> [] \<and>
     map be_sequence (bundle_events b) = map int [1..<Suc (length (bundle_events b))] \<and>
     producers b \<noteq> [] \<and> list_all (\<lambda>p. entry_closed_at p = Some (entry_admitted p)) (producers b) \<and>
     list_all (\<lambda>a. included a \<longrightarrow> (\<exists>bs. map_of members (str ''artifacts/'' @ content_digest a) = Some bs \<and>
        hex (sha256 bs) = content_digest a)) (artifacts b) \<and>
     list_all (\<lambda>k. identity_value k \<in> set (map fst (bundle_identities b))) ALWAYS_REQUIRED \<and>
     bundle_outcome b \<in> set known_outcomes \<and> \<not> blank (bundle_evaluator b) \<and>
     list_all (\<lambda>r. reviewer_id r \<noteq> [] \<and> review_verdict r \<noteq> []) (reviews b)"

lemma sort_key_Nil_iff [simp]: "sort_key f xs = [] \<longleftrightarrow> xs = []"
  by (metis length_0_conv length_sort)

lemma manifest_items:
  assumes "manifest b = Inr (PDict m)"
  shows "get_item m ''artifacts'' = Some (PList (map artifact_item
           (sort_key (\<lambda>a. [artifact_kind a, content_digest a]) (artifacts b))))"
    "get_item m ''producers'' = Some (PList (map producer_item (sort_key entry_producer (producers b))))"
    "get_item m ''completeness'' = Some (completeness_item (completeness b))"
    "get_item m ''reviewIds'' = Some (texts (sort (map review_id (reviews b))))"
    "get_item m ''identities'' =
       Some (PDict (map (\<lambda>(k, v). (KText k, PStr v)) (sort_key fst (bundle_identities b))))"
    "get_item m ''outcome'' = Some (PStr (bundle_outcome b))"
    "get_item m ''evaluatorVersion'' = Some (PStr (bundle_evaluator b))"
    "get_item m ''trustLevel'' = Some (PStr (trust_level_value (bundle_trust_level b)))"
    "\<exists>d. digest (events_document b) = Inr d \<and> get_item m ''eventChainDigest'' = Some (PStr d)"
  using assms by (auto simp: manifest_def bind_result_Inr)

lemma document_items:
  assumes "bundle_document b = Inr (PDict doc)"
  shows "\<exists>m. manifest b = Inr m \<and> get_item doc ''manifest'' = Some m"
    "get_item doc ''events'' = Some (PList (map event_for_digest (bundle_events b)))"
    "get_item doc ''reviews'' = Some (PList (map review_item (reviews b)))"
    "get_item doc ''machineOutcome'' = Some (PDict [(key ''outcome'', PStr (bundle_outcome b)),
                (key ''reasons'', texts (outcome_reasons b)),
                (key ''evaluatorVersion'', PStr (bundle_evaluator b)),
                (key ''establishedBy'', lit ''deterministic evaluation of the recorded evidence'')])"
  using assms by (auto simp: bundle_document_def bind_result_Inr)

lemma traverse_const:
  "(\<And>x. x \<in> set xs \<Longrightarrow> f (g x) = Inr (h x)) \<Longrightarrow> traverse f (map g xs) = Inr (map h xs)"
  by (induction xs) auto

lemma item_get: "get_item kvs n = Some v \<Longrightarrow> item kvs n = v"
  by (simp add: item_def)

lemma get_or_get: "get_item kvs n = Some v \<Longrightarrow> get_or kvs n d = v"
  by (simp add: get_or_def)

fun artifact_fields :: "artifact_entry \<Rightarrow> items" where
  "artifact_fields a = (case artifact_item a of PDict kvs \<Rightarrow> kvs | _ \<Rightarrow> [])"

lemma artifact_item_fields: "artifact_item a = PDict (artifact_fields a)"
  by (simp add: artifact_item_def)

lemma honest_trust_level:
  assumes "manifest b = Inr (PDict m)"
  shows "supported_level m = Inr (bundle_trust_level b)"
proof -
  note M = manifest_items [OF assms]
  have dicts: "traverse dict_of (map artifact_item as) = Inr (map artifact_fields as)" for as
    by (rule traverse_const) (simp add: artifact_item_def)
  have hidden: "list_ex (\<lambda>a. item a ''state'' \<in> {lit ''REDACTED'', lit ''DELETED''} \<or>
        \<not> truthy_value (item a ''included'')) (map artifact_fields as) \<longleftrightarrow>
      list_ex (\<lambda>a. state a \<in> {REDACTED, DELETED}) as \<or> list_ex (\<lambda>a. \<not> included a) as" for as
  proof (induction as)
    case (Cons a as)
    have "evidence_state_value (state a) = str ''REDACTED'' \<longleftrightarrow> state a = REDACTED"
      "evidence_state_value (state a) = str ''DELETED'' \<longleftrightarrow> state a = DELETED"
      by (cases "state a"; simp)+
    with Cons show ?case by (auto simp: artifact_item_def)
  qed simp
  have "supported_level m = Inr (if \<not> list_all (\<lambda>n. truthy_value (get_or
            [(key ''canonicalChainContiguous'', PBool (canonical_chain_contiguous (completeness b))),
             (key ''allRequiredProducersClosed'', PBool (all_required_producers_closed (completeness b))),
             (key ''allRequiredArtifactsPresent'', PBool (all_required_artifacts_present (completeness b))),
             (key ''reasons'', texts (completeness_reasons (completeness b)))] n (PBool False)))
               [''canonicalChainContiguous'', ''allRequiredProducersClosed'', ''allRequiredArtifactsPresent'']
          then INCOMPLETE
          else if list_ex (\<lambda>a. state a \<in> {REDACTED, DELETED}) (artifacts b) \<or>
               list_ex (\<lambda>a. \<not> included a) (artifacts b)
          then LIMITED_DISCLOSURE else FULLY_VERIFIABLE)"
    unfolding supported_level_def get_or_get [OF M(1)] get_or_get [OF M(3)] list_of.simps
      bind_result.simps dicts completeness_item_def dict_of.simps hidden
    by (simp add: list_ex_iff)
  then show ?thesis
    by (simp add: bundle_trust_level_def get_or_def)
qed

lemma honest_checks:
  assumes m: "manifest b = Inr (PDict m)" and doc: "bundle_document b = Inr (PDict doc)"
    and h: "honest b members"
  shows "check_event_chain doc m = Inr (finds ''events.chain'' PASSED)"
    "\<exists>fs. check_producers m = Inr fs \<and> (\<forall>f \<in> set fs. finding_outcome f \<noteq> FAILED)"
    "\<exists>fs. check_artifacts m members = Inr fs \<and> (\<forall>f \<in> set fs. finding_outcome f \<noteq> FAILED)"
    "check_identities m = Inr (finds ''identities.bound'' PASSED)"
    "check_outcome_present doc m = finds ''outcome.frozen'' PASSED"
    "\<exists>f. check_reviews doc m = Inr f \<and> finding_outcome f \<noteq> FAILED"
    "check_trust_level_not_overclaimed m = Inr (finds ''bundle.trustLevel'' PASSED)"
proof -
  note M = manifest_items [OF m] and D = document_items [OF doc]
  note H = h [unfolded honest_def]
  have "traverse event_sequence (map event_for_digest es) = Inr (map be_sequence es)" for es
    by (rule traverse_const) (simp add: event_sequence_def event_for_digest_def required_item_def)
  moreover obtain d where "digest (events_document b) = Inr d" "get_item m ''eventChainDigest'' = Some (PStr d)"
    using M(9) by blast
  moreover have "sort (map int [1..<Suc n]) = map int [1..<Suc n]" for n
    by (rule sort_key_id_if_sorted) (simp add: sorted_iff_nth_mono del: upt_Suc)
  ultimately show "check_event_chain doc m = Inr (finds ''events.chain'' PASSED)"
    unfolding check_event_chain_def get_or_get [OF D(2)] using H
    by (simp add: events_document_def digest_of_def item_get del: upt_Suc)
  have prod: "check_producer (producer_item p) =
      Inr (finds_for ''producers.watermarks'' (entry_producer p) PASSED)"
    if "entry_closed_at p = Some (entry_admitted p)" for p
    using that by (simp add: check_producer_def producer_item_def get_or_def optional_def)
  have "traverse check_producer (map producer_item (sort_key entry_producer (producers b))) =
      Inr (map (\<lambda>p. finds_for ''producers.watermarks'' (entry_producer p) PASSED)
        (sort_key entry_producer (producers b)))"
    by (rule traverse_const) (rule prod, use H in \<open>simp add: list_all_iff\<close>)
  then show "\<exists>fs. check_producers m = Inr fs \<and> (\<forall>f \<in> set fs. finding_outcome f \<noteq> FAILED)"
    unfolding check_producers_def get_or_get [OF M(2)] using H by (auto simp: sort_key_Nil_iff)
  have art: "\<exists>f. check_artifact members (artifact_item a) = Inr f \<and> finding_outcome f \<noteq> FAILED"
    if "a \<in> set (artifacts b)" for a
  proof -
    have "included a \<Longrightarrow> (\<exists>bs. map_of members (str ''artifacts/'' @ content_digest a) = Some bs \<and>
        hex (sha256 bs) = content_digest a)"
      using H that by (auto simp: list_all_iff)
    then show ?thesis
      by (cases "included a") (auto simp: check_artifact_def artifact_item_def get_or_def Let_def)
  qed
  have "\<exists>fs. traverse (check_artifact members) (map artifact_item as) = Inr fs \<and>
      (\<forall>f \<in> set fs. finding_outcome f \<noteq> FAILED)" if "set as \<subseteq> set (artifacts b)" for as
    using that
  proof (induction as)
    case (Cons a as)
    with art [of a] show ?case by auto
  qed simp
  from this [of "sort_key (\<lambda>a. [artifact_kind a, content_digest a]) (artifacts b)"]
  show "\<exists>fs. check_artifacts m members = Inr fs \<and> (\<forall>f \<in> set fs. finding_outcome f \<noteq> FAILED)"
    unfolding check_artifacts_def get_or_get [OF M(1)] by auto
  have "fst ` set (map (\<lambda>(k, v). (KText k, PStr v)) (sort_key fst (bundle_identities b))) =
      KText ` fst ` set (bundle_identities b)"
    by force
  then show "check_identities m = Inr (finds ''identities.bound'' PASSED)"
    unfolding check_identities_def get_or_get [OF M(5)] using H
    by (auto simp: list_all_iff)
  show "check_outcome_present doc m = finds ''outcome.frozen'' PASSED"
    unfolding check_outcome_present_def get_or_get [OF D(4)] using H
    by (auto simp: item_get [OF M(6)] item_get [OF M(7)] get_or_def texts_def list_all_iff)
  have keys: "traverse review_key (map PStr ts) = Inr (map PStr ts)" for ts
    by (rule traverse_const) (simp add: review_key_def)
  let ?rs = "map (\<lambda>r. case review_item r of PDict kvs \<Rightarrow> kvs | _ \<Rightarrow> []) (reviews b)"
  have "traverse dict_of (map review_item (reviews b)) = Inr ?rs"
    by (rule traverse_const) (simp add: review_item_def)
  moreover have "traverse (\<lambda>r. review_key (item r ''reviewId'')) ?rs = Inr (map (\<lambda>r. PStr (review_id r)) (reviews b))"
    by (rule traverse_const) (simp add: review_item_def review_key_def)
  moreover have "\<not> list_ex (\<lambda>r. \<not> truthy_value (item r ''reviewerId'') \<or> \<not> truthy_value (item r ''verdict'')) ?rs"
    using H by (auto simp: list_ex_iff list_all_iff review_item_def)
  ultimately show "\<exists>f. check_reviews doc m = Inr f \<and> finding_outcome f \<noteq> FAILED"
    unfolding check_reviews_def get_or_get [OF M(4)] get_or_get [OF D(3)] texts_def list_of.simps
      bind_result.simps keys by (auto simp: image_image)
  show "check_trust_level_not_overclaimed m = Inr (finds ''bundle.trustLevel'' PASSED)"
    by (simp add: check_trust_level_not_overclaimed_def honest_trust_level [OF m] item_get [OF M(8)])
qed

lemma declared_level_value [simp]: "declared_level (PStr (trust_level_value l)) = Some l"
  by (cases l) (simp_all add: declared_level_def)


lemma honest_verifies:
  assumes m: "manifest b = Inr (PDict m)" and doc: "bundle_document b = Inr (PDict doc)"
    and h: "honest b members" and p: "parts loads members doc m mb att"
    and read: "loads mb = Some (PDict m)" and dig: "digest (PDict m) = Inr d"
    and sig: "check_signature c mb att trust = Inr (sf, who, tr)" "finding_outcome sf \<noteq> FAILED"
  shows "\<exists>report. verify_members loads c trust members = Inr report \<and> integrity_intact report \<and>
    trust_level report = Some (bundle_trust_level b) \<and> report_attributed_to report = who"
proof -
  note checks = honest_checks [OF m doc h]
  obtain ps as rv where ok: "check_producers m = Inr ps" "\<forall>f \<in> set ps. finding_outcome f \<noteq> FAILED"
      "check_artifacts m members = Inr as" "\<forall>f \<in> set as. finding_outcome f \<noteq> FAILED"
      "check_reviews doc m = Inr rv" "finding_outcome rv \<noteq> FAILED"
    using checks by blast
  have signed_bytes: "check_manifest_matches_canonical_bytes loads m mb =
      Inr (finds ''manifest.signedBytes'' PASSED)"
    by (simp add: check_manifest_matches_canonical_bytes_def read digest_of_def dig)
  let ?r = "\<lparr>findings = [finds ''archive.safety'' PASSED] @ check_versions m @
      [finds ''manifest.signedBytes'' PASSED, finds ''events.chain'' PASSED] @ ps @ as @
      [finds ''identities.bound'' PASSED, finds ''outcome.frozen'' PASSED, rv, sf,
       finds ''bundle.trustLevel'' PASSED],
     trust_level = Some (bundle_trust_level b), report_attributed_to = who, independently_trusted = tr\<rparr>"
  have "verify_members loads c trust members = Inr ?r"
    using p unfolding parts_def verify_members_def Let_def
    by (auto simp: signed_bytes checks(1,4,5,7) ok(1,3,5) sig(1) item_get [OF manifest_items(8) [OF m]])
  moreover have "integrity_intact ?r"
    using ok(2,4,6) sig(2) by (auto simp: integrity_intact_iff check_versions_def)
  ultimately show ?thesis by (intro exI [of _ ?r]) simp
qed

section \<open>What the signed manifest pins down\<close>

lemma norm_item:
  assumes "norm (PDict kvs) = norm (PDict kws)" and "distinct (map fst kws)"
    and "get_item kvs n = Some v" and "get_item kws n = Some w"
  shows "norm v = norm w"
proof -
  have "(key n, norm v) \<in> map_prod id norm ` set kvs"
    using map_of_SomeD [OF assms(3) [unfolded get_item_def]] by force
  then obtain u where u: "(key n, u) \<in> set kws" "norm u = norm v"
    unfolding norm_dict_items [OF assms(1)] by auto
  have "map_of kws (key n) = Some u"
    by (rule map_of_is_SomeI [OF assms(2) u(1)])
  with assms(4) u(2) show ?thesis by (simp add: get_item_def)
qed

lemma signed_bytes_pass:
  assumes "check_manifest_matches_canonical_bytes loads m bs = Inr f" and "finding_outcome f \<noteq> FAILED"
  shows "\<exists>v d. loads bs = Some v \<and> digest v = Inr d \<and> digest (PDict m) = Inr d"
  using assms
  by (auto simp: check_manifest_matches_canonical_bytes_def bind_result_Inr split: option.splits if_splits)

lemma outcome_passes:
  assumes "finding_outcome (check_outcome_present document m) \<noteq> FAILED"
  shows "\<exists>machine t e. get_or document ''machineOutcome'' (PDict []) = PDict machine \<and>
    item machine ''outcome'' = PStr t \<and> item m ''outcome'' = PStr t \<and> t \<in> set known_outcomes \<and>
    item machine ''evaluatorVersion'' = PStr e \<and> item m ''evaluatorVersion'' = PStr e"
  using assms
  by (auto simp: check_outcome_present_def Let_def split: pyval.splits if_splits elim!: text_withE)
    
lemma item_Some: "item kvs n = v \<Longrightarrow> v \<noteq> PNone \<Longrightarrow> get_item kvs n = Some v"
  by (auto simp: item_def split: option.splits)

end
