(* ===== verification/Verified_Evidence.thy ===== *)
theory Verified_Evidence
  imports Evidence_Verifier Portable
begin

text \<open>
  What the offline verifier's report is worth: what an intact report establishes, that an honest
  bundle gets one, what two archives over the same signed manifest share, and what the signature
  leaves open.
\<close>

section \<open>A bundle for the witnesses\<close>

definition sample_bundle :: evidence_bundle where
  "sample_bundle =
     \<lparr>schema_version = BUNDLE_SCHEMA_VERSION, canonicalization_version = CANONICALIZATION_VERSION,
      bundle_workspace = str ''w'', bundle_run = str ''r'', bundle_attempt = str ''a'',
      bundle_manifest_digest = str ''m'',
      bundle_identities = map (\<lambda>k. (identity_value k, str ''x'')) ALWAYS_REQUIRED,
      bundle_outcome = str ''PASS'', outcome_reasons = [], bundle_evaluator = str ''e'',
      scope_statement = str ''s'',
      bundle_events =
        [\<lparr>be_sequence = 1, be_event_id = str ''i'', be_event_type = str ''t'', be_previous_hash = str ''h'',
          be_payload_digest = str ''p'', be_source_time = str ''z''\<rparr>],
      producers = [\<lparr>entry_producer = str ''p'', entry_admitted = 1, entry_closed_at = Some 1,
                    source_record_digests = []\<rparr>],
      artifacts = [], reviews = [],
      completeness = \<lparr>canonical_chain_contiguous = True, all_required_producers_closed = True,
                      all_required_artifacts_present = True, completeness_reasons = []\<rparr>,
      comparison = PNone, redaction_notes = []\<rparr>"

definition sample_members :: archive_members where
  "sample_members =
     [(str ''bundle.json'', [1]), (str ''manifest.canonical.json'', [2]), (str ''attestation.json'', [3])]"

definition sample_loads :: "pyval \<Rightarrow> pyval \<Rightarrow> byte list \<Rightarrow> pyval option" where
  "sample_loads doc m bs = (if bs = [1] then Some doc else if bs = [2] then Some m else Some (PDict []))"

definition no_crypto :: "unit crypto" where
  "no_crypto = \<lparr>b64decode = \<lambda>_. None, load_key = \<lambda>_. None, ed25519_verify = \<lambda>_ _ _. False\<rparr>"

lemma digest_succeeds: "portable v \<Longrightarrow> \<exists>d. digest v = Inr d"
  by (simp add: digest_portable [symmetric] succeeds_iff)

lemma portable_fixed:
  "list_all scalar (trust_level_value l)" "list_all scalar (evidence_state_value st)"
  by (cases l; simp) (cases st; simp)

text \<open>A bundle whose texts are encodable and whose numbers are safe.\<close>

definition portable_bundle :: "evidence_bundle \<Rightarrow> bool" where
  "portable_bundle b \<longleftrightarrow>
     list_all (list_all scalar)
       ([schema_version b, canonicalization_version b, bundle_workspace b, bundle_run b,
         bundle_attempt b, bundle_manifest_digest b, bundle_outcome b, bundle_evaluator b] @
        completeness_reasons (completeness b) @ map review_id (reviews b)) \<and>
     list_all (\<lambda>kv. list_all scalar (fst kv) \<and> list_all scalar (snd kv)) (bundle_identities b) \<and>
     list_all (\<lambda>p. portable (producer_item p)) (producers b) \<and>
     list_all (\<lambda>a. portable (artifact_item a)) (artifacts b) \<and>
     list_all (\<lambda>e. portable (event_for_digest e)) (bundle_events b)"

lemma portable_manifest:
  assumes "portable_bundle b"
  shows "\<exists>m d. manifest b = Inr (PDict m) \<and> digest (PDict m) = Inr d"
proof -
  note P = assms [unfolded portable_bundle_def]
  have "portable (events_document b)"
    using P by (simp add: events_document_def list_all_iff)
  then obtain d where d: "digest (events_document b) = Inr d"
    using digest_succeeds by blast
  have ids: "portable (PDict (map (\<lambda>(k, v). (KText k, PStr v)) (sort_key fst (bundle_identities b))))"
    using P by (auto simp: list_all_iff)
  have lists: "portable (PList (map producer_item (sort_key entry_producer (producers b))))"
    "portable (PList (map artifact_item (sort_key (\<lambda>a. [artifact_kind a, content_digest a]) (artifacts b))))"
    "portable (texts (sort (map review_id (reviews b))))"
    "portable (completeness_item (completeness b))"
    using P by (simp_all add: list_all_iff texts_def completeness_item_def ball_Un)
  from P have heads: "list_all scalar (schema_version b)" "list_all scalar (canonicalization_version b)"
    "list_all scalar (bundle_workspace b)" "list_all scalar (bundle_run b)"
    "list_all scalar (bundle_attempt b)" "list_all scalar (bundle_manifest_digest b)"
    "list_all scalar (bundle_outcome b)" "list_all scalar (bundle_evaluator b)"
    by simp_all
  obtain m where m: "manifest b = Inr (PDict m)"
    using d by (simp add: manifest_def)
  have "portable (PDict m)"
    using m [unfolded manifest_def d bind_result.simps sum.inject pyval.inject, symmetric]
    by (simp only: portable.simps(1,4) ids [unfolded portable.simps(4)] list.pred_inject fst_conv snd_conv dict_key.case str_scalar lists
        heads digest_scalar [OF d] portable_fixed simp_thms)
  with m digest_succeeds show ?thesis by blast
qed

lemma sample_documents:
  "\<exists>m doc d. manifest sample_bundle = Inr (PDict m) \<and> bundle_document sample_bundle = Inr (PDict doc) \<and>
     digest (PDict m) = Inr d"
proof -
  have "list_all scalar (identity_value k)" for k by (cases k) simp_all
  then have "portable_bundle sample_bundle"
    by (simp add: portable_bundle_def sample_bundle_def BUNDLE_SCHEMA_VERSION_def
        CANONICALIZATION_VERSION_def producer_item_def optional_def event_for_digest_def
        MIN_SAFE_INTEGER_def MAX_SAFE_INTEGER_def list_all_iff)
  with portable_manifest show ?thesis by (fastforce simp: bundle_document_def)
qed

lemma sample_honest: "honest sample_bundle members"
proof -
  have "\<not> blank (str ''e'')"
    by (simp add: blank_def str_def py_space_def)
  then show ?thesis
    by (simp add: honest_def sample_bundle_def known_outcomes_def list_all_iff)
qed

lemma sample_parts:
  assumes "bundle_document sample_bundle = Inr (PDict doc)" and "manifest sample_bundle = Inr (PDict m)"
  shows "parts (sample_loads (PDict doc) (PDict m)) sample_members doc m [2] (PDict [])"
  using document_items(1) [OF assms(1)] assms(2)
  by (auto simp: parts_def sample_members_def sample_loads_def get_or_def)

lemma sample_verified:
  "\<exists>m doc report. manifest sample_bundle = Inr (PDict m) \<and>
     verify_members (sample_loads (PDict doc) (PDict m)) no_crypto None sample_members = Inr report \<and>
     integrity_intact report \<and> trust_level report = Some FULLY_VERIFIABLE"
proof -
  obtain m doc d where m: "manifest sample_bundle = Inr (PDict m)"
    and doc: "bundle_document sample_bundle = Inr (PDict doc)" and d: "digest (PDict m) = Inr d"
    using sample_documents by blast
  have "check_signature no_crypto [2] (PDict []) None =
      Inr (finds ''attestation.signature'' UNSUPPORTED, None, False)"
    by (simp add: check_signature_def)
  from honest_verifies [OF m doc sample_honest sample_parts [OF doc m] _ d this] m show ?thesis
    by (auto simp: sample_loads_def bundle_trust_level_def sample_bundle_def)
qed

section \<open>Properties\<close>


definition sample_infos :: "zip_info list" where
  "sample_infos =
     map (\<lambda>(n, bs). \<lparr>filename = n, file_size = 1, compress_size = 1, contents = bs\<rparr>) sample_members"

lemma sample_archive: "read_archive (\<lambda>_. False) 100 (Some sample_infos) = Inr sample_members"
proof -
  have "assert_member_name_safe (\<lambda>_. False) n = Inr ()" if "n \<in> set ALLOWED_MEMBERS" for n
    using that by (simp add: assert_member_name_safe_def Let_def)
  then have "assert_member_name_safe (\<lambda>_. False) (str ''bundle.json'') = Inr ()"
    "assert_member_name_safe (\<lambda>_. False) (str ''manifest.canonical.json'') = Inr ()"
    "assert_member_name_safe (\<lambda>_. False) (str ''attestation.json'') = Inr ()"
    by (simp_all add: ALLOWED_MEMBERS_def)
  moreover have "\<not> endswith_slash (str ''bundle.json'')" "\<not> endswith_slash (str ''manifest.canonical.json'')"
    "\<not> endswith_slash (str ''attestation.json'')"
    by (simp_all add: endswith_slash_def str_def)
  ultimately show ?thesis
    by (simp add: read_archive_def sample_infos_def sample_members_def MAX_ARCHIVE_BYTES_def
        MAX_MEMBERS_def MAX_MEMBER_BYTES_def MAX_COMPRESSION_RATIO_def)
qed




text \<open>
  The signed manifest pins the evidence down. Two archives that carry the same signed bytes and
  are both reported intact show the same events and the same outcome by the same evaluator, unless
  the manifests or the event documents of the two are a SHA-256 collision.
\<close>

theorem same_signature_same_evidence:
  assumes "verify_members loads c trust members = Inr r" and "integrity_intact r"
    and "parts loads members document m bs att"
    and "verify_members loads c' trust' members' = Inr r'" and "integrity_intact r'"
    and "parts loads members' document' m' bs att'"
    and "distinct (map fst m')" and "\<not> collides (PDict m) (PDict m')"
    and "\<not> collides (PDict [(key ''events'', get_or document ''events'' (PList []))])
                   (PDict [(key ''events'', get_or document' ''events'' (PList []))])"
  shows "norm (get_or document ''events'' (PList [])) = norm (get_or document' ''events'' (PList [])) \<and>
    item m ''outcome'' = item m' ''outcome'' \<and> item m ''evaluatorVersion'' = item m' ''evaluatorVersion''"
proof -
  have unique: "document1 = document2 \<and> m1 = m2 \<and> bs1 = bs2"
    if "parts loads ms document1 m1 bs1 att1" "parts loads ms document2 m2 bs2 att2"
    for ms document1 m1 bs1 att1 document2 m2 bs2 att2
    using that by (auto simp: parts_def)
  from intact_checks [OF assms(1,2)] unique [OF assms(3)] obtain f1 f2 where
    c: "check_manifest_matches_canonical_bytes loads m bs = Inr f1" "finding_outcome f1 \<noteq> FAILED"
      "check_event_chain document m = Inr f2" "finding_outcome f2 \<noteq> FAILED"
      "finding_outcome (check_outcome_present document m) \<noteq> FAILED"
    by blast
  from intact_checks [OF assms(4,5)] unique [OF assms(6)] obtain g1 g2 where
    c': "check_manifest_matches_canonical_bytes loads m' bs = Inr g1" "finding_outcome g1 \<noteq> FAILED"
      "check_event_chain document' m' = Inr g2" "finding_outcome g2 \<noteq> FAILED"
      "finding_outcome (check_outcome_present document' m') \<noteq> FAILED"
    by blast
  from signed_bytes_pass [OF c(1,2)] signed_bytes_pass [OF c'(1,2)] obtain d where
    "digest (PDict m) = Inr d" "digest (PDict m') = Inr d" by auto
  with digest_inject assms(8) have eq: "norm (PDict m) = norm (PDict m')" by blast
  have same: "norm v = norm w" if "item m n = v" "item m' n = w" "v \<noteq> PNone" "w \<noteq> PNone" for n v w
    using norm_item [OF eq assms(7) item_Some item_Some] that by blast
  from event_chain_passes [OF c(3,4)] obtain es e where es: "get_or document ''events'' (PList []) = PList es"
    "digest (PDict [(key ''events'', PList es)]) = Inr e" "item m ''eventChainDigest'' = PStr e" by blast
  from event_chain_passes [OF c'(3,4)] obtain fs e' where fs: "get_or document' ''events'' (PList []) = PList fs"
    "digest (PDict [(key ''events'', PList fs)]) = Inr e'" "item m' ''eventChainDigest'' = PStr e'" by blast
  have "e = e'" using same [OF es(3) fs(3)] by simp
  with es fs assms(9) have "norm (PDict [(key ''events'', PList es)]) = norm (PDict [(key ''events'', PList fs)])"
    using digest_inject by metis
  from norm_fields [OF this] have "norm (PList es) = norm (PList fs)" by simp
  moreover obtain t u where "item m ''outcome'' = PStr t" "item m ''evaluatorVersion'' = PStr u"
    using outcome_passes [OF c(5)] by blast
  moreover obtain t' u' where "item m' ''outcome'' = PStr t'" "item m' ''evaluatorVersion'' = PStr u'"
    using outcome_passes [OF c'(5)] by blast
  ultimately show ?thesis
    using same [of "''outcome''" "PStr t" "PStr t'"] same [of "''evaluatorVersion''" "PStr u" "PStr u'"]
    by (simp add: es(1) fs(1))
qed

lemma manifest_distinct: "manifest b = Inr (PDict m) \<Longrightarrow> distinct (map fst m)"
  by (auto simp: manifest_def bind_result_Inr)

lemma same_signature_same_evidence_witness:
  "\<exists>m. manifest sample_bundle = Inr (PDict m) \<and> item m ''outcome'' = lit ''PASS''"
proof -
  obtain m doc d where m: "manifest sample_bundle = Inr (PDict m)"
    and doc: "bundle_document sample_bundle = Inr (PDict doc)" and d: "digest (PDict m) = Inr d"
    using sample_documents by blast
  let ?l = "sample_loads (PDict doc) (PDict m)"
  have "check_signature no_crypto [2] (PDict []) None =
      Inr (finds ''attestation.signature'' UNSUPPORTED, None, False)"
    by (simp add: check_signature_def)
  from honest_verifies [OF m doc sample_honest sample_parts [OF doc m] _ d this] obtain r where
    r: "verify_members ?l no_crypto None sample_members = Inr r" "integrity_intact r"
    by (auto simp: sample_loads_def)
  have "\<not> collides v v" for v by (auto simp: collides_def)
  from same_signature_same_evidence [OF r sample_parts [OF doc m] r sample_parts [OF doc m]
      manifest_distinct [OF m] this this] m manifest_items(6) [OF m]
  show ?thesis by (auto simp: item_get sample_bundle_def)
qed

text \<open>
  C40: the issuer's name is not signed. Whoever edits the issuer field of an attestation changes whom
  a matching signature is attributed to, to any name, with the same independently supplied key and
  with the report still trusted; the issuer the reader's own trust root names plays no part.
\<close>

theorem attribution_is_unsigned:
  assumes "check_attestation c bs a t = Inr r" and "signature_matches r"
  shows "check_attestation c bs (a\<lparr>att_issuer := anyone\<rparr>) (t\<lparr>issuer := nobody\<rparr>) =
    Inr (r\<lparr>attributed_to := Some anyone\<rparr>)"
  using assms by (auto simp: check_attestation_def Let_def root_independently_trusted_def
      split: if_splits option.splits)

definition trusting_crypto :: "unit crypto" where
  "trusting_crypto =
     \<lparr>b64decode = \<lambda>_. Some [], load_key = \<lambda>_. Some (), ed25519_verify = \<lambda>_ _ _. True\<rparr>"

definition sample_attestation :: attestation where
  "sample_attestation =
     \<lparr>att_key_id = str ''k'', att_issuer = str ''service'', algorithm = str ''Ed25519'', signature_base64 = []\<rparr>"

definition sample_root :: trust_root where
  "sample_root = \<lparr>key_id = str ''k'', issuer = str ''service'', public_key_base64 = [],
                  root_provenance = EXTERNALLY_SUPPLIED\<rparr>"

lemma attribution_is_unsigned_witness:
  "\<exists>r. check_attestation trusting_crypto [] (sample_attestation\<lparr>att_issuer := str ''mallory''\<rparr>)
      (sample_root\<lparr>issuer := str ''service''\<rparr>) = Inr r \<and>
    attributed_to r = Some (str ''mallory'') \<and> check_independently_trusted r"
proof -
  have ok: "check_attestation trusting_crypto [] sample_attestation sample_root =
      Inr \<lparr>signature_matches = True, attributed_to = Some (str ''service''), check_key_id = str ''k'',
           check_independently_trusted = True\<rparr>"
    by (simp add: check_attestation_def sample_attestation_def sample_root_def trusting_crypto_def
        root_independently_trusted_def)
  from attribution_is_unsigned [OF ok] show ?thesis by simp
qed

end
