(* ===== verification/Moments.thy ===== *)
theory Moments
  imports Timestamps
begin

text \<open>
  Moments as the database stores them. A \<open>timestamptz\<close> is a number of microseconds; the calendar of
  \<open>datetime\<close> and that line correspond, so \<open>moment + timedelta(...)\<close> is an addition and the text a row
  is read back as is the calendar's. Days are counted from 1 January of year 1, as
  \<open>datetime.toordinal\<close> does.
\<close>

section \<open>From the calendar to the line\<close>

type_synonym timestamptz = int

definition days_before_year :: "nat \<Rightarrow> nat" where
  "days_before_year y = 365 * (y - 1) + (y - 1) div 4 - (y - 1) div 100 + (y - 1) div 400"

definition days_before_month :: "nat \<Rightarrow> nat \<Rightarrow> nat" where
  "days_before_month y m = sum_list (map (days_in_month y) [1..<m])"

definition day_number :: "nat \<Rightarrow> nat \<Rightarrow> nat \<Rightarrow> nat" where
  "day_number y m d = days_before_year y + days_before_month y m + (d - 1)"

definition of_instant :: "instant \<Rightarrow> timestamptz" where
  "of_instant i =
     int ((((day_number (year i) (month i) (day i) * 24 + hour i) * 60 + minute i) * 60 + second i)
          * 1000000 + microsecond i)"

definition seconds :: "int \<Rightarrow> timestamptz" where
  "seconds n = n * 1000000"

section \<open>And back\<close>

lemma days_in_month_bounds: "28 \<le> days_in_month y m" "days_in_month y m \<le> 31"
  by (auto simp: days_in_month_def)

definition year_length :: "nat \<Rightarrow> nat" where
  "year_length y = (if leap y then 366 else 365)"

lemma div_Suc_step: "0 < (k::nat) \<Longrightarrow> Suc n div k = n div k + (if k dvd Suc n then 1 else 0)"
  by (simp add: Suc_times_mod_eq div_Suc dvd_eq_mod_eq_0)

lemma days_before_year_step:
  assumes "1 \<le> y"
  shows "days_before_year (Suc y) = days_before_year y + year_length y"
proof -
  obtain n where y: "y = Suc n" using assms by (cases y) auto
  have nested: "400 dvd Suc n \<longrightarrow> 100 dvd Suc n" "100 dvd Suc n \<longrightarrow> 4 dvd Suc n"
    by (simp_all add: dvd_trans [of 100 400] dvd_trans [of 4 100])
  have "n div 100 \<le> n" by simp
  then have "365 * Suc n + (p + (if b4 then 1 else 0)) - (n div 100 + (if b100 then 1 else 0)) +
      (r + (if b400 then 1 else 0)) =
    365 * n + p - n div 100 + r + (365 + (if b4 then 1 else 0) - (if b100 then 1 else 0) +
      (if b400 then 1 else 0))"
    for p r b4 b100 b400 by auto
  moreover have "year_length y = 365 + (if 4 dvd Suc n then 1 else 0) -
      (if 100 dvd Suc n then 1 else 0) + (if 400 dvd Suc n then 1 else 0)"
    using nested unfolding y year_length_def leap_def dvd_eq_mod_eq_0 by auto
  ultimately show ?thesis
    unfolding y days_before_year_def by (simp only: diff_Suc_1 div_Suc_step zero_less_numeral)
qed

function year_from :: "nat \<Rightarrow> nat \<Rightarrow> nat" where
  "year_from y n =
     (if 1 \<le> y \<and> days_before_year (Suc y) \<le> n then year_from (Suc y) n else y)"
  by pat_completeness auto
termination
proof (relation "measure (\<lambda>(y, n). Suc n - days_before_year y)")
  fix y n :: nat
  assume "1 \<le> y \<and> days_before_year (Suc y) \<le> n"
  then show "((Suc y, n), (y, n)) \<in> measure (\<lambda>(y, n). Suc n - days_before_year y)"
    using days_before_year_step [of y] by (auto simp: year_length_def split: if_splits)
qed auto

declare year_from.simps [simp del]

text \<open>A year has at most 366 days, so the search starts at most a few years early.\<close>

definition year_of :: "nat \<Rightarrow> nat" where
  "year_of n = year_from (Suc (n div 366)) n"

function month_from :: "nat \<Rightarrow> nat \<Rightarrow> nat \<Rightarrow> nat \<times> nat" where
  "month_from y m d =
     (if days_in_month y m \<le> d then month_from y (Suc m) (d - days_in_month y m) else (m, Suc d))"
  by pat_completeness auto
termination
proof (relation "measure (\<lambda>(y, m, d). d)")
  fix y m d :: nat
  assume "days_in_month y m \<le> d"
  then show "((y, Suc m, d - days_in_month y m), (y, m, d)) \<in> measure (\<lambda>(y, m, d). d)"
    using days_in_month_bounds(1) [of y m] by auto
qed auto

declare month_from.simps [simp del]

definition to_instant :: "timestamptz \<Rightarrow> instant" where
  "to_instant t =
     (let n = nat t; us = n mod 1000000; secs = n div 1000000;
          s = secs mod 60; minutes = secs div 60; mi = minutes mod 60; hours = minutes div 60;
          h = hours mod 24; days = hours div 24;
          y = year_of days; (m, d) = month_from y 1 (days - days_before_year y)
      in Instant y m d h mi s us)"

text \<open>\<open>to_rfc3339_utc\<close> of a column, and a text of the domain as a moment.\<close>

definition written :: "timestamptz \<Rightarrow> pytext" where
  "written t = isoformat_utc (to_instant t)"

definition moment_of :: "pytext \<Rightarrow> (timestamp_error, timestamptz) result" where
  "moment_of s = bind_result (parse_rfc3339_utc s) (\<lambda>i. Inr (of_instant i))"

section \<open>The two agree\<close>

lemma year_from_spec:
  "1 \<le> y \<Longrightarrow> days_before_year y \<le> n \<Longrightarrow>
     1 \<le> year_from y n \<and> days_before_year (year_from y n) \<le> n \<and>
     n < days_before_year (Suc (year_from y n))"
  by (induction y n rule: year_from.induct) (subst (1 2 3) year_from.simps, auto)

lemma days_before_year_mono: "1 \<le> y \<Longrightarrow> y \<le> z \<Longrightarrow> days_before_year y \<le> days_before_year z"
proof (induction z)
  case (Suc z)
  then show ?case using days_before_year_step [of z] by (cases "y = Suc z") auto
qed simp

lemma year_unique:
  "1 \<le> y \<Longrightarrow> 1 \<le> z \<Longrightarrow> days_before_year y \<le> n \<Longrightarrow> n < days_before_year (Suc y) \<Longrightarrow>
   days_before_year z \<le> n \<Longrightarrow> n < days_before_year (Suc z) \<Longrightarrow> y = z"
  by (metis Suc_leI days_before_year_mono le_SucI leD le_less_trans le_trans nat_neq_iff)

lemma year_of_eq:
  assumes "1 \<le> y" and "days_before_year y \<le> n" and "n < days_before_year (Suc y)"
  shows "year_of n = y"
proof -
  have "days_before_year (Suc k) \<le> 366 * k" for k
    by (simp add: days_before_year_def)
  then have "days_before_year (Suc (n div 366)) \<le> n"
    by (rule le_trans) simp
  from year_from_spec [OF _ this] show ?thesis
    using assms unfolding year_of_def by (intro year_unique [of _ y n]) auto
qed

lemma month_from_sum:
  "m \<le> m' \<Longrightarrow> e < days_in_month y m' \<Longrightarrow>
   month_from y m (sum_list (map (days_in_month y) [m..<m']) + e) = (m', Suc e)"
proof (induction "m' - m" arbitrary: m)
  case 0
  then show ?case by (subst month_from.simps) auto
next
  case (Suc k)
  then have "[m..<m'] = m # [Suc m..<m']" by (simp add: upt_conv_Cons)
  with Suc show ?case by (subst month_from.simps) auto
qed

lemma month_days:
  assumes "1 \<le> m" and "m \<le> 12"
  shows "days_before_month y m + days_in_month y m \<le> year_length y"
proof -
  have year: "days_before_month y 12 + days_in_month y 12 = year_length y"
    by (simp add: days_before_month_def upt_conv_Cons days_in_month_def year_length_def)
  have "[1..<12] = [1..<m] @ [m..<12]"
    using assms upt_add_eq_append [of 1 m "12 - m"] by simp
  then have rest: "days_before_month y 12 = days_before_month y m + sum_list (map (days_in_month y) [m..<12])"
    unfolding days_before_month_def by (metis map_append sum_list_append)
  show ?thesis
  proof (cases "m = 12")
    case False
    then have "days_in_month y m \<le> sum_list (map (days_in_month y) [m..<12])"
      using assms by (simp add: upt_conv_Cons)
    with year rest show ?thesis by linarith
  qed (use year in simp)
qed

lemma day_number_bounds:
  assumes "valid_instant i"
  shows "days_before_year (year i) \<le> day_number (year i) (month i) (day i)"
    and "day_number (year i) (month i) (day i) < days_before_year (Suc (year i))"
  using assms month_days [of "month i" "year i"] days_before_year_step [of "year i"]
  by (auto simp: day_number_def valid_instant_def)

text \<open>The digits of a number written with place values, and the order of such numbers.\<close>

lemma digit_split:
  fixes x k r :: nat
  assumes "r < k"
  shows "(x * k + r) div k = x" and "(x * k + r) mod k = r"
  using assms by auto

lemma digit_less:
  fixes x k r y q :: nat
  assumes "r < k" and "q < k"
  shows "x * k + r < y * k + q \<longleftrightarrow> x < y \<or> x = y \<and> r < q"
proof (cases "x < y")
  case True
  then have "Suc x * k \<le> y * k" by (intro mult_le_mono1) auto
  with assms True show ?thesis by auto
next
  case False
  show ?thesis
  proof (cases "x = y")
    case False
    with \<open>\<not> x < y\<close> have "Suc y * k \<le> x * k" by (intro mult_le_mono1) auto
    with assms \<open>\<not> x < y\<close> False show ?thesis by auto
  qed simp
qed

lemma valid_digits:
  "valid_instant i \<Longrightarrow> hour i < 24" "valid_instant i \<Longrightarrow> minute i < 60"
  "valid_instant i \<Longrightarrow> second i < 60" "valid_instant i \<Longrightarrow> microsecond i < 1000000"
  by (auto simp: valid_instant_def)

lemma to_instant_of_instant:
  assumes "valid_instant i"
  shows "to_instant (of_instant i) = i"
proof -
  let ?n = "day_number (year i) (month i) (day i)"
  have y: "year_of ?n = year i"
    using day_number_bounds [OF assms] assms by (intro year_of_eq) (auto simp: valid_instant_def)
  have "?n - days_before_year (year i) =
      sum_list (map (days_in_month (year i)) [1..<month i]) + (day i - 1)"
    by (simp add: day_number_def days_before_month_def)
  then have md: "month_from (year i) 1 (?n - days_before_year (year i)) = (month i, day i)"
    using assms month_from_sum [of 1 "month i" "day i - 1" "year i"] by (auto simp: valid_instant_def)
  show ?thesis
    unfolding to_instant_def of_instant_def nat_int Let_def
    by (simp only: digit_split [OF valid_digits(1) [OF assms]] digit_split [OF valid_digits(2) [OF assms]]
      digit_split [OF valid_digits(3) [OF assms]] digit_split [OF valid_digits(4) [OF assms]]
      y md prod.case instant.collapse)
qed

lemma of_instant_mono:
  assumes "valid_instant i" and "valid_instant j" and "i < j"
  shows "of_instant i < of_instant j"
proof -
  have day: "day_number (year i) (month i) (day i) < day_number (year j) (month j) (day j)"
    if "year i < year j \<or> year i = year j \<and> (month i < month j \<or> month i = month j \<and> day i < day j)"
  proof (cases "year i < year j")
    case True
    then have "days_before_year (Suc (year i)) \<le> days_before_year (year j)"
      by (intro days_before_year_mono) auto
    with day_number_bounds [OF assms(1)] day_number_bounds [OF assms(2)] show ?thesis by linarith
  next
    case False
    with that have eq: "year i = year j" and
      less: "month i < month j \<or> month i = month j \<and> day i < day j" by auto
    have "days_before_month (year j) (month i) + days_in_month (year j) (month i) \<le>
        days_before_month (year j) (month j)" if "month i < month j"
    proof -
      have "[1..<month j] = [1..<month i] @ month i # [Suc (month i)..<month j]"
        using that assms(1) upt_add_eq_append [of 1 "month i" "month j - month i"]
        by (auto simp: valid_instant_def upt_conv_Cons)
      then show ?thesis by (simp add: days_before_month_def)
    qed
    with less eq assms show ?thesis
      by (auto simp: day_number_def valid_instant_def)
  qed
  note lt = digit_less [OF valid_digits(1) [OF assms(1)] valid_digits(1) [OF assms(2)]]
    digit_less [OF valid_digits(2) [OF assms(1)] valid_digits(2) [OF assms(2)]]
    digit_less [OF valid_digits(3) [OF assms(1)] valid_digits(3) [OF assms(2)]]
    digit_less [OF valid_digits(4) [OF assms(1)] valid_digits(4) [OF assms(2)]]
  from assms(3) consider (date) "year i < year j \<or> year i = year j \<and>
      (month i < month j \<or> month i = month j \<and> day i < day j)"
    | (time) "year i = year j" "month i = month j" "day i = day j"
      "hour i < hour j \<or> hour i = hour j \<and> (minute i < minute j \<or> minute i = minute j \<and>
        (second i < second j \<or> second i = second j \<and> microsecond i < microsecond j))"
    by (auto simp: less_instant_def instant_fields_def)
  then show ?thesis
  proof cases
    case date
    from day [OF this] show ?thesis
      unfolding of_instant_def of_nat_less_iff lt by blast
  next
    case time
    then show ?thesis
      unfolding of_instant_def of_nat_less_iff lt by auto
  qed
qed

end
