(* ===== verification/Tables.thy ===== *)
theory Tables
  imports Moments
begin

text \<open>
  Rows of a table are a list in insertion order; a statement that changes the rows a condition selects
  is \<open>update_where\<close>, a lookup by primary key is \<open>row\<close>. A call of the persistence package runs in one
  transaction: when it raises, the caller's transaction is rolled back, unless said otherwise.
\<close>

definition update_where :: "('r \<Rightarrow> bool) \<Rightarrow> ('r \<Rightarrow> 'r) \<Rightarrow> 'r list \<Rightarrow> 'r list" where
  "update_where P f rows = map (\<lambda>r. if P r then f r else r) rows"

definition row :: "('r \<Rightarrow> 'k) \<Rightarrow> 'k \<Rightarrow> 'r list \<Rightarrow> 'r option" where
  "row key k rows = List.find (\<lambda>r. key r = k) rows"

definition has_row :: "('r \<Rightarrow> bool) \<Rightarrow> 'r list \<Rightarrow> bool" where
  "has_row P rows \<longleftrightarrow> list_ex P rows"

lemma row_Nil [simp]: "row key k [] = None"
  by (simp add: row_def)

lemma row_append [simp]:
  "row key k (xs @ ys) = (case row key k xs of None \<Rightarrow> row key k ys | Some r \<Rightarrow> Some r)"
  by (induction xs) (auto simp: row_def)

lemma row_single [simp]: "row key k [r] = (if key r = k then Some r else None)"
  by (simp add: row_def)

lemma row_SomeD: "row key k rows = Some r \<Longrightarrow> r \<in> set rows \<and> key r = k"
  by (auto simp: row_def find_Some_iff)

lemma row_None_iff: "row key k rows = None \<longleftrightarrow> k \<notin> key ` set rows"
  by (auto simp: row_def find_None_iff)

lemma row_distinct:
  "distinct (map key rows) \<Longrightarrow> row key k rows = Some r \<longleftrightarrow> r \<in> set rows \<and> key r = k"
  by (induction rows) (auto simp: row_def rev_image_eqI)

lemma map_key_update:
  "(\<And>r. key (f r) = key r) \<Longrightarrow> map key (update_where P f rows) = map key rows"
  by (simp add: update_where_def)

lemma row_update:
  assumes "\<And>r. key (f r) = key r"
  shows "row key k (update_where P f rows) =
    map_option (\<lambda>r. if P r then f r else r) (row key k rows)"
  by (induction rows) (auto simp: row_def update_where_def assms)

lemma in_update_where:
  "r \<in> set (update_where P f rows) \<longleftrightarrow> (\<exists>q \<in> set rows. r = (if P q then f q else q))"
  by (auto simp: update_where_def)

lemma update_where_iff:
  "r \<in> set (update_where P f rows) \<longleftrightarrow> (\<exists>q \<in> set rows. P q \<and> r = f q) \<or> r \<in> set rows \<and> \<not> P r"
  by (auto simp: update_where_def)

lemma update_where_Nil [simp]: "update_where P f [] = []"
  by (simp add: update_where_def)

lemma update_where_Cons [simp]:
  "update_where P f (r # rows) = (if P r then f r else r) # update_where P f rows"
  by (simp add: update_where_def)

lemma update_where_append [simp]:
  "update_where P f (xs @ ys) = update_where P f xs @ update_where P f ys"
  by (simp add: update_where_def)

lemma length_update_where [simp]: "length (update_where P f rows) = length rows"
  by (simp add: update_where_def)

end
