(* ===== verification/Operations.thy ===== *)
theory Operations
  imports Tables Payload
begin

text \<open>
  Idempotency reservations (\<open>persistence/idempotency.py\<close>): one row per principal, workspace, route and
  key. \<open>INSERT ... ON CONFLICT DO NOTHING\<close> and the unique constraint it names make one atomic decision;
  the fresh \<open>uuid4\<close> is an argument, and a fresh identifier that is already taken violates the primary key.
\<close>

section \<open>Table and operations\<close>

definition IDEMPOTENCY_RETENTION :: timestamptz where
  "IDEMPOTENCY_RETENTION = seconds (24 * 60 * 60)"

datatype operation_status = ACCEPTED | COMPLETED | FAILED

type_synonym request_key = "pytext \<times> pytext \<times> pytext \<times> pytext"

record operation =
  op_id :: pytext
  op_key :: request_key
  op_request_digest :: pytext
  op_status :: operation_status
  op_result :: "pyval option"
  op_created :: timestamptz
  op_completed :: "timestamptz option"
  op_expires :: timestamptz

record reservation =
  operation_id :: pytext
  is_replay :: bool
  reservation_status :: operation_status
  reservation_result :: "pyval option"

datatype idempotency_error = IdempotencyConflict | IdentifierTaken

definition reserve ::
  "pytext \<Rightarrow> request_key \<Rightarrow> pytext \<Rightarrow> timestamptz \<Rightarrow> operation list \<Rightarrow>
     (idempotency_error, operation list \<times> reservation) result" where
  "reserve fresh k dig now ops =
     (case row op_key k ops of
        None \<Rightarrow>
          if row op_id fresh ops \<noteq> None then Inl IdentifierTaken
          else Inr (ops @ [\<lparr>op_id = fresh, op_key = k, op_request_digest = dig, op_status = ACCEPTED,
                 op_result = None, op_created = now, op_completed = None,
                 op_expires = now + IDEMPOTENCY_RETENTION\<rparr>],
               \<lparr>operation_id = fresh, is_replay = False, reservation_status = ACCEPTED,
                reservation_result = None\<rparr>)
      | Some existing \<Rightarrow>
          if op_request_digest existing \<noteq> dig then Inl IdempotencyConflict
          else Inr (ops, \<lparr>operation_id = op_id existing, is_replay = True,
                 reservation_status = op_status existing, reservation_result = op_result existing\<rparr>))"

definition settle ::
  "operation_status \<Rightarrow> pytext \<Rightarrow> pyval \<Rightarrow> timestamptz \<Rightarrow> operation list \<Rightarrow> operation list" where
  "settle st i r now ops =
     update_where (\<lambda>q. op_id q = i \<and> op_status q = ACCEPTED)
       (\<lambda>q. q\<lparr>op_status := st, op_result := Some r, op_completed := Some now\<rparr>) ops"

definition complete_operation :: "pytext \<Rightarrow> pyval \<Rightarrow> timestamptz \<Rightarrow> operation list \<Rightarrow> operation list" where
  "complete_operation i r now ops = settle COMPLETED i r now ops"

definition fail_operation :: "pytext \<Rightarrow> pytext \<Rightarrow> timestamptz \<Rightarrow> operation list \<Rightarrow> operation list" where
  "fail_operation i reason now ops = settle FAILED i (PDict [(key ''error'', PStr reason)]) now ops"

definition purge_expired :: "timestamptz \<Rightarrow> operation list \<Rightarrow> operation list \<times> nat" where
  "purge_expired now ops =
     (filter (\<lambda>q. \<not> op_expires q \<le> now) ops, length (filter (\<lambda>q. op_expires q \<le> now) ops))"

section \<open>Histories\<close>

inductive operations_step ::
  "timestamptz \<times> operation list \<Rightarrow> timestamptz \<times> operation list \<Rightarrow> bool" where
  waited: "t \<le> t' \<Longrightarrow> operations_step (t, ops) (t', ops)"
| reserved: "reserve fresh k dig t ops = Inr (ops', r) \<Longrightarrow> operations_step (t, ops) (t, ops')"
| completed: "operations_step (t, ops) (t, complete_operation i v t ops)"
| failed: "operations_step (t, ops) (t, fail_operation i reason t ops)"
| purged: "operations_step (t, ops) (t, fst (purge_expired t ops))"

definition no_operations :: "timestamptz \<times> operation list \<Rightarrow> bool" where
  "no_operations s \<longleftrightarrow> snd s = []"

text \<open>
  The row of a request is there until its retention ends; its identifier and digest stay, and once it
  is settled its result does.
\<close>

definition kept :: "operation \<Rightarrow> operation list \<Rightarrow> bool" where
  "kept q ops \<longleftrightarrow> (\<exists>q'. row op_key (op_key q) ops = Some q' \<and> op_id q' = op_id q \<and>
     op_request_digest q' = op_request_digest q \<and> op_expires q' = op_expires q \<and>
     (op_status q \<noteq> ACCEPTED \<longrightarrow> op_status q' = op_status q \<and> op_result q' = op_result q))"

lemma row_filter:
  "row f k rows = Some r \<Longrightarrow> P r \<Longrightarrow> row f k (filter P rows) = Some r"
  by (induction rows) (auto simp: row_def split: if_splits)

lemma row_settle:
  "row op_key k (settle st i v t ops) = map_option (\<lambda>q. if op_id q = i \<and> op_status q = ACCEPTED
     then q\<lparr>op_status := st, op_result := Some v, op_completed := Some t\<rparr> else q) (row op_key k ops)"
  unfolding settle_def by (rule row_update) simp

lemma kept_settle:
  assumes "kept q ops"
  shows "kept q (settle st i v t ops)"
proof -
  from assms obtain q' where q': "row op_key (op_key q) ops = Some q'" "op_id q' = op_id q"
    "op_request_digest q' = op_request_digest q" "op_expires q' = op_expires q"
    "op_status q \<noteq> ACCEPTED \<longrightarrow> op_status q' = op_status q \<and> op_result q' = op_result q"
    by (auto simp: kept_def)
  then show ?thesis
    unfolding kept_def row_settle by (cases "op_id q' = i \<and> op_status q' = ACCEPTED") auto
qed

lemma kept_step:
  assumes "operations_step s s'" and "kept q (snd s)" and "fst s < op_expires q"
  shows "kept q (snd s')"
  using assms
proof cases
  case (reserved fresh k dig t ops ops' r)
  then have "ops' = ops \<or> (\<exists>z. ops' = ops @ [z])"
    by (auto simp: reserve_def split: option.splits if_splits)
  with reserved assms(2) show ?thesis by (auto simp: kept_def)
next
  case (purged t ops)
  with assms(2) obtain q' where q': "row op_key (op_key q) ops = Some q'" "op_expires q' = op_expires q"
    "op_id q' = op_id q" "op_request_digest q' = op_request_digest q"
    "op_status q \<noteq> ACCEPTED \<longrightarrow> op_status q' = op_status q \<and> op_result q' = op_result q"
    by (auto simp: kept_def)
  have "row op_key (op_key q) (filter (\<lambda>q. \<not> op_expires q \<le> t) ops) = Some q'"
    by (rule row_filter [OF q'(1)]) (use purged assms(3) q'(2) in simp)
  with q' show ?thesis
    unfolding kept_def purged purge_expired_def by (intro exI [of _ q']) simp
qed (auto simp: complete_operation_def fail_operation_def kept_settle)

lemma operations_time: "operations_step s s' \<Longrightarrow> fst s \<le> fst s'"
  by (cases rule: operations_step.cases) auto

lemma kept_run:
  "operations_step\<^sup>*\<^sup>* s s' \<Longrightarrow> kept q (snd s) \<Longrightarrow> fst s' < op_expires q \<Longrightarrow> kept q (snd s')"
proof (induction rule: rtranclp_induct)
  case (step u v)
  then show ?case
    using operations_time [OF step(2)] kept_step [OF step(2)] by (meson order_le_less_trans)
qed

lemma kept_refl: "row op_key (op_key q) ops = Some q \<Longrightarrow> kept q ops"
  by (simp add: kept_def)

text \<open>
  C22: a retried request is one operation. For the 24 hours after a key was first reserved, whoever
  repeats the request, and whatever else is reserved, settled or purged in between, is told the same
  operation and does not create another; the same key with another body is a conflict; and a result
  once told is told again.
\<close>

theorem retries_reach_one_operation:
  assumes "reserve fresh k dig t ops = Inr (ops1, r)" and "\<not> is_replay r"
    and "operations_step\<^sup>*\<^sup>* (t, ops1) (t', ops')" and "t' < t + IDEMPOTENCY_RETENTION"
  shows "(\<forall>fresh' dig'. dig' \<noteq> dig \<longrightarrow> reserve fresh' k dig' t' ops' = Inl IdempotencyConflict) \<and>
    (\<exists>r'. is_replay r' \<and> operation_id r' = operation_id r \<and>
       (\<forall>fresh'. reserve fresh' k dig t' ops' = Inr (ops', r')) \<and>
       (reservation_status r' \<noteq> ACCEPTED \<longrightarrow>
          (\<forall>t'' ops'' fresh''. operations_step\<^sup>*\<^sup>* (t', ops') (t'', ops'') \<and>
             t'' < t + IDEMPOTENCY_RETENTION \<longrightarrow> reserve fresh'' k dig t'' ops'' = Inr (ops'', r'))))"
proof -
  from assms(1,2) obtain q where q: "row op_key k ops1 = Some q" "op_key q = k" "op_id q = operation_id r"
    "op_request_digest q = dig" "op_expires q = t + IDEMPOTENCY_RETENTION"
    by (auto simp: reserve_def split: option.splits if_splits)
  then have "kept q ops1" by (simp add: kept_refl)
  with kept_run [OF assms(3)] assms(4) q(5) have "kept q ops'" by simp
  then obtain q' where q': "row op_key k ops' = Some q'" "op_id q' = op_id q" "op_request_digest q' = dig"
    "op_expires q' = t + IDEMPOTENCY_RETENTION"
    using q by (auto simp: kept_def)
  have "op_key q' = k" using row_SomeD [OF q'(1)] by simp
  let ?r = "\<lparr>operation_id = op_id q', is_replay = True, reservation_status = op_status q',
    reservation_result = op_result q'\<rparr>"
  have again: "reserve fresh'' k dig t'' ops'' = Inr (ops'', ?r)"
    if "operations_step\<^sup>*\<^sup>* (t', ops') (t'', ops'')" "t'' < t + IDEMPOTENCY_RETENTION"
      "op_status q' \<noteq> ACCEPTED" for t'' ops'' fresh''
  proof -
    have "kept q' ops'" using q'(1) \<open>op_key q' = k\<close> by (simp add: kept_refl)
    with kept_run [OF that(1)] that(2) q'(4) have "kept q' ops''" by simp
    with that(3) q'(3) \<open>op_key q' = k\<close> show ?thesis by (auto simp: kept_def reserve_def)
  qed
  show ?thesis
    using q q' again by (intro conjI exI [of _ ?r]) (auto simp: reserve_def)
qed


definition sample_operations :: "operation list" where
  "sample_operations =
     [\<lparr>op_id = str ''op1'', op_key = ([], [], [], str ''key''), op_request_digest = str ''d'',
       op_status = ACCEPTED, op_result = None, op_created = 0, op_completed = None,
       op_expires = IDEMPOTENCY_RETENTION\<rparr>]"

lemma retries_reach_one_operation_witness:
  "reserve (str ''op2'') ([], [], [], str ''key'') (str ''other'') (seconds 60)
     (fst (purge_expired (seconds 60) sample_operations)) = Inl IdempotencyConflict"
proof -
  let ?k = "([], [], [], str ''key'')"
  have r: "reserve (str ''op1'') ?k (str ''d'') 0 [] = Inr (sample_operations,
      \<lparr>operation_id = str ''op1'', is_replay = False, reservation_status = ACCEPTED, reservation_result = None\<rparr>)"
    by (simp add: reserve_def sample_operations_def)
  have "operations_step\<^sup>*\<^sup>* (0, sample_operations) (seconds 60, fst (purge_expired (seconds 60) sample_operations))"
  proof (rule rtranclp.rtrancl_into_rtrancl)
    show "operations_step\<^sup>*\<^sup>* (0, sample_operations) (seconds 60, sample_operations)"
      by (rule r_into_rtranclp, rule waited) (simp add: seconds_def)
  qed (rule purged)
  from retries_reach_one_operation [OF r _ this] show ?thesis
    by (simp add: IDEMPOTENCY_RETENTION_def seconds_def)
qed

end
