(* ===== verification/Outbox.thy ===== *)
theory Outbox
  imports Tables Payload
begin

text \<open>
  The transactional outbox and the durable jobs (\<open>persistence/outbox.py\<close>). \<open>SKIP LOCKED\<close> leaves out the
  rows another transaction holds, which is the parameter \<open>locked\<close>; \<open>BIGSERIAL\<close> is a counter; the
  identifier of a job and the moment of an insertion, which the database supplies, are arguments.
\<close>

section \<open>Tables\<close>

definition CLAIM_LEASE :: timestamptz where
  "CLAIM_LEASE = seconds (5 * 60)"

definition MAX_JOB_ATTEMPTS :: int where
  "MAX_JOB_ATTEMPTS = 5"

datatype job_status = PENDING | CLAIMED | SUCCEEDED | FAILED | ABANDONED

record outbox_message =
  message_id :: int
  message_workspace :: pytext
  message_operation :: pytext
  topic :: pytext
  reference :: pyval
  message_created :: timestamptz
  message_claimed_at :: "timestamptz option"
  message_claimed_by :: "pytext option"
  message_claim_expires :: "timestamptz option"
  published_at :: "timestamptz option"
  message_attempts :: int

record job =
  job_id :: pytext
  job_workspace :: pytext
  job_operation :: pytext
  job_kind :: pytext
  job_reference :: pyval
  job_status :: job_status
  job_attempts :: int
  job_claimed_by :: "pytext option"
  job_claim_expires :: "timestamptz option"
  job_created :: timestamptz
  job_updated :: timestamptz
  last_error :: "pytext option"

record queue_db =
  messages :: "outbox_message list"
  next_message :: int
  jobs :: "job list"

datatype queue_error = NotAFinishedState | NoSuchJob

section \<open>Messages\<close>

definition enqueue_message ::
  "pytext \<Rightarrow> pytext \<Rightarrow> pytext \<Rightarrow> pyval \<Rightarrow> timestamptz \<Rightarrow> queue_db \<Rightarrow> queue_db \<times> int" where
  "enqueue_message w op subject ref now db =
     (db\<lparr>messages := messages db @
           [\<lparr>message_id = next_message db, message_workspace = w, message_operation = op, topic = subject,
             reference = ref, message_created = now, message_claimed_at = None,
             message_claimed_by = None, message_claim_expires = None, published_at = None,
             message_attempts = 0\<rparr>],
         next_message := next_message db + 1\<rparr>, next_message db)"

definition claimable :: "timestamptz \<Rightarrow> int list \<Rightarrow> outbox_message \<Rightarrow> bool" where
  "claimable now excluded m \<longleftrightarrow>
     published_at m = None \<and> message_id m \<notin> set excluded \<and>
     (case message_claim_expires m of None \<Rightarrow> True | Some e \<Rightarrow> e \<le> now)"

definition claim_message :: "pytext \<Rightarrow> timestamptz \<Rightarrow> outbox_message \<Rightarrow> outbox_message" where
  "claim_message worker now m =
     m\<lparr>message_claimed_at := Some now, message_claimed_by := Some worker,
       message_claim_expires := Some (now + CLAIM_LEASE), message_attempts := message_attempts m + 1\<rparr>"

text \<open>\<open>ORDER BY created_at LIMIT n FOR UPDATE SKIP LOCKED\<close>\<close>

definition claimed_ids :: "int set \<Rightarrow> nat \<Rightarrow> timestamptz \<Rightarrow> int list \<Rightarrow> queue_db \<Rightarrow> int set" where
  "claimed_ids locked limit now excluded db =
     message_id ` set (take limit (sort_key message_created
       (filter (\<lambda>m. claimable now excluded m \<and> message_id m \<notin> locked) (messages db))))"

definition claim_messages ::
  "int set \<Rightarrow> pytext \<Rightarrow> nat \<Rightarrow> timestamptz \<Rightarrow> int list \<Rightarrow> queue_db \<Rightarrow> queue_db \<times> outbox_message list"
where
  "claim_messages locked worker limit now excluded db =
     (let ids = claimed_ids locked limit now excluded db;
          rows = update_where (\<lambda>m. message_id m \<in> ids) (claim_message worker now) (messages db)
      in (db\<lparr>messages := rows\<rparr>, filter (\<lambda>m. message_id m \<in> ids) rows))"

definition mark_published :: "int \<Rightarrow> timestamptz \<Rightarrow> queue_db \<Rightarrow> queue_db" where
  "mark_published i now db =
     db\<lparr>messages := update_where (\<lambda>m. message_id m = i)
          (\<lambda>m. m\<lparr>published_at := Some now, message_claim_expires := None\<rparr>) (messages db)\<rparr>"

definition unpublished_count :: "queue_db \<Rightarrow> nat" where
  "unpublished_count db = length (filter (\<lambda>m. published_at m = None) (messages db))"

section \<open>Jobs\<close>

definition enqueue_job ::
  "pytext \<Rightarrow> pytext \<Rightarrow> pytext \<Rightarrow> pytext \<Rightarrow> pyval \<Rightarrow> timestamptz \<Rightarrow> queue_db \<Rightarrow> queue_db" where
  "enqueue_job fresh w op kind ref now db =
     db\<lparr>jobs := jobs db @
          [\<lparr>job_id = fresh, job_workspace = w, job_operation = op, job_kind = kind,
            job_reference = ref, job_status = PENDING, job_attempts = 0, job_claimed_by = None,
            job_claim_expires = None, job_created = now, job_updated = now, last_error = None\<rparr>]\<rparr>"

definition job_claimable :: "timestamptz \<Rightarrow> job \<Rightarrow> bool" where
  "job_claimable now j \<longleftrightarrow>
     job_status j = PENDING \<or>
     job_status j = CLAIMED \<and> (case job_claim_expires j of None \<Rightarrow> False | Some e \<Rightarrow> e \<le> now)"

definition claim_job :: "pytext \<Rightarrow> timestamptz \<Rightarrow> job \<Rightarrow> job" where
  "claim_job worker now j =
     j\<lparr>job_status := CLAIMED, job_claimed_by := Some worker,
       job_claim_expires := Some (now + CLAIM_LEASE), job_attempts := job_attempts j + 1,
       job_updated := now\<rparr>"

definition claim_jobs ::
  "pytext set \<Rightarrow> pytext \<Rightarrow> nat \<Rightarrow> timestamptz \<Rightarrow> queue_db \<Rightarrow> queue_db \<times> job list" where
  "claim_jobs locked worker limit now db =
     (let ids = job_id ` set (take limit (sort_key job_created
                  (filter (\<lambda>j. job_claimable now j \<and> job_id j \<notin> locked) (jobs db))));
          rows = update_where (\<lambda>j. job_id j \<in> ids) (claim_job worker now) (jobs db)
      in (db\<lparr>jobs := rows\<rparr>, filter (\<lambda>j. job_id j \<in> ids) rows))"

definition finish_job ::
  "pytext \<Rightarrow> job_status \<Rightarrow> pytext option \<Rightarrow> timestamptz \<Rightarrow> queue_db \<Rightarrow> (queue_error, queue_db) result"
where
  "finish_job i st err now db =
     (if st \<in> {PENDING, CLAIMED} then Inl NotAFinishedState
      else Inr (db\<lparr>jobs := update_where (\<lambda>j. job_id j = i)
             (\<lambda>j. j\<lparr>job_status := st, last_error := err, job_claim_expires := None,
                    job_updated := now\<rparr>) (jobs db)\<rparr>))"

definition release_job ::
  "pytext \<Rightarrow> pytext option \<Rightarrow> timestamptz \<Rightarrow> queue_db \<Rightarrow> (queue_error, queue_db \<times> job_status) result"
where
  "release_job i err now db =
     (case row job_id i (jobs db) of
        None \<Rightarrow> Inl NoSuchJob
      | Some j \<Rightarrow>
          if job_attempts j \<ge> MAX_JOB_ATTEMPTS
          then bind_result (finish_job i ABANDONED err now db) (\<lambda>db'. Inr (db', ABANDONED))
          else Inr (db\<lparr>jobs := update_where (\<lambda>j. job_id j = i)
                 (\<lambda>j. j\<lparr>job_status := PENDING, job_claimed_by := None, job_claim_expires := None,
                        last_error := err, job_updated := now\<rparr>) (jobs db)\<rparr>, PENDING))"

section \<open>Steps of a queue under one clock\<close>

inductive queue_step :: "timestamptz \<times> queue_db \<Rightarrow> timestamptz \<times> queue_db \<Rightarrow> bool" where
  waited: "t \<le> t' \<Longrightarrow> queue_step (t, db) (t', db)"
| enqueued: "queue_step (t, db) (t, fst (enqueue_message w op subject ref t db))"
| claimed: "queue_step (t, db) (t, fst (claim_messages locked worker limit t excluded db))"
| published: "queue_step (t, db) (t, mark_published i t db)"
| job_enqueued: "queue_step (t, db) (t, enqueue_job fresh w op kind ref t db)"
| jobs_claimed: "queue_step (t, db) (t, fst (claim_jobs locked worker limit t db))"
| job_finished: "finish_job i st err t db = Inr db' \<Longrightarrow> queue_step (t, db) (t, db')"
| job_released: "release_job i err t db = Inr (db', st) \<Longrightarrow> queue_step (t, db) (t, db')"

definition empty_queue :: "timestamptz \<times> queue_db \<Rightarrow> bool" where
  "empty_queue s \<longleftrightarrow> snd s = \<lparr>messages = [], next_message = 1, jobs = []\<rparr>"

text \<open>What happens to a message: it stays, it is claimed when it may be, or it is published.\<close>

definition message_moves :: "timestamptz \<Rightarrow> outbox_message \<Rightarrow> outbox_message \<Rightarrow> bool" where
  "message_moves t m m' \<longleftrightarrow>
     m' = m \<or> (\<exists>w. claimable t [] m \<and> m' = claim_message w t m) \<or>
     (\<exists>now. m' = m\<lparr>published_at := Some now, message_claim_expires := None\<rparr>)"

lemma claimed_idsD:
  assumes "i \<in> claimed_ids locked limit t excluded db"
  shows "\<exists>q \<in> set (messages db). message_id q = i \<and> claimable t excluded q \<and> i \<notin> locked"
  using assms by (auto simp: claimed_ids_def dest!: in_set_takeD)

lemma claimed_claimable:
  assumes "distinct (map message_id (messages db))" and "m \<in> set (messages db)"
    and "message_id m \<in> claimed_ids locked limit t excluded db"
  shows "claimable t excluded m"
  using claimed_idsD [OF assms(3)] assms(1,2) by (auto simp: distinct_map inj_on_def)

lemma messages_claim:
  "messages (fst (claim_messages locked w limit t excluded db)) =
     update_where (\<lambda>m. message_id m \<in> claimed_ids locked limit t excluded db) (claim_message w t) (messages db)"
  by (simp add: claim_messages_def Let_def)

lemma next_claim [simp]:
  "next_message (fst (claim_messages locked w limit t excluded db)) = next_message db"
  by (simp add: claim_messages_def Let_def)

lemma claim_message_id [simp]: "message_id (claim_message w t m) = message_id m"
  by (simp add: claim_message_def)

lemma in_claim:
  "m \<in> set (snd (claim_messages locked w limit t excluded db)) \<longleftrightarrow>
     (\<exists>q \<in> set (messages db). message_id q \<in> claimed_ids locked limit t excluded db \<and> m = claim_message w t q)"
  by (auto simp: claim_messages_def Let_def in_update_where)

lemma claim_messages_rows:
  assumes "distinct (map message_id (messages db))"
  shows "list_all2 (\<lambda>m m'. m' = m \<or> claimable t [] m \<and> m' = claim_message w t m)
    (messages db) (messages (fst (claim_messages locked w limit t excluded db)))"
  using claimed_claimable [OF assms]
  by (auto simp: messages_claim update_where_def list_all2_conv_all_nth claimable_def)

lemma queue_step_messages:
  assumes "queue_step (t, db) (t', db')" and "distinct (map message_id (messages db))"
  shows "\<exists>new. list_all2 (message_moves t) (messages db) (take (length (messages db)) (messages db')) \<and>
    messages db' = take (length (messages db)) (messages db') @ new \<and>
    (new = [] \<and> next_message db' = next_message db \<or>
     (\<exists>m. new = [m] \<and> message_id m = next_message db \<and> published_at m = None \<and>
        next_message db' = next_message db + 1))"
  using assms(1)
proof cases
  case (claimed locked w limit excluded)
  have "list_all2 (message_moves t) (messages db) (messages db')"
    unfolding claimed
    by (rule list_all2_mono [OF claim_messages_rows [OF assms(2)]]) (auto simp: message_moves_def)
  then have "length (messages db') = length (messages db)" by (rule list_all2_lengthD [symmetric])
  with claimed \<open>list_all2 _ _ _\<close> show ?thesis by simp
next
  case published
  then show ?thesis
    by (auto simp: mark_published_def message_moves_def update_where_def list_all2_conv_all_nth)
qed (auto simp: enqueue_message_def enqueue_job_def claim_jobs_def finish_job_def release_job_def
    message_moves_def Let_def bind_result_Inr list.rel_refl split: if_splits option.splits)

definition queue_ok :: "timestamptz \<times> queue_db \<Rightarrow> bool" where
  "queue_ok s \<longleftrightarrow> distinct (map message_id (messages (snd s))) \<and>
     list_all (\<lambda>m. message_id m < next_message (snd s)) (messages (snd s))"

lemma message_moves_id: "message_moves t m m' \<Longrightarrow> message_id m' = message_id m"
  by (auto simp: message_moves_def claim_message_def)

lemma moved_ids: "list_all2 (message_moves t) ms ms' \<Longrightarrow> map message_id ms' = map message_id ms"
  by (induction rule: list_all2_induct) (auto simp: message_moves_id)

lemma queue_ok_step:
  assumes "queue_ok s" and "queue_step s s'"
  shows "queue_ok s'"
proof -
  obtain t db t' db' where s: "s = (t, db)" "s' = (t', db')" by (cases s; cases s')
  let ?old = "take (length (messages db)) (messages db')"
  from queue_step_messages assms obtain new where
    moves: "list_all2 (message_moves t) (messages db) ?old" and eq: "messages db' = ?old @ new"
    and new: "new = [] \<and> next_message db' = next_message db \<or>
     (\<exists>m. new = [m] \<and> message_id m = next_message db \<and> published_at m = None \<and>
        next_message db' = next_message db + 1)"
    unfolding s queue_ok_def by (metis snd_conv)
  have ids: "map message_id (messages db') = map message_id (messages db) @ map message_id new"
    by (subst eq) (simp add: moved_ids [OF moves])
  have "\<forall>i \<in> set (map message_id (messages db)). i < next_message db"
    using assms(1) by (auto simp: s queue_ok_def list_all_iff)
  then have "distinct (map message_id (messages db'))"
    "\<forall>i \<in> set (map message_id (messages db')). i < next_message db'"
    using new assms(1) unfolding ids s queue_ok_def by auto
  then show ?thesis by (simp add: s queue_ok_def list_all_iff)
qed

interpretation queue: invariant_system empty_queue queue_step queue_ok
  by unfold_locales (simp add: empty_queue_def queue_ok_def, rule queue_ok_step)

section \<open>What claims promise\<close>

text \<open>A message is spoken for until \<open>e\<close>: it is published, or claimed at least that long.\<close>

definition spoken_for :: "int \<Rightarrow> timestamptz \<Rightarrow> outbox_message \<Rightarrow> bool" where
  "spoken_for i e m \<longleftrightarrow> message_id m = i \<longrightarrow>
     published_at m \<noteq> None \<or> (\<exists>x \<ge> e. message_claim_expires m = Some x)"

lemma spoken_for_moves:
  "spoken_for i e m \<Longrightarrow> message_moves t m m' \<Longrightarrow> t < e \<Longrightarrow> spoken_for i e m'"
  by (auto simp: spoken_for_def message_moves_def claimable_def claim_message_def)

lemma queue_step_time: "queue_step s s' \<Longrightarrow> fst s \<le> fst s'"
  by (cases rule: queue_step.cases) auto

lemma queue_run_time: "queue_step\<^sup>*\<^sup>* s s' \<Longrightarrow> fst s \<le> fst s'"
  by (induction rule: rtranclp_induct) (auto dest: queue_step_time)

lemma spoken_for_step:
  assumes "queue_step s s'" and "queue_ok s" and "fst s < e"
    and "i < next_message (snd s) \<and> list_all (spoken_for i e) (messages (snd s))"
  shows "i < next_message (snd s') \<and> list_all (spoken_for i e) (messages (snd s'))"
proof -
  obtain t db t' db' where s: "s = (t, db)" "s' = (t', db')" by (cases s; cases s')
  let ?old = "take (length (messages db)) (messages db')"
  from queue_step_messages assms(1,2) obtain new where
    moves: "list_all2 (message_moves t) (messages db) ?old" and eq: "messages db' = ?old @ new"
    and new: "new = [] \<and> next_message db' = next_message db \<or>
     (\<exists>m. new = [m] \<and> message_id m = next_message db \<and> published_at m = None \<and>
        next_message db' = next_message db + 1)"
    unfolding s queue_ok_def by (metis snd_conv)
  have "list_all (spoken_for i e) ?old"
    using list_all2_partner(2) [OF moves] spoken_for_moves assms(3,4)
    by (fastforce simp: list_all_iff s)
  moreover have "list_all (spoken_for i e) new" "i < next_message db'"
    using new assms(4) by (auto simp: spoken_for_def s)
  ultimately show ?thesis
    by (metis eq list_all_append s(2) snd_conv)
qed

lemma spoken_for_claim: "spoken_for i (t + CLAIM_LEASE) (claim_message w t m)"
  by (simp add: spoken_for_def claim_message_def)

lemma claimed_is_spoken_for:
  assumes "claim_messages locked w limit t excluded db = (db1, ms)" and "m \<in> set ms" and "queue_ok (t, db)"
  shows "message_id m < next_message db1 \<and>
    list_all (spoken_for (message_id m) (t + CLAIM_LEASE)) (messages db1)"
proof -
  let ?ids = "claimed_ids locked limit t excluded db"
  from assms(1) have db1: "db1 = fst (claim_messages locked w limit t excluded db)"
    and ms: "ms = snd (claim_messages locked w limit t excluded db)" by simp_all
  from assms(2) obtain q where "q \<in> set (messages db)" "message_id q \<in> ?ids" "m = claim_message w t q"
    unfolding ms in_claim by blast
  then have "message_id m \<in> ?ids" "message_id m < next_message db"
    using assms(3) by (auto simp: queue_ok_def list_all_iff)
  moreover have "spoken_for (message_id m) (t + CLAIM_LEASE)
      (if message_id r \<in> ?ids then claim_message w t r else r)" if "message_id m \<in> ?ids" for r
    using that by (cases "message_id r \<in> ?ids") (simp add: spoken_for_claim, auto simp: spoken_for_def)
  ultimately show ?thesis
    by (auto simp: db1 messages_claim list_all_iff in_update_where)
qed

text \<open>
  C20: two publishers never hold one message at a time. A message handed to a worker is handed to nobody
  for the five minutes of its claim, whatever is claimed, published, enqueued or retried meanwhile.
\<close>

theorem claims_exclusive:
  assumes "reachable empty_queue queue_step (t, db)"
    and "claim_messages locked w limit t excluded db = (db1, ms)" and "m \<in> set ms"
    and "queue_step\<^sup>*\<^sup>* (t, db1) (t', db')" and "t' < t + CLAIM_LEASE"
  shows "message_id m \<notin> message_id ` set (snd (claim_messages locked' w' limit' t' excluded' db'))"
proof -
  let ?i = "message_id m" and ?e = "t + CLAIM_LEASE"
  have ok: "queue_ok (t, db)" by (rule queue.invar_reachable [OF assms(1)])
  have ok1: "queue_ok (t, db1)"
    using queue_ok_step [OF ok queue_step.claimed] assms(2) by (metis fst_conv)
  have "fst s < ?e \<longrightarrow> ?i < next_message (snd s) \<and> list_all (spoken_for ?i ?e) (messages (snd s))"
    if "queue_step\<^sup>*\<^sup>* (t, db1) s" for s
    using that
  proof (induction rule: rtranclp_induct)
    case base
    show ?case using claimed_is_spoken_for [OF assms(2,3) ok] by simp
  next
    case (step u v)
    show ?case
      using spoken_for_step [OF step(2) queue.invar_run [OF step(1) ok1], of ?e ?i] step.IH
        queue_step_time [OF step(2)] by fastforce
  qed
  from this [OF assms(4)] assms(5) have held: "list_all (spoken_for ?i ?e) (messages db')" by simp
  show ?thesis
  proof
    assume "?i \<in> message_id ` set (snd (claim_messages locked' w' limit' t' excluded' db'))"
    then obtain q where "message_id q = ?i" "q \<in> set (messages db')" "claimable t' excluded' q"
      using claimed_idsD by (fastforce simp: in_claim)
    with held assms(5) \<open>message_id q = ?i\<close> show False
      by (auto simp: list_all_iff spoken_for_def claimable_def)
  qed
qed

definition sample_queue :: queue_db where
  "sample_queue = fst (enqueue_message (str ''w'') (str ''o'') (str ''run.leased'') PNone 0
     \<lparr>messages = [], next_message = 1, jobs = []\<rparr>)"

lemma sample_queue_reachable: "reachable empty_queue queue_step (0, sample_queue)"
proof -
  let ?e = "\<lparr>messages = [], next_message = 1, jobs = []\<rparr>"
  have "queue_step (0, ?e) (0, sample_queue)"
    unfolding sample_queue_def by (rule queue_step.enqueued)
  then show ?thesis
    by (rule reach_step [rotated]) (rule reach_init, simp add: empty_queue_def)
qed

lemma claims_exclusive_witness:
  "snd (claim_messages {} (str ''b'') 10 1 []
     (fst (claim_messages {} (str ''a'') 10 0 [] sample_queue))) = []"
proof -
  let ?r = "claim_messages {} (str ''a'') 10 0 [] sample_queue"
  let ?l = "claim_messages {} (str ''b'') 10 1 [] (fst ?r)"
  have "messages sample_queue = [hd (messages sample_queue)]" "message_id (hd (messages sample_queue)) = 1"
    "claimable 0 [] (hd (messages sample_queue))"
    by (simp_all add: sample_queue_def enqueue_message_def claimable_def)
  then have all: "\<forall>m \<in> set (messages sample_queue). message_id m = 1" and "1 \<in> claimed_ids {} 10 0 [] sample_queue"
    by (metis list.set(1,2) insertE empty_iff) (simp add: sample_queue_def enqueue_message_def claimed_ids_def claimable_def)
  then have "claim_message (str ''a'') 0 (hd (messages sample_queue)) \<in> set (snd ?r)"
    by (auto simp: in_claim sample_queue_def enqueue_message_def)
  then obtain m where m: "m \<in> set (snd ?r)" "message_id m = 1"
    by (metis claim_message_id \<open>message_id (hd (messages sample_queue)) = 1\<close>)
  have ids: "message_id ` set (snd ?l) \<subseteq> {1}"
    using all by (auto simp: in_claim messages_claim in_update_where)
  have "queue_step\<^sup>*\<^sup>* (0, fst ?r) (1, fst ?r)" by (rule r_into_rtranclp) (simp add: waited)
  from claims_exclusive [OF sample_queue_reachable _ m(1) this, of "{}" "str ''a''" 10 "[]" "{}" "str ''b''" 10 "[]"]
  have "1 \<notin> message_id ` set (snd ?l)" by (simp add: CLAIM_LEASE_def seconds_def m(2))
  with ids have "set (snd ?l) = {}" by (metis image_eqI image_is_empty subset_singletonD insertI1)
  then show ?thesis by simp
qed

section \<open>Delivery\<close>

definition same_message :: "outbox_message \<Rightarrow> outbox_message \<Rightarrow> bool" where
  "same_message m m' \<longleftrightarrow> message_id m' = message_id m \<and> message_workspace m' = message_workspace m \<and>
     message_operation m' = message_operation m \<and> topic m' = topic m \<and> reference m' = reference m \<and>
     (published_at m \<noteq> None \<longrightarrow> published_at m' \<noteq> None)"

lemma same_message_moves: "message_moves t m m' \<Longrightarrow> same_message m m'"
  by (auto simp: message_moves_def same_message_def claim_message_def)

lemma same_message_trans: "same_message a b \<Longrightarrow> same_message b c \<Longrightarrow> same_message a c"
  by (auto simp: same_message_def)

lemma message_survives:
  "queue_step\<^sup>*\<^sup>* s s' \<Longrightarrow> queue_ok s \<Longrightarrow> m \<in> set (messages (snd s)) \<Longrightarrow>
   \<exists>m' \<in> set (messages (snd s')). same_message m m'"
proof (induction rule: rtranclp_induct)
  case base
  then show ?case by (auto simp: same_message_def)
next
  case (step u v)
  then obtain q where q: "q \<in> set (messages (snd u))" "same_message m q" by auto
  have "queue_ok u" by (rule queue.invar_run [OF step(1) step.prems(1)])
  with queue_step_messages [of "fst u" "snd u" "fst v" "snd v"] step(2)
  have moves: "list_all2 (message_moves (fst u)) (messages (snd u))
      (take (length (messages (snd u))) (messages (snd v)))" by (auto simp: queue_ok_def)
  from list_all2_partner(1) [OF this q(1)] q(2) show ?case
    by (metis same_message_moves same_message_trans in_set_takeD)
qed

lemma claimable_is_claimed:
  assumes "m \<in> set (messages db)" and "claimable now excluded m" and "message_id m \<notin> locked"
    and "length (messages db) \<le> limit"
  shows "\<exists>m' \<in> set (snd (claim_messages locked w limit now excluded db)). same_message m m'"
proof -
  let ?c = "filter (\<lambda>m. claimable now excluded m \<and> message_id m \<notin> locked) (messages db)"
  have "length ?c \<le> limit" using assms(4) length_filter_le [of _ "messages db"] by (rule le_trans [rotated])
  then have "take limit (sort_key message_created ?c) = sort_key message_created ?c" by simp
  with assms(1-3) have "message_id m \<in> message_id ` set (take limit (sort_key message_created ?c))" by auto
  with assms(1) show ?thesis
    by (intro bexI [of _ "claim_message w now m"])
      (auto simp: in_claim claimed_ids_def same_message_def claim_message_def)
qed

text \<open>
  C21: delivery is at least once. A message once enqueued is never lost or rewritten: at any later time
  it is there with its operation, topic and reference, and as long as it is not published, from the
  moment its claim runs out a claim that is large enough hands it out.
\<close>

theorem messages_are_delivered:
  assumes "reachable empty_queue queue_step (t, db)" and "m \<in> set (messages db)"
    and "queue_step\<^sup>*\<^sup>* (t, db) (t', db')"
  shows "\<exists>m' \<in> set (messages db'). same_message m m' \<and>
    (published_at m' \<noteq> None \<or>
     (\<forall>now locked w limit. length (messages db') \<le> limit \<and> message_id m \<notin> locked \<and>
        (\<forall>e. message_claim_expires m' = Some e \<longrightarrow> e \<le> now) \<longrightarrow>
        (\<exists>d \<in> set (snd (claim_messages locked w limit now [] db')). same_message m d)))"
proof -
  from message_survives [OF assms(3) queue.invar_reachable [OF assms(1)]] assms(2)
  obtain m' where m': "m' \<in> set (messages db')" "same_message m m'" by auto
  have deliver: "\<exists>d \<in> set (snd (claim_messages locked w limit now [] db')). same_message m d"
    if "published_at m' = None" "length (messages db') \<le> limit" "message_id m \<notin> locked"
      "\<forall>e. message_claim_expires m' = Some e \<longrightarrow> e \<le> now" for now locked w limit
  proof -
    have "claimable now [] m'" "message_id m' \<notin> locked"
      using that m'(2) by (auto simp: claimable_def same_message_def split: option.splits)
    from claimable_is_claimed [OF m'(1) this that(2)] obtain d where
      "d \<in> set (snd (claim_messages locked w limit now [] db'))" "same_message m' d" by blast
    with same_message_trans [OF m'(2)] show ?thesis by blast
  qed
  show ?thesis
  proof (intro bexI [OF _ m'(1)] conjI m'(2), cases "published_at m' = None")
    case True
    with deliver show "published_at m' \<noteq> None \<or>
      (\<forall>now locked w limit. length (messages db') \<le> limit \<and> message_id m \<notin> locked \<and>
        (\<forall>e. message_claim_expires m' = Some e \<longrightarrow> e \<le> now) \<longrightarrow>
        (\<exists>d \<in> set (snd (claim_messages locked w limit now [] db')). same_message m d))"
      by simp
  qed simp
qed

lemma messages_are_delivered_witness:
  "\<exists>m' \<in> set (messages sample_queue). message_id m' = 1 \<and> topic m' = str ''run.leased''"
proof -
  have m: "hd (messages sample_queue) \<in> set (messages sample_queue)"
    and facts: "message_id (hd (messages sample_queue)) = 1" "topic (hd (messages sample_queue)) = str ''run.leased''"
    by (simp_all add: sample_queue_def enqueue_message_def)
  from messages_are_delivered [OF sample_queue_reachable m rtranclp.rtrancl_refl] facts
  show ?thesis by (auto simp: same_message_def)
qed

section \<open>Finished jobs\<close>

text \<open>
  A late release undoes a finished job. Whoever holds an expired claim and reports a failure after
  another worker has finished the job puts it back to PENDING, where the next claim runs it again:
  neither release nor finish looks at the job's status or at who holds the claim.
\<close>

theorem late_release_revives_job:
  assumes "row job_id i (jobs db) = Some j" and "job_status j = SUCCEEDED"
    and "job_attempts j < MAX_JOB_ATTEMPTS"
  shows "\<exists>db' j'. release_job i err now db = Inr (db', PENDING) \<and>
    row job_id i (jobs db') = Some j' \<and> job_status j' = PENDING \<and>
    job_operation j' = job_operation j \<and> job_claimable now j'"
  using assms row_SomeD [OF assms(1)]
  by (auto simp: release_job_def row_update job_claimable_def)

lemma late_release_revives_job_witness:
  "\<exists>db'. release_job (str ''j'') None 5
     (\<lparr>messages = [], next_message = 1,
       jobs = [\<lparr>job_id = str ''j'', job_workspace = [], job_operation = [], job_kind = [],
         job_reference = PNone, job_status = SUCCEEDED, job_attempts = 2, job_claimed_by = None,
         job_claim_expires = None, job_created = 0, job_updated = 4, last_error = None\<rparr>]\<rparr>)
     = Inr (db', PENDING)"
  (is "\<exists>db'. release_job _ _ _ ?db = _")
proof -
  have "row job_id (str ''j'') (jobs ?db) = Some (hd (jobs ?db))" by (simp add: row_def)
  from late_release_revives_job [OF this, of None 5] show ?thesis by (auto simp: MAX_JOB_ATTEMPTS_def)
qed

end
