(* ===== verification/Run_Store.thy ===== *)
theory Run_Store
  imports Run_Lifecycle Outbox Sha256
begin

text \<open>
  Runs as the database holds them (\<open>persistence/runs.py\<close>): the \<open>run\<close> table with its CHECK constraints and
  its trigger, and \<open>apply_transition\<close>, which hands a row to a reducer and writes the result, the audit
  row and the outbox message in one transaction. A session sees the rows of its workspace only. The
  one thing PostgreSQL is asked that the source does not contain is to read a text as a \<open>timestamptz\<close>:
  the parameter \<open>reads\<close>.
\<close>

section \<open>Tables\<close>

record stored_run =
  c_id :: pytext
  c_workspace :: pytext
  c_project :: "pytext option"
  c_manifest_digest :: pytext
  c_authorization :: "pytext option"
  c_retry_of :: "pytext option"
  c_status :: run_status
  c_outcome :: outcome
  c_revision :: int
  c_lease_epoch :: int
  c_execution_began :: bool
  c_unresolved_action :: bool
  c_cancel_requested_at :: "timestamptz option"
  c_cancellation_revision :: "int option"
  c_stop_acknowledged_at :: "timestamptz option"
  c_stop_acknowledged_epoch :: "int option"
  c_ambiguity_reason :: "pytext option"
  c_quarantined :: bool
  c_updated_at :: timestamptz

record audit_event =
  audit_workspace :: pytext
  actor_user :: "pytext option"
  actor_service :: "pytext option"
  audit_action :: pytext
  audit_target :: pytext
  occurred_at :: timestamptz
  audit_detail :: pyval

record run_attempt =
  attempt_id :: pytext
  attempt_workspace :: pytext
  attempt_run :: pytext
  attempt_epoch :: int

record run_store =
  runs :: "stored_run list"
  audit :: "audit_event list"
  queue :: queue_db
  attempts :: "run_attempt list"

datatype store_error =
    NoSuchRun | RevisionStale | TerminalRun | Refused transition_error
  | ImmutableRow | NotATimestamp | CheckViolated | KeyTaken | ReferenceMissing | WrongWorkspace

section \<open>Rows\<close>

definition row_to_state :: "stored_run \<Rightarrow> run_state" where
  "row_to_state r =
     \<lparr>run_id = c_id r, status = c_status r, run_outcome = c_outcome r, revision = c_revision r,
      lease_epoch = c_lease_epoch r, execution_began = c_execution_began r,
      unresolved_action = c_unresolved_action r,
      cancel_requested_at = map_option written (c_cancel_requested_at r),
      cancellation_revision = c_cancellation_revision r,
      stop_acknowledged_at = map_option written (c_stop_acknowledged_at r),
      stop_acknowledged_epoch = c_stop_acknowledged_epoch r,
      ambiguity_reason = c_ambiguity_reason r, quarantined = c_quarantined r\<rparr>"

text \<open>The CHECK constraints of the \<open>run\<close> table.\<close>

definition run_checks :: "stored_run \<Rightarrow> bool" where
  "run_checks r \<longleftrightarrow>
     0 \<le> c_revision r \<and> 0 \<le> c_lease_epoch r \<and>
     (c_status r \<in> {QUEUED, LEASED, RUNNING, FINALIZING} \<and> c_outcome r = NOT_EVALUATED \<or>
      c_status r = COMPLETED \<and> c_outcome r \<in> {PASS, FAIL, INCONCLUSIVE} \<or>
      c_status r = INTERRUPTED \<and> c_outcome r = INCONCLUSIVE \<or>
      c_status r = CANCELLED \<and> c_outcome r \<in> {NOT_EVALUATED, INCONCLUSIVE}) \<and>
     (c_cancel_requested_at r = None) = (c_cancellation_revision r = None) \<and>
     (c_stop_acknowledged_at r = None) = (c_stop_acknowledged_epoch r = None) \<and>
     (c_status r \<noteq> INTERRUPTED \<or> c_ambiguity_reason r \<noteq> None)"

definition find_run :: "pytext \<Rightarrow> pytext \<Rightarrow> run_store \<Rightarrow> stored_run option" where
  "find_run session i db = row c_id i (filter (\<lambda>r. c_workspace r = session) (runs db))"

text \<open>A text written to a \<open>timestamptz\<close> column.\<close>

definition column ::
  "(pytext \<Rightarrow> timestamptz option) \<Rightarrow> pytext option \<Rightarrow> (store_error, timestamptz option) result" where
  "column reads s =
     (case s of
        None \<Rightarrow> Inr None
      | Some x \<Rightarrow> (case reads x of None \<Rightarrow> Inl NotATimestamp | Some t \<Rightarrow> Inr (Some t)))"

definition set_columns ::
  "run_state \<Rightarrow> timestamptz option \<Rightarrow> timestamptz option \<Rightarrow> timestamptz \<Rightarrow> stored_run \<Rightarrow> stored_run" where
  "set_columns s requested acknowledged now r =
     r\<lparr>c_status := status s, c_outcome := run_outcome s, c_revision := revision s,
       c_lease_epoch := lease_epoch s, c_execution_began := execution_began s,
       c_unresolved_action := unresolved_action s, c_cancel_requested_at := requested,
       c_cancellation_revision := cancellation_revision s, c_stop_acknowledged_at := acknowledged,
       c_stop_acknowledged_epoch := stop_acknowledged_epoch s,
       c_ambiguity_reason := ambiguity_reason s, c_quarantined := quarantined s, c_updated_at := now\<rparr>"

section \<open>Operations\<close>

definition create_run ::
  "pytext \<Rightarrow> pytext \<Rightarrow> pytext \<Rightarrow> pytext \<Rightarrow> pytext option \<Rightarrow> pytext option \<Rightarrow> pytext option \<Rightarrow> timestamptz \<Rightarrow>
     run_store \<Rightarrow> (store_error, run_store) result" where
  "create_run session i workspace digest' project authorization retry now db =
     (if workspace \<noteq> session then Inl WrongWorkspace
      else if row c_id i (runs db) \<noteq> None then Inl KeyTaken
      else if \<not> is_sha256_hex digest' then Inl CheckViolated
      else if (case retry of None \<Rightarrow> False | Some q \<Rightarrow> row c_id q (runs db) = None) then Inl ReferenceMissing
      else Inr (db\<lparr>runs := runs db @
             [\<lparr>c_id = i, c_workspace = workspace, c_project = project, c_manifest_digest = digest',
               c_authorization = authorization, c_retry_of = retry, c_status = QUEUED,
               c_outcome = NOT_EVALUATED, c_revision = 0, c_lease_epoch = 0,
               c_execution_began = False, c_unresolved_action = False, c_cancel_requested_at = None,
               c_cancellation_revision = None, c_stop_acknowledged_at = None,
               c_stop_acknowledged_epoch = None, c_ambiguity_reason = None, c_quarantined = False,
               c_updated_at = now\<rparr>]\<rparr>))"

definition load_run :: "pytext \<Rightarrow> pytext \<Rightarrow> run_store \<Rightarrow> (store_error, run_state \<times> pytext) result" where
  "load_run session i db =
     (case find_run session i db of
        None \<Rightarrow> Inl NoSuchRun
      | Some r \<Rightarrow> Inr (row_to_state r, c_workspace r))"

text \<open>Who asked for a transition, and under what name it is audited and announced.\<close>

record cause =
  cause_operation :: pytext
  cause_topic :: pytext
  cause_user :: "pytext option"
  cause_service :: "pytext option"
  cause_action :: "pytext option"
  cause_context :: "pyval option"

definition audit_row :: "pytext \<Rightarrow> cause \<Rightarrow> run_state \<Rightarrow> run_state \<Rightarrow> timestamptz \<Rightarrow> audit_event" where
  "audit_row w why before after now =
     \<lparr>audit_workspace = w, actor_user = cause_user why, actor_service = cause_service why,
      audit_action = (case cause_action why of
          None \<Rightarrow> str ''RUN_'' @ run_status_value (status after)
        | Some a \<Rightarrow> if a = [] then str ''RUN_'' @ run_status_value (status after) else a),
      audit_target = run_id before, occurred_at = now,
      audit_detail = PDict ([(key ''from'', PStr (run_status_value (status before))),
         (key ''to'', PStr (run_status_value (status after))),
         (key ''outcome'', PStr (outcome_value (run_outcome after))),
         (key ''revision'', PInt (revision after))] @
        (case cause_context why of None \<Rightarrow> [] | Some c \<Rightarrow> [(key ''context'', c)]))\<rparr>"

definition run_reference :: "run_state \<Rightarrow> pyval" where
  "run_reference s =
     PDict [(key ''runId'', PStr (run_id s)), (key ''revision'', PInt (revision s)),
            (key ''status'', PStr (run_status_value (status s)))]"

text \<open>
  The UPDATE: the rows still at the revision the reducer computed from, the trigger that refuses a
  terminal row, the texts read as moments and the constraints of the table.
\<close>

definition write_run ::
  "(pytext \<Rightarrow> timestamptz option) \<Rightarrow> pytext \<Rightarrow> run_state \<Rightarrow> run_state \<Rightarrow> timestamptz \<Rightarrow> run_store \<Rightarrow>
     (store_error, run_store) result" where
  "write_run reads session before after now db =
     (let hit = (\<lambda>r. c_workspace r = session \<and> c_id r = run_id before \<and> c_revision r = revision before)
      in bind_result (column reads (cancel_requested_at after)) (\<lambda>requested.
         bind_result (column reads (stop_acknowledged_at after)) (\<lambda>acknowledged.
         let change = set_columns after requested acknowledged now;
             old = filter hit (runs db)
         in if list_ex (\<lambda>r. is_terminal (c_status r)) old then Inl ImmutableRow
            else if list_ex (\<lambda>r. \<not> run_checks (change r)) old then Inl CheckViolated
            else if length old \<noteq> 1 then Inl RevisionStale
            else Inr (db\<lparr>runs := update_where hit change (runs db)\<rparr>))))"

definition apply_transition ::
  "(pytext \<Rightarrow> timestamptz option) \<Rightarrow> pytext \<Rightarrow> pytext \<Rightarrow> (run_state \<Rightarrow> transition) \<Rightarrow> cause \<Rightarrow> int option \<Rightarrow>
     timestamptz \<Rightarrow> run_store \<Rightarrow> (store_error, run_store \<times> run_state) result" where
  "apply_transition reads session i reducer why expected now db =
     (case find_run session i db of
        None \<Rightarrow> Inl NoSuchRun
      | Some r \<Rightarrow>
          let before = row_to_state r in
          if expected \<noteq> None \<and> expected \<noteq> Some (revision before) then Inl RevisionStale
          else case reducer before of
              Inl TerminalRecord \<Rightarrow> Inl TerminalRun
            | Inl e \<Rightarrow> Inl (Refused e)
            | Inr after \<Rightarrow>
                bind_result (write_run reads session before after now db) (\<lambda>db1.
                Inr (db1\<lparr>audit := audit db1 @ [audit_row (c_workspace r) why before after now],
                         queue := fst (enqueue_message (c_workspace r) (cause_operation why)
                           (cause_topic why) (run_reference after) now (queue db1))\<rparr>, after)))"

definition start_attempt ::
  "pytext \<Rightarrow> pytext \<Rightarrow> pytext \<Rightarrow> pytext \<Rightarrow> int \<Rightarrow> run_store \<Rightarrow> (store_error, run_store) result" where
  "start_attempt session fresh run workspace epoch db =
     (if workspace \<noteq> session then Inl WrongWorkspace
      else if list_ex (\<lambda>a. attempt_id a = fresh \<or> attempt_run a = run \<and> attempt_epoch a = epoch) (attempts db)
      then Inl KeyTaken
      else if epoch < 0 then Inl CheckViolated
      else if \<not> list_ex (\<lambda>r. c_id r = run \<and> c_workspace r = workspace) (runs db) then Inl ReferenceMissing
      else Inr (db\<lparr>attempts := attempts db @
             [\<lparr>attempt_id = fresh, attempt_workspace = workspace, attempt_run = run,
               attempt_epoch = epoch\<rparr>]\<rparr>))"

section \<open>What a column promises\<close>

text \<open>
  A moment of the calendar written as text reads back as itself, and what PostgreSQL reads is a moment
  of the calendar.
\<close>

definition calendar_moment :: "timestamptz \<Rightarrow> bool" where
  "calendar_moment t \<longleftrightarrow> (\<exists>i. valid_instant i \<and> of_instant i = t)"

locale timestamptz_column =
  fixes reads :: "pytext \<Rightarrow> timestamptz option"
  assumes reads_back: "calendar_moment t \<Longrightarrow> reads (written t) = Some t"
    and reads_calendar: "reads s = Some t \<Longrightarrow> calendar_moment t"
begin

lemma column_back:
  "(\<And>t. c = Some t \<Longrightarrow> calendar_moment t) \<Longrightarrow> column reads (map_option written c) = Inr c"
  by (cases c) (auto simp: column_def reads_back)

lemma column_calendar: "column reads s = Inr (Some t) \<Longrightarrow> calendar_moment t"
  by (auto simp: column_def reads_calendar split: option.splits)

end

lemma column_None [simp]: "column reads s = Inr None \<longleftrightarrow> s = None"
  by (auto simp: column_def split: option.splits)

lemma calendar_text:
  assumes "calendar_moment t"
  shows "parse_rfc3339_utc (written t) = Inr (to_instant t)" and "of_instant (to_instant t) = t"
    and "valid_instant (to_instant t)"
proof -
  from assms obtain i where "valid_instant i" "of_instant i = t" by (auto simp: calendar_moment_def)
  then have "to_instant t = i" by (metis to_instant_of_instant)
  then show "of_instant (to_instant t) = t" "valid_instant (to_instant t)"
    "parse_rfc3339_utc (written t) = Inr (to_instant t)"
    using \<open>valid_instant i\<close> \<open>of_instant i = t\<close> by (auto simp: written_def parse_isoformat)
qed

text \<open>The reading that goes through the domain's own parser.\<close>

definition read_moment :: "pytext \<Rightarrow> timestamptz option" where
  "read_moment s = (case moment_of s of Inl _ \<Rightarrow> None | Inr t \<Rightarrow> Some t)"

interpretation moments: timestamptz_column read_moment
proof
  show "read_moment (written t) = Some t" if "calendar_moment t" for t
    using calendar_text [OF that] by (simp add: read_moment_def moment_of_def)
  show "calendar_moment t" if "read_moment s = Some t" for s t
    using that parse_valid
    by (auto simp: read_moment_def moment_of_def calendar_moment_def bind_result_Inr split: sum.splits)
qed

end
