(* ===== verification/Run_Journal.thy ===== *)
theory Run_Journal
  imports Run_Store
begin

text \<open>
  What the run table guarantees over whole histories: rows obey the reducers' invariants, the
  constraints and the trigger of the database never refuse what a reducer accepted, terminal rows are
  frozen, and every announced revision is one that was committed.
\<close>

section \<open>Histories\<close>

text \<open>A closure built from the reducers: what it accepts is one reducer call or several.\<close>

definition lawful :: "(run_state \<Rightarrow> transition) \<Rightarrow> bool" where
  "lawful reducer \<longleftrightarrow> (\<forall>s t. reducer s = Inr t \<longrightarrow> run_step\<^sup>+\<^sup>+ s t)"

inductive store_step ::
  "((run_state \<Rightarrow> transition) \<Rightarrow> bool) \<Rightarrow> (pytext \<Rightarrow> timestamptz option) \<Rightarrow> run_store \<Rightarrow> run_store \<Rightarrow> bool"
  for allowed reads where
  created: "create_run session i w dg project auth retry now db = Inr db' \<Longrightarrow> store_step allowed reads db db'"
| transitioned: "allowed reducer \<Longrightarrow>
    apply_transition reads session i reducer why expected now db = Inr (db', s) \<Longrightarrow> store_step allowed reads db db'"
| attempted: "start_attempt session fresh run w epoch db = Inr db' \<Longrightarrow> store_step allowed reads db db'"
| claimed: "store_step allowed reads db
    (db\<lparr>queue := fst (claim_messages locked worker limit now excluded (queue db))\<rparr>)"
| published: "store_step allowed reads db (db\<lparr>queue := mark_published m now (queue db)\<rparr>)"

definition empty_store :: "run_store \<Rightarrow> bool" where
  "empty_store db \<longleftrightarrow> db = \<lparr>runs = [], audit = [],
     queue = \<lparr>messages = [], next_message = 1, jobs = []\<rparr>, attempts = []\<rparr>"

section \<open>The invariant of a row\<close>

text \<open>A request is recorded with its revision, and a cancelled run had one.\<close>

definition request_ok :: "run_state \<Rightarrow> bool" where
  "request_ok s \<longleftrightarrow>
     (cancel_requested_at s = None) = (cancellation_revision s = None) \<and>
     (\<forall>r. cancellation_revision s = Some r \<longrightarrow> 0 \<le> r \<and> r < revision s) \<and>
     (status s = CANCELLED \<longrightarrow> cancellation_requested s)"

definition row_inv :: "run_state \<Rightarrow> bool" where
  "row_inv s \<longleftrightarrow> outcome_ok s \<and> action_ok s \<and> interruption_ok s \<and> epoch_ok s \<and> request_ok s"

lemma request_ok_step: "request_ok s \<Longrightarrow> epoch_ok s \<Longrightarrow> run_step s t \<Longrightarrow> request_ok t"
  by (erule run_step_cases; drule accepted; elim conjE disjE exE;
    clarsimp simp: request_ok_def epoch_ok_def cancellation_requested_def nonterminal_iff; elim disjE; fastforce)

lemma row_inv_step: "row_inv s \<Longrightarrow> run_step s t \<Longrightarrow> row_inv t"
  unfolding row_inv_def
  by (blast intro: action_ok_step outcome_ok_step interruption_ok_step epoch_ok_step request_ok_step)

interpretation rows: invariant_system "\<lambda>s. s = s0 \<and> row_inv s0" run_step row_inv
  by unfold_locales (auto intro: row_inv_step)

lemma run_step_id: "run_step s t \<Longrightarrow> run_id t = run_id s"
  by (erule run_step_cases; drule accepted) auto

lemma run_steps_id: "run_step\<^sup>*\<^sup>* s t \<Longrightarrow> run_id t = run_id s"
  by (induction rule: rtranclp_induct) (auto dest: run_step_id)

text \<open>Reading a row back changes only how its two moments are written.\<close>

definition same_but_times :: "run_state \<Rightarrow> run_state \<Rightarrow> bool" where
  "same_but_times s t \<longleftrightarrow>
     t = s\<lparr>cancel_requested_at := cancel_requested_at t, stop_acknowledged_at := stop_acknowledged_at t\<rparr> \<and>
     (cancel_requested_at t = None) = (cancel_requested_at s = None) \<and>
     (stop_acknowledged_at t = None) = (stop_acknowledged_at s = None)"

lemma row_inv_times:
  assumes "row_inv s" and "same_but_times s t"
  shows "row_inv t"
proof -
  obtain a b where "t = s\<lparr>cancel_requested_at := a, stop_acknowledged_at := b\<rparr>"
    "(a = None) = (cancel_requested_at s = None)" "(b = None) = (stop_acknowledged_at s = None)"
    using assms(2) unfolding same_but_times_def by metis
  with assms(1) show ?thesis
    by (auto simp: row_inv_def outcome_ok_def action_ok_def interruption_ok_def epoch_ok_def
        request_ok_def cancellation_requested_def)
qed

lemma row_inv_new_run: "row_inv (new_run i)"
  by (auto simp: row_inv_def new_run_def outcome_ok_def action_ok_def interruption_ok_def epoch_ok_def
      request_ok_def cancellation_requested_def)

text \<open>The constraints of the table follow from it.\<close>

lemma row_inv_checks: "row_inv (row_to_state r) \<Longrightarrow> run_checks r"
  by (cases "c_status r"; cases "c_outcome r")
    (auto simp: row_inv_def row_to_state_def run_checks_def outcome_ok_def interruption_ok_def epoch_ok_def
      request_ok_def vocab_simps split: if_splits)

section \<open>What an accepted transition does\<close>

definition transitions_to :: "stored_run \<Rightarrow> run_state \<Rightarrow> stored_run \<Rightarrow> bool" where
  "transitions_to r after r' \<longleftrightarrow> (\<exists>req ack now. r' = set_columns after req ack now r \<and>
     (req = None) = (cancel_requested_at after = None) \<and> (ack = None) = (stop_acknowledged_at after = None))"

lemma column_same: "column reads s = Inr c \<Longrightarrow> (c = None) = (s = None)"
  by (cases s; cases "reads (the s)") (auto simp: column_def)

lemma transitions_to_state:
  "transitions_to r after r' \<Longrightarrow> run_id after = c_id r \<Longrightarrow>
     same_but_times after (row_to_state r') \<and> c_id r' = c_id r \<and> c_workspace r' = c_workspace r \<and>
     c_revision r' = revision after \<and> c_status r' = status after"
  by (auto simp: transitions_to_def same_but_times_def set_columns_def row_to_state_def)

lemma find_run_Some:
  "find_run session i db = Some r \<Longrightarrow> r \<in> set (runs db) \<and> c_id r = i \<and> c_workspace r = session"
  by (auto simp: find_run_def dest: row_SomeD)

lemma distinct_rows: "distinct (map f xs) \<Longrightarrow> x \<in> set xs \<Longrightarrow> y \<in> set xs \<Longrightarrow> f x = f y \<Longrightarrow> x = y"
  by (auto simp: distinct_map inj_on_def)

lemma distinct_filter:
  assumes "distinct (map f xs)" and "x \<in> set xs" and "\<And>y. y \<in> set xs \<Longrightarrow> P y \<longleftrightarrow> y = x"
  shows "filter P xs = [x]"
proof -
  have "filter P xs = filter (\<lambda>y. y = x) xs" using assms(3) by (rule filter_cong [OF refl])
  also have "distinct xs" using assms(1) by (rule distinct_map [THEN iffD1, THEN conjunct1])
  then have "filter (\<lambda>y. y = x) xs = [x]"
    using assms(2) by (induction xs) (auto simp: filter_empty_conv)
  finally show ?thesis .
qed

definition hit_row :: "pytext \<Rightarrow> run_state \<Rightarrow> stored_run \<Rightarrow> bool" where
  "hit_row session before r \<longleftrightarrow>
     c_workspace r = session \<and> c_id r = run_id before \<and> c_revision r = revision before"

lemma hit_only:
  assumes "distinct (map c_id (runs db))" and "find_run session i db = Some r" and "q \<in> set (runs db)"
  shows "hit_row session (row_to_state r) q \<longleftrightarrow> q = r"
  using find_run_Some [OF assms(2)] distinct_rows [OF assms(1) assms(3)]
  by (auto simp: hit_row_def row_to_state_def)

lemma write_run_found:
  assumes "distinct (map c_id (runs db))" and "find_run session i db = Some r"
  shows "write_run reads session (row_to_state r) after now db =
    bind_result (column reads (cancel_requested_at after)) (\<lambda>requested.
    bind_result (column reads (stop_acknowledged_at after)) (\<lambda>acknowledged.
    if is_terminal (c_status r) then Inl ImmutableRow
    else if \<not> run_checks (set_columns after requested acknowledged now r) then Inl CheckViolated
    else Inr (db\<lparr>runs := update_where (\<lambda>q. q = r) (set_columns after requested acknowledged now) (runs db)\<rparr>)))"
proof -
  have "filter (hit_row session (row_to_state r)) (runs db) = [r]"
    using find_run_Some [OF assms(2)] hit_only [OF assms] by (intro distinct_filter [OF assms(1)]) auto
  moreover have "update_where (hit_row session (row_to_state r)) f (runs db) = update_where (\<lambda>q. q = r) f (runs db)" for f
    using hit_only [OF assms] by (simp add: update_where_def)
  ultimately show ?thesis
    unfolding write_run_def hit_row_def [symmetric] Let_def by (simp cong: if_cong)
qed

lemma apply_transition_Inr:
  assumes "apply_transition reads session i reducer why expected now db = Inr (db', after)"
    and "distinct (map c_id (runs db))"
  shows "\<exists>r r'. find_run session i db = Some r \<and> r \<in> set (runs db) \<and> c_id r = i \<and>
    reducer (row_to_state r) = Inr after \<and> \<not> is_terminal (c_status r) \<and>
    transitions_to r after r' \<and> runs db' = map (\<lambda>q. if q = r then r' else q) (runs db) \<and>
    queue db' = fst (enqueue_message (c_workspace r) (cause_operation why) (cause_topic why)
      (run_reference after) now (queue db)) \<and> attempts db' = attempts db \<and>
    audit db' = audit db @ [audit_row (c_workspace r) why (row_to_state r) after now] \<and>
    (expected = None \<or> expected = Some (c_revision r))"
proof -
  from assms(1) obtain r where r: "find_run session i db = Some r"
    by (auto simp: apply_transition_def split: option.splits)
  with assms(1) have red: "reducer (row_to_state r) = Inr after"
    and exp: "expected = None \<or> expected = Some (c_revision r)"
    by (auto simp: apply_transition_def Let_def bind_result_Inr row_to_state_def
        split: if_splits sum.splits transition_error.splits)
  with assms(1) r obtain db1 where w: "write_run reads session (row_to_state r) after now db = Inr db1"
    and db': "db' = db1\<lparr>audit := audit db1 @ [audit_row (c_workspace r) why (row_to_state r) after now],
        queue := fst (enqueue_message (c_workspace r) (cause_operation why) (cause_topic why)
          (run_reference after) now (queue db1))\<rparr>"
    by (auto simp: apply_transition_def Let_def bind_result_Inr split: if_splits)
  from w obtain req ack where cols: "column reads (cancel_requested_at after) = Inr req"
      "column reads (stop_acknowledged_at after) = Inr ack" "\<not> is_terminal (c_status r)"
    and db1: "db1 = db\<lparr>runs := update_where (\<lambda>q. q = r) (set_columns after req ack now) (runs db)\<rparr>"
    unfolding write_run_found [OF assms(2) r] by (auto simp: bind_result_Inr split: if_splits)
  have "transitions_to r after (set_columns after req ack now r)"
    unfolding transitions_to_def using column_same [OF cols(1)] column_same [OF cols(2)]
    by (intro exI [of _ req] exI [of _ ack] exI [of _ now]) simp
  moreover have "runs db' = map (\<lambda>q. if q = r then set_columns after req ack now r else q) (runs db)"
    by (auto simp: db' db1 update_where_def)
  ultimately show ?thesis
    using r find_run_Some [OF r] red cols(3) exp
    by (intro exI [of _ r] exI [of _ "set_columns after req ack now r"]) (simp add: db' db1)
qed

section \<open>The invariant of the store\<close>

definition announces :: "outbox_message \<Rightarrow> pytext \<Rightarrow> int \<Rightarrow> pytext \<Rightarrow> bool" where
  "announces m i v st \<longleftrightarrow> reference m =
     PDict [(key ''runId'', PStr i), (key ''revision'', PInt v), (key ''status'', PStr st)]"

definition announced_ok :: "run_store \<Rightarrow> bool" where
  "announced_ok db \<longleftrightarrow> (\<forall>m \<in> set (messages (queue db)). \<forall>i v st. announces m i v st \<longrightarrow>
     (\<exists>r \<in> set (runs db). c_id r = i \<and> v \<le> c_revision r \<and>
        (v = c_revision r \<longrightarrow> st = run_status_value (c_status r))))"

definition store_inv :: "run_store \<Rightarrow> bool" where
  "store_inv db \<longleftrightarrow> distinct (map c_id (runs db)) \<and> (\<forall>r \<in> set (runs db). row_inv (row_to_state r)) \<and>
     announced_ok db"

lemma transition_row:
  assumes "store_inv db" and "lawful reducer"
    and "apply_transition reads session i reducer why expected now db = Inr (db', after)"
  obtains r r' where "r \<in> set (runs db)" "c_id r = i" "\<not> is_terminal (c_status r)"
    "run_step\<^sup>*\<^sup>* (row_to_state r) after" "same_but_times after (row_to_state r')" "c_id r' = c_id r"
    "c_revision r' = revision after" "c_status r' = status after" "row_inv (row_to_state r')"
    "runs db' = map (\<lambda>q. if q = r then r' else q) (runs db)"
    "messages (queue db') = messages (queue db) @
       [last (messages (queue db'))]" "reference (last (messages (queue db'))) = run_reference after"
    "run_id after = c_id r" "(expected = None \<or> expected = Some (c_revision r))"
    "reducer (row_to_state r) = Inr after"
proof -
  from apply_transition_Inr [OF assms(3)] assms(1) obtain r r' where
    r: "r \<in> set (runs db)" "c_id r = i" "reducer (row_to_state r) = Inr after" "\<not> is_terminal (c_status r)"
      "transitions_to r after r'" "runs db' = map (\<lambda>q. if q = r then r' else q) (runs db)"
      "queue db' = fst (enqueue_message (c_workspace r) (cause_operation why) (cause_topic why)
        (run_reference after) now (queue db))" "expected = None \<or> expected = Some (c_revision r)"
    unfolding store_inv_def by blast
  have steps: "run_step\<^sup>*\<^sup>* (row_to_state r) after"
    using assms(2) r(3) by (auto simp: lawful_def dest: tranclp_into_rtranclp)
  then have id: "run_id after = c_id r" using run_steps_id by (fastforce simp: row_to_state_def)
  note st = transitions_to_state [OF r(5) id]
  have "row_inv after" using assms(1) r(1) rows.invar_run [OF steps] by (auto simp: store_inv_def)
  with row_inv_times st have "row_inv (row_to_state r')" by blast
  then show ?thesis
    using that [of r r'] r steps id st by (simp add: enqueue_message_def)
qed

lemma announced_ok_frame:
  assumes "announced_ok db"
    and "\<And>m. m \<in> set (messages (queue db')) \<Longrightarrow> \<exists>q \<in> set (messages (queue db)). reference q = reference m"
    and "runs db' = runs db"
  shows "announced_ok db'"
  unfolding announced_ok_def
proof (intro ballI allI impI)
  fix m i v st
  assume "m \<in> set (messages (queue db'))" and a: "announces m i v st"
  then obtain q where "q \<in> set (messages (queue db))" "reference q = reference m" using assms(2) by blast
  with assms(1,3) a show "\<exists>r \<in> set (runs db'). c_id r = i \<and> v \<le> c_revision r \<and>
      (v = c_revision r \<longrightarrow> st = run_status_value (c_status r))"
    by (simp add: announced_ok_def announces_def)
qed

lemma claim_reference:
  "m \<in> set (messages (fst (claim_messages locked w limit now ex q))) \<Longrightarrow>
     \<exists>p \<in> set (messages q). reference p = reference m"
  by (auto simp: messages_claim in_update_where claim_message_def)

lemma publish_reference:
  "m \<in> set (messages (mark_published i now q)) \<Longrightarrow> \<exists>p \<in> set (messages q). reference p = reference m"
  by (auto simp: mark_published_def in_update_where)

lemma status_value_inject: "run_status_value a = run_status_value b \<longleftrightarrow> a = b"
  by (cases a; cases b) auto

lemma announced_transition:
  assumes "announced_ok db" and "distinct (map c_id (runs db))"
    and "r \<in> set (runs db)" and "run_step\<^sup>*\<^sup>* (row_to_state r) after"
    and "c_id r' = c_id r" and "c_revision r' = revision after" and "c_status r' = status after"
    and "runs db' = map (\<lambda>q. if q = r then r' else q) (runs db)"
    and "messages (queue db') = messages (queue db) @ [m]" and "reference m = run_reference after"
    and "run_id after = c_id r"
  shows "announced_ok db'"
  unfolding announced_ok_def
proof (intro ballI allI impI)
  fix n i v st
  assume n: "n \<in> set (messages (queue db'))" and a: "announces n i v st"
  have r': "r' \<in> set (runs db')" using assms(3,8) by auto
  show "\<exists>r \<in> set (runs db'). c_id r = i \<and> v \<le> c_revision r \<and>
      (v = c_revision r \<longrightarrow> st = run_status_value (c_status r))"
  proof (cases "n \<in> set (messages (queue db))")
    case True
    with assms(1) a obtain q where q: "q \<in> set (runs db)" "c_id q = i" "v \<le> c_revision q"
      "v = c_revision q \<longrightarrow> st = run_status_value (c_status q)"
      unfolding announced_ok_def by blast
    show ?thesis
    proof (cases "q = r")
      case True
      have le: "c_revision r \<le> c_revision r'"
        using run_rev.rev_run [OF assms(4)] assms(6) by (simp add: row_to_state_def)
      have "c_status r' = c_status r" if "c_revision r' = c_revision r"
        using run_rev.same_rev_same_state [OF assms(4)] that assms(6,7)
        by (auto simp: row_to_state_def)
      with True q le assms(5) r' show ?thesis by (intro bexI [OF _ r']) auto
    next
      case False
      with q assms(8) show ?thesis by (intro bexI [of _ q]) auto
    qed
  next
    case False
    with n assms(9) have "n = m" by auto
    with a assms(10) have "i = run_id after" "v = revision after" "st = run_status_value (status after)"
      by (auto simp: announces_def run_reference_def)
    then show ?thesis using assms(5-7,11) by (intro bexI [OF _ r']) simp
  qed
qed

lemma create_run_Inr:
  "create_run session i w dg project auth retry now db = Inr db' \<Longrightarrow>
     \<exists>r. db' = db\<lparr>runs := runs db @ [r]\<rparr> \<and> c_id r = i \<and> row c_id i (runs db) = None \<and>
       row_to_state r = new_run i"
  by (auto simp: create_run_def row_to_state_def new_run_def split: if_splits)

lemma replaced_ids:
  "c_id r' = c_id r \<Longrightarrow> map c_id (map (\<lambda>q. if q = r then r' else q) rs) = map c_id rs"
  by auto

lemma store_inv_step:
  assumes "store_inv db" and "store_step lawful reads db db'"
  shows "store_inv db'"
  using assms(2)
proof cases
  case (created session i w dg project auth retry now)
  from create_run_Inr [OF this] assms(1) show ?thesis
    by (auto simp: store_inv_def row_None_iff row_inv_new_run announced_ok_def)
next
  case (transitioned reducer session i why expected now s)
  obtain r r' where *:
    "r \<in> set (runs db)" "run_step\<^sup>*\<^sup>* (row_to_state r) s" "c_id r' = c_id r"
    "c_revision r' = revision s" "c_status r' = status s" "row_inv (row_to_state r')"
    "runs db' = map (\<lambda>q. if q = r then r' else q) (runs db)"
    "messages (queue db') = messages (queue db) @ [last (messages (queue db'))]"
    "reference (last (messages (queue db'))) = run_reference s" "run_id s = c_id r"
    by (rule transition_row [OF assms(1) transitioned], rule that)
  have "announced_ok db'"
    using assms(1) by (intro announced_transition [OF _ _ *(1-5,7-10)]) (simp_all only: store_inv_def)
  moreover have "distinct (map c_id (runs db'))"
    using assms(1) *(7) replaced_ids [OF *(3)] by (simp only: store_inv_def)
  moreover have "\<forall>q \<in> set (runs db'). row_inv (row_to_state q)"
    using assms(1) *(6,7) by (auto simp: store_inv_def)
  ultimately show ?thesis unfolding store_inv_def by blast
next
  case attempted
  then have "runs db' = runs db" "queue db' = queue db" by (auto simp: start_attempt_def split: if_splits)
  with assms(1) show ?thesis by (simp add: store_inv_def announced_ok_def)
next
  case (claimed locked worker limit now excluded)
  have "announced_ok db'"
  proof (rule announced_ok_frame)
    show "announced_ok db" using assms(1) by (simp only: store_inv_def)
  qed (use claimed in \<open>simp_all add: claim_reference\<close>)
  with assms(1) claimed show ?thesis by (simp add: store_inv_def)
next
  case (published m now)
  have "announced_ok db'"
  proof (rule announced_ok_frame)
    show "announced_ok db" using assms(1) by (simp only: store_inv_def)
  qed (use published in \<open>simp_all add: publish_reference\<close>)
  with assms(1) published show ?thesis by (simp add: store_inv_def)
qed

interpretation store: invariant_system empty_store "store_step lawful reads" store_inv
proof
  show "empty_store s \<Longrightarrow> store_inv s" for s
    by (auto simp: empty_store_def store_inv_def announced_ok_def)
qed (rule store_inv_step)

section \<open>Properties\<close>

lemma lawful_interrupt [simp]: "lawful (\<lambda>s. interrupt s reason e)"
  by (auto simp: lawful_def intro: tranclp.r_into_trancl run_step.interrupted)

lemma lawful_moves: "lawful reducer \<Longrightarrow> reducer s = Inr t \<Longrightarrow> \<not> is_terminal (status s)"
  by (auto simp: lawful_def dest!: tranclpD run_step_nonterminal)

lemma lawful_row:
  assumes "store_inv db" and "r \<in> set (runs db)" and "lawful reducer" and "reducer (row_to_state r) = Inr after"
  shows "row_inv after" and "run_id after = c_id r" and "\<not> is_terminal (c_status r)"
proof -
  have steps: "run_step\<^sup>*\<^sup>* (row_to_state r) after"
    using assms(3,4) by (auto simp: lawful_def dest: tranclp_into_rtranclp)
  show "row_inv after" using assms(1,2) rows.invar_run [OF steps] by (auto simp: store_inv_def)
  show "run_id after = c_id r" using run_steps_id [OF steps] by (simp add: row_to_state_def)
  show "\<not> is_terminal (c_status r)" using lawful_moves [OF assms(3,4)] by (simp add: row_to_state_def)
qed

lemma lawful_checks:
  assumes "store_inv db" and "r \<in> set (runs db)" and "lawful reducer" and "reducer (row_to_state r) = Inr after"
    and "column reads (cancel_requested_at after) = Inr req" and "column reads (stop_acknowledged_at after) = Inr ack"
  shows "run_checks (set_columns after req ack now r)"
proof (rule row_inv_checks, rule row_inv_times)
  show "row_inv after" by (rule lawful_row(1) [OF assms(1-4)])
  have "transitions_to r after (set_columns after req ack now r)"
    unfolding transitions_to_def using column_same [OF assms(5)] column_same [OF assms(6)]
    by (intro exI [of _ req] exI [of _ ack] exI [of _ now]) simp
  from transitions_to_state [OF this lawful_row(2) [OF assms(1-4)]]
  show "same_but_times after (row_to_state (set_columns after req ack now r))" by blast
qed

text \<open>A queued run, and the same run after an interruption.\<close>

definition no_runs :: run_store where
  "no_runs = \<lparr>runs = [], audit = [], queue = \<lparr>messages = [], next_message = 1, jobs = []\<rparr>, attempts = []\<rparr>"

definition queued_row :: stored_run where
  "queued_row = \<lparr>c_id = [114], c_workspace = [119], c_project = None, c_manifest_digest = replicate 64 97,
     c_authorization = None, c_retry_of = None, c_status = QUEUED, c_outcome = NOT_EVALUATED, c_revision = 0,
     c_lease_epoch = 0, c_execution_began = False, c_unresolved_action = False, c_cancel_requested_at = None,
     c_cancellation_revision = None, c_stop_acknowledged_at = None, c_stop_acknowledged_epoch = None,
     c_ambiguity_reason = None, c_quarantined = False, c_updated_at = 0\<rparr>"

definition sample_cause :: cause where
  "sample_cause = \<lparr>cause_operation = [111], cause_topic = [116], cause_user = None, cause_service = Some [115],
     cause_action = None, cause_context = None\<rparr>"

definition interrupted_row :: stored_run where
  "interrupted_row = queued_row\<lparr>c_status := INTERRUPTED, c_outcome := INCONCLUSIVE, c_revision := 1,
     c_ambiguity_reason := Some [120], c_quarantined := True, c_updated_at := 5\<rparr>"

definition interrupted_store :: run_store where
  "interrupted_store = (case apply_transition read_moment [119] [114] (\<lambda>s. interrupt s [120] None) sample_cause None 5
     (no_runs\<lparr>runs := [queued_row]\<rparr>) of Inr (db, s) \<Rightarrow> db | Inl e \<Rightarrow> no_runs)"

lemma sample_created:
  "create_run [119] [114] [119] (replicate 64 97) None None None 0 no_runs = Inr (no_runs\<lparr>runs := [queued_row]\<rparr>)"
  by (simp add: create_run_def no_runs_def queued_row_def is_sha256_hex_def is_lower_hex_def list_all_iff)

lemmas reducer_defs = interrupt_def opening_checks_def advance_def require_nonterminal_def
  require_expected_revision_def blank_def py_space_def is_terminal_def TERMINAL_STATUSES_def

lemma sample_interrupt:
  "interrupt (row_to_state queued_row) [120] None = Inr (row_to_state interrupted_row)"
  by (simp add: reducer_defs row_to_state_def queued_row_def interrupted_row_def)

lemma sample_interrupt_again: "interrupt (row_to_state interrupted_row) [121] None = Inl TerminalRecord"
  by (simp add: reducer_defs row_to_state_def queued_row_def interrupted_row_def)

lemma sample_found:
  "find_run [119] [114] (no_runs\<lparr>runs := [queued_row]\<rparr>) = Some queued_row"
  by (simp add: find_run_def row_def queued_row_def)

lemma sample_write:
  "write_run read_moment [119] (row_to_state queued_row) (row_to_state interrupted_row) 5 (no_runs\<lparr>runs := [queued_row]\<rparr>) =
     Inr (no_runs\<lparr>runs := [interrupted_row]\<rparr>)"
  by (simp add: write_run_found [OF _ sample_found] column_def update_where_def)
    (simp add: row_to_state_def queued_row_def interrupted_row_def run_checks_def set_columns_def is_terminal_def
      TERMINAL_STATUSES_def column_def)

lemma sample_applied:
  "apply_transition read_moment [119] [114] (\<lambda>s. interrupt s [120] None) sample_cause None 5
     (no_runs\<lparr>runs := [queued_row]\<rparr>) = Inr (interrupted_store, row_to_state interrupted_row)"
  and sample_store: "interrupted_store = (no_runs\<lparr>runs := [interrupted_row],
     audit := audit no_runs @ [audit_row (c_workspace queued_row) sample_cause (row_to_state queued_row)
       (row_to_state interrupted_row) 5],
     queue := fst (enqueue_message (c_workspace queued_row) (cause_operation sample_cause) (cause_topic sample_cause)
       (run_reference (row_to_state interrupted_row)) 5 (queue no_runs))\<rparr>)"
  by (simp_all add: interrupted_store_def apply_transition_def sample_found sample_interrupt sample_write Let_def)

lemma sample_interrupted:
  "runs interrupted_store = [interrupted_row]"
  "map reference (messages (queue interrupted_store)) = [PDict
     [(key ''runId'', PStr [114]), (key ''revision'', PInt 1), (key ''status'', PStr (run_status_value INTERRUPTED))]]"
  by (simp_all add: sample_store enqueue_message_def run_reference_def no_runs_def)
    (simp_all add: row_to_state_def interrupted_row_def queued_row_def)

lemma sample_reachable: "reachable empty_store (store_step lawful read_moment) interrupted_store"
proof -
  have "reachable empty_store (store_step lawful read_moment) no_runs"
    by (rule reach_init) (simp add: empty_store_def no_runs_def)
  then have "reachable empty_store (store_step lawful read_moment) (no_runs\<lparr>runs := [queued_row]\<rparr>)"
    by (rule reach_step) (rule store_step.created [OF sample_created])
  moreover have "store_step lawful read_moment (no_runs\<lparr>runs := [queued_row]\<rparr>) interrupted_store"
    by (rule store_step.transitioned [OF _ sample_applied]) simp
  ultimately show ?thesis by (rule reach_step)
qed

text \<open>
  C16: whatever sequence of creations, transitions, attempts, claims and publications a workspace's store
  goes through, every row of the run table obeys the invariants of the reducers, reading a row back through
  text included: its status and outcome are an admissible pair, a CANCELLED run had a recorded request, an
  INTERRUPTED one a reason, and the CHECK constraints of the table hold.
\<close>

theorem stored_runs_lawful:
  assumes "reachable empty_store (store_step lawful reads) db" and "r \<in> set (runs db)"
  shows "is_admissible_pair (c_status r) (c_outcome r) (c_execution_began r) \<and>
    (c_status r = CANCELLED \<longrightarrow> c_cancel_requested_at r \<noteq> None) \<and>
    c_quarantined r = (c_status r = INTERRUPTED) \<and> (c_ambiguity_reason r \<noteq> None) = (c_status r = INTERRUPTED) \<and>
    run_checks r"
proof -
  have "row_inv (row_to_state r)" using store.invar_reachable [OF assms(1)] assms(2) by (simp add: store_inv_def)
  then show ?thesis
    using row_inv_checks [of r]
    by (auto simp: row_inv_def row_to_state_def outcome_ok_def request_ok_def interruption_ok_def
        cancellation_requested_def)
qed

theorem stored_runs_lawful_witness:
  "reachable empty_store (store_step lawful read_moment) interrupted_store \<and> interrupted_row \<in> set (runs interrupted_store) \<and>
     run_checks interrupted_row \<and> c_status interrupted_row = INTERRUPTED"
  using stored_runs_lawful [OF sample_reachable, of interrupted_row] sample_reachable sample_interrupted(1)
  by (simp add: interrupted_row_def)



lemma apply_keeps_terminal:
  assumes "apply_transition reads session i reducer why expected now db = Inr (db', s)"
    and "is_terminal (c_status r)" and "r \<in> set (runs db)"
  shows "r \<in> set (runs db')"
proof -
  let ?hit = "\<lambda>before q. c_workspace q = session \<and> c_id q = run_id before \<and> c_revision q = revision before"
  from assms(1) obtain before db1 where "write_run reads session before s now db = Inr db1" "runs db' = runs db1"
    by (auto simp: apply_transition_def Let_def bind_result_Inr
        split: option.splits if_splits sum.splits transition_error.splits)
  then obtain change where "runs db' = update_where (?hit before) change (runs db)"
    "list_all (\<lambda>q. \<not> is_terminal (c_status q)) (filter (?hit before) (runs db))"
    by (auto simp: write_run_def Let_def bind_result_Inr list_all_iff list_ex_iff split: if_splits)
  with assms(2,3) show ?thesis by (fastforce simp: in_update_where list_all_iff intro!: bexI [of _ r])
qed

lemma step_keeps_terminal:
  assumes "store_step allowed reads db db'" and "is_terminal (c_status r)" and "r \<in> set (runs db)"
  shows "r \<in> set (runs db')"
  using assms(1)
proof cases
  case (transitioned reducer session i why expected now s)
  with assms(2,3) show ?thesis by (blast intro: apply_keeps_terminal)
qed (use assms(3) in \<open>auto simp: create_run_def start_attempt_def split: if_splits\<close>)

text \<open>
  C18: a terminal run is immutable in the database too. Whatever closure a caller hands to the store, lawful
  or not, and whatever else runs, a row that is COMPLETED, INTERRUPTED or CANCELLED stays in the table as it is.
\<close>

theorem terminal_rows_frozen:
  assumes "(store_step (\<lambda>reducer. True) reads)\<^sup>*\<^sup>* db db'" and "is_terminal (c_status r)" and "r \<in> set (runs db)"
  shows "r \<in> set (runs db')"
  using assms(1,3) by (induction rule: rtranclp_induct) (auto intro: step_keeps_terminal assms(2))

theorem terminal_rows_frozen_witness:
  "interrupted_row \<in> set (runs (interrupted_store\<lparr>queue := mark_published 1 9 (queue interrupted_store)\<rparr>))"
proof -
  let ?db = "interrupted_store\<lparr>queue := mark_published 1 9 (queue interrupted_store)\<rparr>"
  have "store_step (\<lambda>reducer. True) read_moment interrupted_store ?db" by (rule store_step.published)
  then have "(store_step (\<lambda>reducer. True) read_moment)\<^sup>*\<^sup>* interrupted_store ?db" by blast
  from terminal_rows_frozen [OF this] show ?thesis
    by (simp add: sample_interrupted(1) interrupted_row_def is_terminal_def TERMINAL_STATUSES_def)
qed

text \<open>
  C19: what the outbox announces was committed. Every message that speaks of a run, whoever has claimed or
  published it since, names a run of the table and a revision that run really reached, with the status it
  then had as long as the run has not moved on.
\<close>

theorem announcements_are_committed:
  assumes "reachable empty_store (store_step lawful reads) db" and "m \<in> set (messages (queue db))"
    and "reference m = PDict [(key ''runId'', PStr i), (key ''revision'', PInt v), (key ''status'', PStr st)]"
  shows "\<exists>r \<in> set (runs db). c_id r = i \<and> v \<le> c_revision r \<and>
    (v = c_revision r \<longrightarrow> st = run_status_value (c_status r))"
  using store.invar_reachable [OF assms(1)] assms(2,3)
  unfolding store_inv_def announced_ok_def announces_def by blast

theorem announcements_are_committed_witness:
  "\<exists>r \<in> set (runs interrupted_store). c_id r = [114] \<and> 1 \<le> c_revision r \<and>
     (1 = c_revision r \<longrightarrow> run_status_value INTERRUPTED = run_status_value (c_status r))"
proof -
  obtain m where "m \<in> set (messages (queue interrupted_store))" "reference m =
      PDict [(key ''runId'', PStr [114]), (key ''revision'', PInt 1), (key ''status'', PStr (run_status_value INTERRUPTED))]"
    using sample_interrupted(2) by (auto simp: map_eq_Cons_conv)
  from announcements_are_committed [OF sample_reachable this] show ?thesis .
qed

end
