(* ===== verification/Desktops.thy ===== *)
theory Desktops
  imports Run_Journal Preflight
begin

text \<open>
  Physical desktops and who holds them (\<open>persistence/runners.py\<close>, the tables of migration 0008): the
  runner registry, enrollment, preflight, desktop leases, the action journal, expiry and reset. The
  tables hold the rows of one workspace, which is what a session sees. Identifiers the code draws are
  arguments; \<open>now\<close> is the moment of the call. What the code asks of candidate and baseline runs before
  it grants or uses a lease is the parameter \<open>gates\<close>. A constraint the database enforces is an error.
\<close>

section \<open>Tables\<close>

datatype release_reason =
    RELEASED_COMPLETED | STOP_ACKNOWLEDGED | EXPIRED_WITHOUT_STOP_PROOF | RELEASED_AMBIGUOUS
  | OPERATOR_RESET | SUPERSEDED_BY_RESET

datatype action_result = ACTION_SUCCEEDED | ACTION_FAILED | ACTION_AMBIGUOUS

record registered_runner =
  rn_id :: pytext
  rn_name :: pytext
  rn_status :: runner_status
  rn_session :: pytext
  rn_platform :: pytext
  rn_profile :: runner_profile
  rn_profile_digest :: pytext
  rn_epoch :: int
  rn_quarantine :: "quarantine_reason option"
  rn_quarantined_at :: "timestamptz option"
  rn_revoked_at :: "timestamptz option"
  rn_updated :: timestamptz
  rn_revision :: int

record enrollment_token =
  token_id :: pytext
  token_digest :: pytext
  token_expires :: timestamptz
  token_redeemed :: "timestamptz option"
  token_runner :: "pytext option"
  token_creator :: pytext

record preflight_row =
  pf_id :: pytext
  pf_runner :: pytext
  pf_epoch :: int
  pf_result :: preflight_result
  pf_successful :: bool
  pf_refusal :: pytext
  pf_drift :: "(pytext \<times> pytext \<times> pytext) list"
  pf_recorded :: timestamptz

record desktop_lease =
  l_id :: pytext
  l_runner :: pytext
  l_session :: pytext
  l_run :: pytext
  l_attempt :: pytext
  l_epoch :: int
  l_granted :: timestamptz
  l_deadline :: timestamptz
  l_heartbeat :: timestamptz
  l_released :: "timestamptz option"
  l_reason :: "release_reason option"
  l_cancel_at :: "timestamptz option"
  l_cancel_revision :: "int option"
  l_stop_at :: "timestamptz option"
  l_stop_epoch :: "int option"

record runner_action =
  a_id :: pytext
  a_lease :: pytext
  a_run :: pytext
  a_attempt :: pytext
  a_epoch :: int
  a_sequence :: int
  a_action :: pytext
  a_chord :: "pytext option"
  a_text :: "pytext option"
  a_origin :: pytext
  a_intent :: timestamptz
  a_dispatched :: "timestamptz option"
  a_result_at :: "timestamptz option"
  a_status :: "action_result option"
  a_detail :: "pytext option"
  a_ambiguity :: "ambiguity_reason option"

record runner_reset =
  rs_id :: pytext
  rs_runner :: pytext
  rs_epoch :: int
  rs_requester :: pytext
  rs_succeeded :: bool
  rs_proof :: pyval
  rs_created :: timestamptz

record fleet =
  store :: run_store
  registry :: "registered_runner list"
  tokens :: "enrollment_token list"
  preflights :: "preflight_row list"
  leases :: "desktop_lease list"
  journal :: "runner_action list"
  resets :: "runner_reset list"

datatype fleet_error =
    TtlOutOfRange | PlatformsDisagree | TokenUnusable | AlreadyEnrolled | Identity enrollment_error
  | NoSuchRunner | RunnerRevoked | LeaseActive | NoRunnerForReader | NoRunnerForReaderVersion
  | AllMatchingQuarantined | NoReadyRunner | QueueFull
  | RunNotLive | SetupUnresolved | DesktopQuarantined | DesktopHeld | NotReady | LeaseNotBound
  | NoActiveLease | NoSuchLease | LeaseReleased | EpochMismatch | NothingCancelled | ActionsUnresolved
  | AlreadyDispatched | NotAResult | NoUnresolvedAction | CancellationNeverRequested | StopNotAcknowledged
  | RefusedPreflight preflight_error | RefusedRun store_error
  | UniqueViolation | CheckViolation | ForeignKeyViolation

type_synonym 'a fleet_result = "(fleet_error, 'a) result"

text \<open>What candidate and baseline runs and fixture setup say of a run.\<close>

record run_gates =
  run_live :: "pytext \<Rightarrow> bool"
  setup_unresolved :: "pytext \<Rightarrow> bool"
  lease_recorded :: "pytext \<Rightarrow> pytext \<Rightarrow> int \<Rightarrow> bool"
  lease_asserted :: "pytext \<Rightarrow> pytext \<Rightarrow> int \<Rightarrow> bool"

section \<open>Rows and constraints\<close>

definition revoked :: "registered_runner \<Rightarrow> bool" where
  "revoked r \<longleftrightarrow> rn_revoked_at r \<noteq> None"

definition active :: "desktop_lease \<Rightarrow> bool" where
  "active l \<longleftrightarrow> l_released l = None"

definition unresolved :: "runner_action \<Rightarrow> bool" where
  "unresolved a \<longleftrightarrow> a_result_at a = None"

definition runner_checks :: "registered_runner \<Rightarrow> bool" where
  "runner_checks r \<longleftrightarrow>
     (rn_status r = QUARANTINED) = (rn_quarantine r \<noteq> None) \<and>
     (rn_quarantine r = None) = (rn_quarantined_at r = None) \<and> 0 \<le> rn_epoch r \<and> 1 \<le> rn_revision r"

definition lease_checks :: "desktop_lease \<Rightarrow> bool" where
  "lease_checks l \<longleftrightarrow> 1 \<le> l_epoch l \<and> (l_released l = None) = (l_reason l = None) \<and>
     (l_cancel_at l = None) = (l_cancel_revision l = None) \<and> (l_stop_at l = None) = (l_stop_epoch l = None)"

definition action_checks :: "runner_action \<Rightarrow> bool" where
  "action_checks a \<longleftrightarrow> 1 \<le> a_epoch a \<and> 1 \<le> a_sequence a \<and>
     (a_result_at a = None) = (a_status a = None) \<and>
     (a_status a = None \<or> (a_ambiguity a \<noteq> None) = (a_status a = Some ACTION_AMBIGUOUS)) \<and>
     (case a_dispatched a of None \<Rightarrow> True | Some t \<Rightarrow> a_intent a \<le> t)"

definition find_runner :: "pytext \<Rightarrow> fleet \<Rightarrow> registered_runner option" where
  "find_runner i db = row rn_id i (registry db)"

definition find_lease :: "pytext \<Rightarrow> fleet \<Rightarrow> desktop_lease option" where
  "find_lease i db = row l_id i (leases db)"

text \<open>\<open>UPDATE runner ... WHERE id\<close>\<close>

definition change_runner ::
  "pytext \<Rightarrow> (registered_runner \<Rightarrow> registered_runner) \<Rightarrow> fleet \<Rightarrow> fleet fleet_result" where
  "change_runner i f db =
     (if list_ex (\<lambda>r. rn_id r = i \<and> \<not> runner_checks (f r)) (registry db) then Inl CheckViolation
      else Inr (db\<lparr>registry := update_where (\<lambda>r. rn_id r = i) f (registry db)\<rparr>))"

definition set_status :: "runner_status \<Rightarrow> timestamptz \<Rightarrow> registered_runner \<Rightarrow> registered_runner" where
  "set_status s now r = r\<lparr>rn_status := s, rn_updated := now, rn_revision := rn_revision r + 1\<rparr>"

definition clear_quarantine :: "registered_runner \<Rightarrow> registered_runner" where
  "clear_quarantine r = r\<lparr>rn_quarantine := None, rn_quarantined_at := None\<rparr>"

definition quarantine :: "pytext \<Rightarrow> quarantine_reason \<Rightarrow> timestamptz \<Rightarrow> fleet \<Rightarrow> fleet fleet_result" where
  "quarantine i why now db =
     change_runner i (\<lambda>r. (set_status QUARANTINED now r)
       \<lparr>rn_quarantine := Some why, rn_quarantined_at := Some now\<rparr>) db"

section \<open>Enrollment\<close>

definition digest_token :: "pytext \<Rightarrow> pytext fleet_result" where
  "digest_token t = (case encode_utf8 t of
     Inl e \<Rightarrow> Inl (Identity (NotDigestible e)) | Inr bs \<Rightarrow> Inr (hex (sha256 bs)))"

definition issue_enrollment_token ::
  "pytext \<Rightarrow> pytext \<Rightarrow> pytext \<Rightarrow> int \<Rightarrow> timestamptz \<Rightarrow> fleet \<Rightarrow> fleet fleet_result" where
  "issue_enrollment_token fresh secret creator ttl now db =
     (if ttl < 1 \<or> 3600 < ttl then Inl TtlOutOfRange
      else bind_result (digest_token secret) (\<lambda>dg.
        if list_ex (\<lambda>t. token_id t = fresh \<or> token_digest t = dg) (tokens db) then Inl UniqueViolation
        else Inr (db\<lparr>tokens := tokens db @
          [\<lparr>token_id = fresh, token_digest = dg, token_expires = now + seconds ttl,
            token_redeemed = None, token_runner = None, token_creator = creator\<rparr>]\<rparr>)))"

definition redeemable :: "pytext \<Rightarrow> timestamptz \<Rightarrow> enrollment_token \<Rightarrow> bool" where
  "redeemable dg now t \<longleftrightarrow> token_digest t = dg \<and> token_redeemed t = None \<and> now < token_expires t"

definition new_runner ::
  "pytext \<Rightarrow> pytext \<Rightarrow> pytext \<Rightarrow> pytext \<Rightarrow> physical_session \<Rightarrow> runner_profile \<Rightarrow> timestamptz \<Rightarrow> registered_runner" where
  "new_runner fresh name desktop pd session profile now =
     \<lparr>rn_id = fresh, rn_name = name, rn_status = PREFLIGHT_REQUIRED, rn_session = desktop,
      rn_platform = session_platform session, rn_profile = profile, rn_profile_digest = pd,
      rn_epoch = 0, rn_quarantine = None, rn_quarantined_at = None, rn_revoked_at = None,
      rn_updated = now, rn_revision = 1\<rparr>"

definition enroll_runner ::
  "pytext \<Rightarrow> pytext \<Rightarrow> pytext \<Rightarrow> physical_session \<Rightarrow> runner_profile \<Rightarrow> timestamptz \<Rightarrow> fleet \<Rightarrow> fleet fleet_result" where
  "enroll_runner fresh secret name session profile now db =
     (if profile_platform profile \<noteq> session_platform session then Inl PlatformsDisagree
      else bind_result (digest_token secret) (\<lambda>dg.
        if \<not> list_ex (redeemable dg now) (tokens db) then Inl TokenUnusable
        else bind_result (map_error Identity (session_key session)) (\<lambda>desktop.
          bind_result (map_error Identity (profile_digest profile)) (\<lambda>pd.
          if \<not> is_sha256_hex desktop \<or> \<not> is_sha256_hex pd \<or>
            session_platform session \<notin> {str ''darwin'', str ''win32''} then Inl CheckViolation
          else if list_ex (\<lambda>r. rn_id r = fresh \<or> \<not> revoked r \<and> rn_session r = desktop) (registry db)
          then Inl AlreadyEnrolled
          else Inr (db\<lparr>registry := registry db @ [new_runner fresh name desktop pd session profile now],
            tokens := update_where (redeemable dg now)
              (\<lambda>t. t\<lparr>token_redeemed := Some now, token_runner := Some fresh\<rparr>) (tokens db)\<rparr>)))))"

definition revoke_runner :: "pytext \<Rightarrow> timestamptz \<Rightarrow> fleet \<Rightarrow> fleet fleet_result" where
  "revoke_runner i now db =
     (if list_ex (\<lambda>l. l_runner l = i \<and> active l) (leases db) then Inl LeaseActive
      else if \<not> list_ex (\<lambda>r. rn_id r = i \<and> \<not> revoked r) (registry db) then Inl NoSuchRunner
      else change_runner i (\<lambda>r. if revoked r then r
        else clear_quarantine ((set_status OFFLINE now r)\<lparr>rn_revoked_at := Some now\<rparr>)) db)"

section \<open>Preflight\<close>

text \<open>Which observations differ from what was enrolled, as (label, expected, observed).\<close>

definition profile_drift :: "runner_profile \<Rightarrow> preflight_result \<Rightarrow> (pytext \<times> pytext \<times> pytext) list" where
  "profile_drift enrolled result = filter (\<lambda>(label, expected, observed). expected \<noteq> observed)
     [(str ''reader version'', reader_version enrolled, observed_reader_version result),
      (str ''browser version'', browser_version enrolled, observed_browser_version result),
      (str ''locale'', locale_name enrolled, observed_locale result),
      (str ''keyboard layout'', keyboard_layout enrolled, observed_keyboard_layout result)]"

text \<open>The refusal text a submission is recorded with; the drift that joins it is kept beside it.\<close>

definition preflight_verdict :: "registered_runner \<Rightarrow> preflight_result \<Rightarrow> bool \<times> pytext" where
  "preflight_verdict r result =
     (is_successful result \<and> profile_drift (rn_profile r) result = [] \<and>
        runner_profile_digest result = rn_profile_digest r,
      join_texts (str ''; '') (filter (\<lambda>t. t \<noteq> [])
        [refusal_summary result,
         if runner_profile_digest result = rn_profile_digest r then []
         else str ''the preflight names a different runner profile digest than the one this runner enrolled with, so it is evidence about a different environment'']))"

definition preflight_entry :: "pytext \<Rightarrow> registered_runner \<Rightarrow> preflight_result \<Rightarrow> timestamptz \<Rightarrow> preflight_row" where
  "preflight_entry fresh r result now =
     \<lparr>pf_id = fresh, pf_runner = rn_id r, pf_epoch = rn_epoch r, pf_result = result,
      pf_successful = fst (preflight_verdict r result), pf_refusal = snd (preflight_verdict r result),
      pf_drift = profile_drift (rn_profile r) result, pf_recorded = now\<rparr>"

definition record_preflight ::
  "pytext \<Rightarrow> pytext \<Rightarrow> preflight_result \<Rightarrow> timestamptz \<Rightarrow> fleet \<Rightarrow> (fleet \<times> bool) fleet_result" where
  "record_preflight fresh i result now db =
     (case find_runner i db of
        None \<Rightarrow> Inl NoSuchRunner
      | Some r \<Rightarrow>
          if revoked r then Inl RunnerRevoked
          else if list_ex (\<lambda>p. pf_id p = fresh) (preflights db) then Inl UniqueViolation
          else if \<not> list_all is_sha256_hex [runner_profile_digest result, environment_config_digest result,
              preflight_manifest_digest result] then Inl CheckViolation
          else
            let db1 = db\<lparr>preflights := preflights db @ [preflight_entry fresh r result now]\<rparr>
            in if fst (preflight_verdict r result)
               then bind_result (map_error RefusedPreflight
                   (assert_runner_transition (rn_status r) READY (Some result))) (\<lambda>_.
                 bind_result (change_runner i (clear_quarantine \<circ> set_status READY now) db1) (\<lambda>db2.
                 Inr (db2, True)))
               else bind_result (quarantine i
                   (if profile_drift (rn_profile r) result \<noteq> [] then PROFILE_DRIFTED else PREFLIGHT_FAILED) now db1) (\<lambda>db2.
                 Inr (db2, False)))"

section \<open>Matching and backpressure\<close>

definition match_runners ::
  "pytext \<Rightarrow> pytext \<Rightarrow> pytext option \<Rightarrow> fleet \<Rightarrow> registered_runner list fleet_result" where
  "match_runners platform reader version db =
     (let rows = filter (\<lambda>r. \<not> revoked r \<and> rn_platform r = platform \<and> reader_name (rn_profile r) = reader)
            (registry db);
          exact = (case version of None \<Rightarrow> rows | Some v \<Rightarrow> filter (\<lambda>r. reader_version (rn_profile r) = v) rows);
          ready = filter (\<lambda>r. rn_status r = READY) exact
      in if rows = [] then Inl NoRunnerForReader
         else if exact = [] then Inl NoRunnerForReaderVersion
         else if ready \<noteq> [] then Inr ready
         else if list_ex (\<lambda>r. rn_status r = QUARANTINED) exact then Inl AllMatchingQuarantined
         else Inl NoReadyRunner)"

definition MAX_QUEUED_RUNS_PER_WORKSPACE :: nat where
  "MAX_QUEUED_RUNS_PER_WORKSPACE = 50"

definition assert_queue_capacity :: "pytext \<Rightarrow> nat \<Rightarrow> fleet \<Rightarrow> nat fleet_result" where
  "assert_queue_capacity session limit db =
     (let queued = length (filter (\<lambda>r. c_workspace r = session \<and> c_status r = QUEUED) (runs (store db)))
      in if limit \<le> queued then Inl QueueFull else Inr queued)"

section \<open>Leases\<close>

definition DEFAULT_LEASE_SECONDS :: int where
  "DEFAULT_LEASE_SECONDS = 300"

definition service_cause :: "pytext \<Rightarrow> pytext \<Rightarrow> pytext \<Rightarrow> pytext \<Rightarrow> cause" where
  "service_cause op subject service action' =
     \<lparr>cause_operation = op, cause_topic = subject, cause_user = None, cause_service = Some service,
      cause_action = Some action', cause_context = None\<rparr>"

text \<open>\<open>_operation_id\<close> is the argument \<open>op\<close>; \<open>reads\<close> is what the run table reads moments with.\<close>

definition move_run ::
  "(pytext \<Rightarrow> timestamptz option) \<Rightarrow> pytext \<Rightarrow> pytext \<Rightarrow> (run_state \<Rightarrow> transition) \<Rightarrow> cause \<Rightarrow> int option \<Rightarrow>
     timestamptz \<Rightarrow> fleet \<Rightarrow> fleet fleet_result" where
  "move_run reads session run reducer why expected now db =
     bind_result (map_error RefusedRun (apply_transition reads session run reducer why expected now (store db)))
       (\<lambda>(s, _). Inr (db\<lparr>store := s\<rparr>))"

definition new_lease ::
  "pytext \<Rightarrow> pytext \<Rightarrow> pytext \<Rightarrow> pytext \<Rightarrow> pytext \<Rightarrow> int \<Rightarrow> int \<Rightarrow> timestamptz \<Rightarrow> desktop_lease" where
  "new_lease fresh i desktop run attempt epoch ttl now =
     \<lparr>l_id = fresh, l_runner = i, l_session = desktop, l_run = run, l_attempt = attempt, l_epoch = epoch,
      l_granted = now, l_deadline = now + seconds ttl, l_heartbeat = now, l_released = None,
      l_reason = None, l_cancel_at = None, l_cancel_revision = None, l_stop_at = None, l_stop_epoch = None\<rparr>"

text \<open>The unique indexes of the lease table refuse a row.\<close>

definition lease_conflict :: "desktop_lease \<Rightarrow> desktop_lease list \<Rightarrow> bool" where
  "lease_conflict n ls \<longleftrightarrow> list_ex (\<lambda>l. l_id l = l_id n \<or> l_runner l = l_runner n \<and> l_epoch l = l_epoch n \<or>
     active l \<and> (l_session l = l_session n \<or> l_run l = l_run n)) ls"

definition grant :: "int \<Rightarrow> timestamptz \<Rightarrow> registered_runner \<Rightarrow> registered_runner" where
  "grant epoch now r = (set_status BUSY now r)\<lparr>rn_epoch := epoch\<rparr>"

definition admit_lease ::
  "run_gates \<Rightarrow> (pytext \<Rightarrow> timestamptz option) \<Rightarrow> pytext \<Rightarrow> pytext \<Rightarrow> pytext \<Rightarrow> pytext \<Rightarrow> pytext \<Rightarrow> int \<Rightarrow> pytext \<Rightarrow>
     timestamptz \<Rightarrow> fleet \<Rightarrow> (fleet \<times> int) fleet_result" where
  "admit_lease gates reads session fresh i run attempt ttl op now db =
     (if ttl < 1 \<or> 3600 < ttl then Inl TtlOutOfRange
      else if \<not> run_live gates run then Inl RunNotLive
      else case find_runner i db of
        None \<Rightarrow> Inl NoSuchRunner
      | Some r \<Rightarrow>
          if revoked r then Inl RunnerRevoked
          else if setup_unresolved gates run then Inl SetupUnresolved
          else if rn_status r = QUARANTINED then Inl DesktopQuarantined
          else if list_ex (\<lambda>l. l_session l = rn_session r \<and> active l) (leases db) then Inl DesktopHeld
          else if rn_status r \<noteq> READY then Inl NotReady
          else
            let epoch = rn_epoch r + 1; lease = new_lease fresh i (rn_session r) run attempt epoch ttl now
            in if \<not> lease_checks lease then Inl CheckViolation
               else if lease_conflict lease (leases db) then Inl DesktopHeld
               else if find_run session run (store db) = None then Inl ForeignKeyViolation
               else bind_result (change_runner i (grant epoch now) (db\<lparr>leases := leases db @ [lease]\<rparr>)) (\<lambda>db1.
                 bind_result (map_error RefusedRun (load_run session run (store db1))) (\<lambda>(state, _).
                 bind_result (move_run reads session run (\<lambda>s. admit_to_desktop s epoch (Some (revision s)))
                   (service_cause op (str ''run.leased'') (str ''runner-control-plane'')
                     (str ''DESKTOP_LEASE_ADMITTED''))
                   (Some (revision state)) now db1) (\<lambda>db2.
                 if lease_recorded gates run fresh epoch then Inr (db2, epoch) else Inl LeaseNotBound))))"

definition change_lease :: "(desktop_lease \<Rightarrow> bool) \<Rightarrow> (desktop_lease \<Rightarrow> desktop_lease) \<Rightarrow> fleet \<Rightarrow> fleet fleet_result" where
  "change_lease hit f db =
     (if list_ex (\<lambda>l. hit l \<and> \<not> lease_checks (f l)) (leases db) then Inl CheckViolation
      else Inr (db\<lparr>leases := update_where hit f (leases db)\<rparr>))"

definition heartbeat_lease :: "pytext \<Rightarrow> int \<Rightarrow> int \<Rightarrow> timestamptz \<Rightarrow> fleet \<Rightarrow> (fleet \<times> timestamptz) fleet_result" where
  "heartbeat_lease i epoch extension now db =
     (let hit = (\<lambda>l. l_id l = i \<and> l_epoch l = epoch \<and> active l); deadline = now + seconds extension
      in if \<not> list_ex hit (leases db) then Inl NoActiveLease
         else bind_result (change_lease hit (\<lambda>l. l\<lparr>l_heartbeat := now, l_deadline := deadline\<rparr>) db)
           (\<lambda>db1. Inr (db1, deadline)))"

definition coalesce :: "'a option \<Rightarrow> 'a \<Rightarrow> 'a option" where
  "coalesce x y = (case x of None \<Rightarrow> Some y | Some _ \<Rightarrow> x)"

definition release_lease :: "release_reason \<Rightarrow> timestamptz \<Rightarrow> desktop_lease \<Rightarrow> desktop_lease" where
  "release_lease why now l = l\<lparr>l_released := coalesce (l_released l) now, l_reason := coalesce (l_reason l) why\<rparr>"

definition cancel_lease :: "pytext \<Rightarrow> int \<Rightarrow> timestamptz \<Rightarrow> fleet \<Rightarrow> fleet fleet_result" where
  "cancel_lease i cancellation now db =
     (let hit = (\<lambda>l. l_id l = i \<and> active l)
      in if \<not> list_ex hit (leases db) then Inl NoActiveLease
         else change_lease hit (\<lambda>l. l\<lparr>l_cancel_at := coalesce (l_cancel_at l) now,
           l_cancel_revision := coalesce (l_cancel_revision l) cancellation\<rparr>) db)"

definition acknowledge_lease_stop :: "pytext \<Rightarrow> int \<Rightarrow> timestamptz \<Rightarrow> fleet \<Rightarrow> fleet fleet_result" where
  "acknowledge_lease_stop i epoch now db =
     (case find_lease i db of
        None \<Rightarrow> Inl NoSuchLease
      | Some l \<Rightarrow>
          if \<not> active l then Inl LeaseReleased
          else if l_epoch l \<noteq> epoch then Inl EpochMismatch
          else if l_cancel_at l = None then Inl NothingCancelled
          else if list_ex (\<lambda>a. a_lease a = i \<and> unresolved a) (journal db) then Inl ActionsUnresolved
          else bind_result (change_lease (\<lambda>q. l_id q = i)
              (\<lambda>q. q\<lparr>l_stop_at := Some now, l_stop_epoch := Some epoch, l_released := Some now,
                l_reason := Some STOP_ACKNOWLEDGED\<rparr>) db) (\<lambda>db1.
            change_runner (l_runner l) (set_status PREFLIGHT_REQUIRED now) db1))"

definition may_cancel_immediately :: "pytext \<Rightarrow> fleet \<Rightarrow> bool" where
  "may_cancel_immediately run db \<longleftrightarrow> \<not> list_ex (\<lambda>l. l_run l = run) (leases db)"

section \<open>The action journal\<close>

definition new_action ::
  "pytext \<Rightarrow> pytext \<Rightarrow> pytext \<Rightarrow> pytext \<Rightarrow> int \<Rightarrow> int \<Rightarrow> pytext \<Rightarrow> pytext \<Rightarrow> pytext option \<Rightarrow> pytext option \<Rightarrow>
     timestamptz \<Rightarrow> runner_action" where
  "new_action fresh lease run attempt epoch sequence action' origin chord text' now =
     \<lparr>a_id = fresh, a_lease = lease, a_run = run, a_attempt = attempt, a_epoch = epoch,
      a_sequence = sequence, a_action = action', a_chord = chord, a_text = text', a_origin = origin,
      a_intent = now, a_dispatched = None, a_result_at = None, a_status = None, a_detail = None,
      a_ambiguity = None\<rparr>"

definition record_action_intent ::
  "pytext \<Rightarrow> pytext \<Rightarrow> pytext \<Rightarrow> pytext \<Rightarrow> pytext \<Rightarrow> int \<Rightarrow> int \<Rightarrow> pytext \<Rightarrow> pytext \<Rightarrow> pytext option \<Rightarrow>
     pytext option \<Rightarrow> timestamptz \<Rightarrow> fleet \<Rightarrow> fleet fleet_result" where
  "record_action_intent session fresh lease run attempt epoch sequence action' origin chord text' now db =
     (case find_lease lease db of
        None \<Rightarrow> Inl NoSuchLease
      | Some l \<Rightarrow>
          if l_epoch l \<noteq> epoch then Inl EpochMismatch
          else if \<not> active l then Inl LeaseReleased
          else
            let a = new_action fresh lease run attempt epoch sequence action' origin chord text' now
            in if \<not> action_checks a then Inl CheckViolation
               else if list_ex (\<lambda>b. a_id b = fresh \<or>
                   a_run b = run \<and> a_attempt b = attempt \<and> a_sequence b = sequence) (journal db)
               then Inl UniqueViolation
               else if find_run session run (store db) = None then Inl ForeignKeyViolation
               else Inr (db\<lparr>journal := journal db @ [a]\<rparr>))"

definition change_actions :: "(runner_action \<Rightarrow> bool) \<Rightarrow> (runner_action \<Rightarrow> runner_action) \<Rightarrow> fleet \<Rightarrow> fleet fleet_result" where
  "change_actions hit f db =
     (if list_ex (\<lambda>a. hit a \<and> \<not> action_checks (f a)) (journal db) then Inl CheckViolation
      else Inr (db\<lparr>journal := update_where hit f (journal db)\<rparr>))"

definition mark_action_dispatched :: "pytext \<Rightarrow> timestamptz \<Rightarrow> fleet \<Rightarrow> fleet fleet_result" where
  "mark_action_dispatched i now db =
     (let hit = (\<lambda>a. a_id a = i \<and> a_dispatched a = None)
      in if \<not> list_ex hit (journal db) then Inl AlreadyDispatched
         else change_actions hit (\<lambda>a. a\<lparr>a_dispatched := Some now\<rparr>) db)"

definition record_action_result :: "pytext \<Rightarrow> action_result \<Rightarrow> pytext \<Rightarrow> timestamptz \<Rightarrow> fleet \<Rightarrow> fleet fleet_result" where
  "record_action_result i result detail now db =
     (let hit = (\<lambda>a. a_id a = i \<and> unresolved a)
      in if result \<notin> {ACTION_SUCCEEDED, ACTION_FAILED} then Inl NotAResult
         else if \<not> list_ex hit (journal db) then Inl NoUnresolvedAction
         else change_actions hit (\<lambda>a. a\<lparr>a_result_at := Some now, a_status := Some result,
           a_detail := Some detail\<rparr>) db)"

definition mark_action_ambiguous ::
  "pytext \<Rightarrow> ambiguity_reason \<Rightarrow> pytext \<Rightarrow> timestamptz \<Rightarrow> fleet \<Rightarrow> fleet fleet_result" where
  "mark_action_ambiguous i why detail now db =
     (case List.find (\<lambda>a. a_id a = i \<and> unresolved a) (journal db) of
        None \<Rightarrow> Inl NoUnresolvedAction
      | Some a \<Rightarrow>
          bind_result (change_actions (\<lambda>b. a_id b = i \<and> unresolved b)
            (\<lambda>b. b\<lparr>a_result_at := Some now, a_status := Some ACTION_AMBIGUOUS, a_detail := Some detail,
              a_ambiguity := Some why\<rparr>) db) (\<lambda>db1.
          case find_lease (a_lease a) db1 of
            None \<Rightarrow> Inr db1
          | Some l \<Rightarrow>
              bind_result (change_lease (\<lambda>q. l_id q = a_lease a) (release_lease RELEASED_AMBIGUOUS now) db1)
                (quarantine (l_runner l) AMBIGUOUS_ACTION now)))"

fun before_sequence :: "runner_action \<Rightarrow> runner_action list \<Rightarrow> runner_action list" where
  "before_sequence a [] = [a]"
| "before_sequence a (b # bs) = (if a_sequence a \<le> a_sequence b then a # b # bs else b # before_sequence a bs)"

definition unresolved_actions :: "pytext \<Rightarrow> fleet \<Rightarrow> runner_action list" where
  "unresolved_actions lease db =
     foldr before_sequence (filter (\<lambda>a. a_lease a = lease \<and> unresolved a) (journal db)) []"

section \<open>Expiry and reset\<close>

fun quarantine_all :: "pytext list \<Rightarrow> quarantine_reason \<Rightarrow> timestamptz \<Rightarrow> fleet \<Rightarrow> fleet fleet_result" where
  "quarantine_all [] why now db = Inr db"
| "quarantine_all (i # is') why now db = bind_result (quarantine i why now db) (quarantine_all is' why now)"

definition expired :: "timestamptz \<Rightarrow> desktop_lease \<Rightarrow> bool" where
  "expired now l \<longleftrightarrow> active l \<and> l_deadline l \<le> now"

definition fence_expired_leases :: "timestamptz \<Rightarrow> fleet \<Rightarrow> (fleet \<times> pytext list) fleet_result" where
  "fence_expired_leases now db =
     (let fenced = filter (expired now) (leases db)
      in bind_result (change_lease (expired now) (release_lease EXPIRED_WITHOUT_STOP_PROOF now) db) (\<lambda>db1.
         bind_result (quarantine_all (map l_runner fenced) LEASE_EXPIRED_WITHOUT_STOP_PROOF now db1) (\<lambda>db2.
         Inr (db2, map l_id fenced))))"

definition reset_runner ::
  "pytext \<Rightarrow> pytext \<Rightarrow> pytext \<Rightarrow> bool \<Rightarrow> pyval \<Rightarrow> timestamptz \<Rightarrow> fleet \<Rightarrow> fleet fleet_result" where
  "reset_runner fresh i requester succeeded proof' now db =
     (case find_runner i db of
        None \<Rightarrow> Inl NoSuchRunner
      | Some r \<Rightarrow>
          if revoked r then Inl RunnerRevoked
          else if list_ex (\<lambda>x. rs_id x = fresh) (resets db) then Inl UniqueViolation
          else
            let db1 = db\<lparr>resets := resets db @
              [\<lparr>rs_id = fresh, rs_runner = i, rs_epoch = rn_epoch r, rs_requester = requester,
                rs_succeeded = succeeded, rs_proof = proof', rs_created = now\<rparr>]\<rparr>
            in bind_result (change_lease (\<lambda>l. l_runner l = i \<and> active l)
                 (release_lease SUPERSEDED_BY_RESET now) db1) (\<lambda>db2.
               if succeeded then change_runner i (clear_quarantine \<circ> set_status PREFLIGHT_REQUIRED now) db2
               else quarantine i RESET_FAILED now db2))"

section \<open>Terminalizing an attempt\<close>

fun ambiguity_value :: "ambiguity_reason \<Rightarrow> pytext" where
  "ambiguity_value ACTION_RESULT_NEVER_ARRIVED = str ''ACTION_RESULT_NEVER_ARRIVED''"
| "ambiguity_value STOP_ACKNOWLEDGEMENT_LOST = str ''STOP_ACKNOWLEDGEMENT_LOST''"
| "ambiguity_value LEASE_EXPIRED_MID_ACTION = str ''LEASE_EXPIRED_MID_ACTION''"
| "ambiguity_value SUPERVISOR_CRASHED_AFTER_INTENT = str ''SUPERVISOR_CRASHED_AFTER_INTENT''"
| "ambiguity_value CLOCK_DISCONTINUITY = str ''CLOCK_DISCONTINUITY''"

definition terminalize_ambiguous_attempt ::
  "(pytext \<Rightarrow> timestamptz option) \<Rightarrow> pytext \<Rightarrow> pytext \<Rightarrow> pytext \<Rightarrow> ambiguity_reason \<Rightarrow> int \<Rightarrow> pytext \<Rightarrow>
     pytext \<Rightarrow> pytext \<Rightarrow> timestamptz \<Rightarrow> fleet \<Rightarrow> fleet fleet_result" where
  "terminalize_ambiguous_attempt reads session run i why expected detail service op now db =
     bind_result (mark_action_ambiguous i why detail now db)
       (move_run reads session run (\<lambda>s. interrupt s (ambiguity_value why) (Some expected))
         (service_cause op (str ''run.interrupted'') service (str ''RUN_INTERRUPTED_AMBIGUOUS_ACTION''))
         (Some expected) now)"

text \<open>The lease of a run with the highest epoch.\<close>

fun latest_lease :: "desktop_lease list \<Rightarrow> desktop_lease option" where
  "latest_lease [] = None"
| "latest_lease (l # ls) = (case latest_lease ls of
     None \<Rightarrow> Some l | Some m \<Rightarrow> Some (if l_epoch m \<le> l_epoch l then l else m))"

definition stop_proved :: "pytext \<Rightarrow> fleet \<Rightarrow> unit fleet_result" where
  "stop_proved run db =
     (case latest_lease (filter (\<lambda>l. l_run l = run) (leases db)) of
        None \<Rightarrow> Inr ()
      | Some l \<Rightarrow>
          if l_stop_at l = None then Inl StopNotAcknowledged
          else if l_stop_epoch l \<noteq> Some (l_epoch l) then Inl EpochMismatch
          else if list_ex (\<lambda>a. a_lease a = l_id l \<and> unresolved a) (journal db) then Inl ActionsUnresolved
          else Inr ())"

definition terminalize_cancellation ::
  "(pytext \<Rightarrow> timestamptz option) \<Rightarrow> pytext \<Rightarrow> pytext \<Rightarrow> int \<Rightarrow> pytext \<Rightarrow> pytext \<Rightarrow> timestamptz \<Rightarrow> fleet \<Rightarrow>
     fleet fleet_result" where
  "terminalize_cancellation reads session run expected service op now db =
     bind_result (map_error RefusedRun (load_run session run (store db))) (\<lambda>(state, _).
     if \<not> cancellation_requested state then Inl CancellationNeverRequested
     else bind_result (if may_cancel_immediately run db then Inr () else stop_proved run db) (\<lambda>_.
       move_run reads session run (\<lambda>s. cancel s (Some expected))
         (service_cause op (str ''run.cancelled'') service (str ''RUN_CANCELLED'')) (Some expected) now db))"

end
