(* ===== verification/Desktop_Exclusion.thy ===== *)
theory Desktop_Exclusion
  imports Desktops
begin

text \<open>
  What the desktop tables guarantee over whole histories: one admitted attempt per physical desktop,
  quarantine that only a trusted reset or a retirement leaves, a run that is leased at most once, and
  cancellations that are terminal only on proof of a stop.
\<close>

section \<open>Histories\<close>

text \<open>
  A run's other transitions are closures over the reducers that do not cancel: \<open>reducers.cancel\<close> is
  called by \<open>terminalize_cancellation\<close> alone.
\<close>

definition not_cancelling :: "(run_state \<Rightarrow> transition) \<Rightarrow> bool" where
  "not_cancelling reducer \<longleftrightarrow> lawful reducer \<and> (\<forall>s t. reducer s = Inr t \<longrightarrow> status t \<noteq> CANCELLED)"

inductive fleet_step ::
  "run_gates \<Rightarrow> (pytext \<Rightarrow> timestamptz option) \<Rightarrow> pytext \<Rightarrow> fleet \<Rightarrow> fleet \<Rightarrow> bool" for gates reads w where
  token: "issue_enrollment_token fresh secret creator ttl now db = Inr db' \<Longrightarrow> fleet_step gates reads w db db'"
| enrolled: "enroll_runner fresh secret name session profile now db = Inr db' \<Longrightarrow> fleet_step gates reads w db db'"
| retired: "revoke_runner i now db = Inr db' \<Longrightarrow> fleet_step gates reads w db db'"
| preflighted: "record_preflight fresh i result now db = Inr (db', ok) \<Longrightarrow> fleet_step gates reads w db db'"
| leased: "admit_lease gates reads w fresh i run attempt ttl op now db = Inr (db', e) \<Longrightarrow> fleet_step gates reads w db db'"
| heartbeat: "heartbeat_lease i e extension now db = Inr (db', t) \<Longrightarrow> fleet_step gates reads w db db'"
| cancel_asked: "cancel_lease i rv now db = Inr db' \<Longrightarrow> fleet_step gates reads w db db'"
| stop_acknowledged: "acknowledge_lease_stop i e now db = Inr db' \<Longrightarrow> fleet_step gates reads w db db'"
| intent: "record_action_intent w fresh l run attempt e n a origin chord txt' now db = Inr db' \<Longrightarrow>
    fleet_step gates reads w db db'"
| dispatched: "mark_action_dispatched i now db = Inr db' \<Longrightarrow> fleet_step gates reads w db db'"
| resulted: "record_action_result i res detail now db = Inr db' \<Longrightarrow> fleet_step gates reads w db db'"
| ambiguous: "mark_action_ambiguous i why detail now db = Inr db' \<Longrightarrow> fleet_step gates reads w db db'"
| fenced: "fence_expired_leases now db = Inr (db', ids) \<Longrightarrow> fleet_step gates reads w db db'"
| was_reset: "reset_runner fresh i requester succeeded proof' now db = Inr db' \<Longrightarrow> fleet_step gates reads w db db'"
| interrupted: "terminalize_ambiguous_attempt reads w run i why rv detail service op now db = Inr db' \<Longrightarrow>
    fleet_step gates reads w db db'"
| cancelled: "terminalize_cancellation reads w run rv service op now db = Inr db' \<Longrightarrow> fleet_step gates reads w db db'"
| run_created: "create_run w i w dg project auth retry now (store db) = Inr s \<Longrightarrow> fleet_step gates reads w db (db\<lparr>store := s\<rparr>)"
| run_moved: "not_cancelling reducer \<Longrightarrow> move_run reads w run reducer why expected now db = Inr db' \<Longrightarrow>
    fleet_step gates reads w db db'"

definition empty_fleet :: "fleet \<Rightarrow> bool" where
  "empty_fleet db \<longleftrightarrow> empty_store (store db) \<and> registry db = [] \<and> tokens db = [] \<and> preflights db = [] \<and>
     leases db = [] \<and> journal db = [] \<and> resets db = []"

section \<open>The invariant\<close>

text \<open>A desktop that an active lease names is in the hands of that lease's epoch.\<close>

definition held :: "fleet \<Rightarrow> desktop_lease \<Rightarrow> bool" where
  "held db l \<longleftrightarrow> (\<exists>r \<in> set (registry db). rn_id r = l_runner l \<and> \<not> revoked r \<and> rn_session r = l_session l \<and>
     rn_epoch r = l_epoch l \<and> rn_status r \<in> {BUSY, QUARANTINED})"

definition epochs_ok :: "fleet \<Rightarrow> bool" where
  "epochs_ok db \<longleftrightarrow> (\<forall>l \<in> set (leases db). \<forall>r \<in> set (registry db). rn_id r = l_runner l \<longrightarrow> l_epoch l \<le> rn_epoch r) \<and>
     (\<forall>l \<in> set (leases db). l_runner l \<in> rn_id ` set (registry db)) \<and>
     distinct (map (\<lambda>l. (l_runner l, l_epoch l)) (leases db))"

definition runs_ok :: "fleet \<Rightarrow> bool" where
  "runs_ok db \<longleftrightarrow> distinct (map l_run (leases db)) \<and>
     (\<forall>l \<in> set (leases db). \<exists>r \<in> set (runs (store db)). c_id r = l_run l \<and> c_status r \<noteq> QUEUED)"

text \<open>No two registrations in service share a desktop.\<close>

definition desktops_ok :: "fleet \<Rightarrow> bool" where
  "desktops_ok db \<longleftrightarrow> (\<forall>r \<in> set (registry db). \<forall>q \<in> set (registry db).
     \<not> revoked r \<and> \<not> revoked q \<and> rn_session r = rn_session q \<longrightarrow> r = q)"

definition settled :: "fleet \<Rightarrow> desktop_lease \<Rightarrow> bool" where
  "settled db l \<longleftrightarrow> (\<forall>a \<in> set (journal db). a_lease a = l_id l \<longrightarrow> \<not> unresolved a)"

definition stops_ok :: "fleet \<Rightarrow> bool" where
  "stops_ok db \<longleftrightarrow> (\<forall>l \<in> set (leases db). l_stop_at l \<noteq> None \<longrightarrow>
     \<not> active l \<and> l_stop_epoch l = Some (l_epoch l) \<and> settled db l)"

definition cancellations_ok :: "fleet \<Rightarrow> bool" where
  "cancellations_ok db \<longleftrightarrow> (\<forall>r \<in> set (runs (store db)). \<forall>l \<in> set (leases db).
     c_status r = CANCELLED \<and> l_run l = c_id r \<longrightarrow> l_stop_at l \<noteq> None)"

definition fleet_inv :: "fleet \<Rightarrow> bool" where
  "fleet_inv db \<longleftrightarrow> store_inv (store db) \<and> distinct (map rn_id (registry db)) \<and> distinct (map l_id (leases db)) \<and>
     (\<forall>r \<in> set (registry db). runner_checks r) \<and> (\<forall>l \<in> set (leases db). active l \<longrightarrow> held db l) \<and>
     desktops_ok db \<and> epochs_ok db \<and> runs_ok db \<and> stops_ok db \<and> cancellations_ok db"

section \<open>Reworking rows\<close>

text \<open>
  Most operations rewrite rows in place. What a rewrite may do to a row, and when the invariant survives
  it: a runner that leaves the hands of a lease must have no active lease left.
\<close>

definition runner_frame :: "registered_runner \<Rightarrow> registered_runner \<Rightarrow> bool" where
  "runner_frame r q \<longleftrightarrow> rn_id q = rn_id r \<and> rn_session q = rn_session r \<and> rn_epoch q = rn_epoch r \<and>
     (revoked r \<longrightarrow> revoked q) \<and> (runner_checks r \<longrightarrow> runner_checks q)"

definition lease_frame :: "desktop_lease \<Rightarrow> desktop_lease \<Rightarrow> bool" where
  "lease_frame l m \<longleftrightarrow> l_id m = l_id l \<and> l_runner m = l_runner l \<and> l_session m = l_session l \<and>
     l_run m = l_run l \<and> l_epoch m = l_epoch l \<and> (\<not> active l \<longrightarrow> \<not> active m) \<and>
     (l_stop_at m = l_stop_at l \<and> l_stop_epoch m = l_stop_epoch l \<or>
      l_stop_at m \<noteq> None \<and> l_stop_epoch m = Some (l_epoch m) \<and> \<not> active m)"

definition action_frame :: "runner_action \<Rightarrow> runner_action \<Rightarrow> bool" where
  "action_frame a b \<longleftrightarrow> a_lease b = a_lease a \<and> (\<not> unresolved a \<longrightarrow> \<not> unresolved b)"

definition kept_in_hand :: "registered_runner \<Rightarrow> registered_runner \<Rightarrow> bool" where
  "kept_in_hand r q \<longleftrightarrow> rn_status q \<in> {rn_status r, QUARANTINED} \<and> revoked q = revoked r"

definition reworked :: "fleet \<Rightarrow> fleet \<Rightarrow> bool" where
  "reworked db db' \<longleftrightarrow> list_all2 runner_frame (registry db) (registry db') \<and>
     list_all2 lease_frame (leases db) (leases db') \<and> list_all2 action_frame (journal db) (journal db') \<and>
     store db' = store db"

lemma frame_refl [simp]: "runner_frame r r" "lease_frame l l" "action_frame a a" "kept_in_hand r r"
  by (auto simp: runner_frame_def lease_frame_def action_frame_def kept_in_hand_def)

lemma runner_frame_trans: "runner_frame r q \<Longrightarrow> runner_frame q p \<Longrightarrow> runner_frame r p"
  by (auto simp: runner_frame_def)

lemma lease_frame_trans: "lease_frame l m \<Longrightarrow> lease_frame m n \<Longrightarrow> lease_frame l n"
  by (auto simp: lease_frame_def)

lemma action_frame_trans: "action_frame a b \<Longrightarrow> action_frame b c \<Longrightarrow> action_frame a c"
  by (auto simp: action_frame_def)

lemma kept_in_hand_trans: "kept_in_hand r q \<Longrightarrow> kept_in_hand q p \<Longrightarrow> kept_in_hand r p"
  by (auto simp: kept_in_hand_def)

lemma reworked_refl [simp]: "reworked db db"
  by (simp add: reworked_def list.rel_refl)

lemma reworked_trans: "reworked a b \<Longrightarrow> reworked b c \<Longrightarrow> reworked a c"
  unfolding reworked_def
  by (auto elim: list_all2_trans [rotated] intro: runner_frame_trans lease_frame_trans action_frame_trans)

lemma all2_update_where:
  "(\<And>r. r \<in> set rows \<Longrightarrow> P r \<Longrightarrow> R r (f r)) \<Longrightarrow> (\<And>r. R r r) \<Longrightarrow> list_all2 R rows (update_where P f rows)"
  by (auto simp: update_where_def list_all2_conv_all_nth)

lemma all2_partner: "list_all2 R xs ys \<Longrightarrow> y \<in> set ys \<Longrightarrow> \<exists>x \<in> set xs. R x y"
  by (induction rule: list_all2_induct) auto

lemma all2_partner_of: "list_all2 R xs ys \<Longrightarrow> x \<in> set xs \<Longrightarrow> \<exists>y \<in> set ys. R x y"
  by (induction rule: list_all2_induct) auto

lemma all2_keys: "list_all2 R xs ys \<Longrightarrow> (\<And>x y. R x y \<Longrightarrow> f y = f x) \<Longrightarrow> map f ys = map f xs"
  by (induction rule: list_all2_induct) auto

lemma reworked_keys:
  assumes "reworked db db'"
  shows "map rn_id (registry db') = map rn_id (registry db)" and "map l_id (leases db') = map l_id (leases db)"
    and "map l_run (leases db') = map l_run (leases db)"
    and "map (\<lambda>l. (l_runner l, l_epoch l)) (leases db') = map (\<lambda>l. (l_runner l, l_epoch l)) (leases db)"
proof -
  from assms have r: "list_all2 runner_frame (registry db) (registry db')"
    and l: "list_all2 lease_frame (leases db) (leases db')" by (simp_all add: reworked_def)
  show "map rn_id (registry db') = map rn_id (registry db)" by (rule all2_keys [OF r]) (simp add: runner_frame_def)
  show "map l_id (leases db') = map l_id (leases db)" "map l_run (leases db') = map l_run (leases db)"
    "map (\<lambda>l. (l_runner l, l_epoch l)) (leases db') = map (\<lambda>l. (l_runner l, l_epoch l)) (leases db)"
    by (rule all2_keys [OF l], simp add: lease_frame_def)+
qed

lemma same_runner:
  "fleet_inv db \<Longrightarrow> r \<in> set (registry db) \<Longrightarrow> q \<in> set (registry db) \<Longrightarrow> rn_id r = rn_id q \<Longrightarrow> r = q"
  by (auto simp: fleet_inv_def dest: distinct_rows)

lemma held_reworked:
  assumes "fleet_inv db" and "reworked db db'" and "m \<in> set (leases db')" and "active m"
    and "\<And>r q. r \<in> set (registry db) \<Longrightarrow> q \<in> set (registry db') \<Longrightarrow> runner_frame r q \<Longrightarrow> rn_id r = l_runner m \<Longrightarrow>
      kept_in_hand r q"
  shows "held db' m"
proof -
  from assms(2,3) obtain l where l: "l \<in> set (leases db)" "lease_frame l m"
    unfolding reworked_def by (blast dest: all2_partner)
  with assms(4) have "active l" by (auto simp: lease_frame_def)
  with assms(1) l(1) obtain r where r: "r \<in> set (registry db)" "rn_id r = l_runner l" "\<not> revoked r"
    "rn_session r = l_session l" "rn_epoch r = l_epoch l" "rn_status r \<in> {BUSY, QUARANTINED}"
    unfolding fleet_inv_def held_def by blast
  from assms(2) r(1) obtain q where q: "q \<in> set (registry db')" "runner_frame r q"
    unfolding reworked_def by (blast dest: all2_partner_of)
  have "kept_in_hand r q" using assms(5) r(1,2) q l(2) by (simp add: lease_frame_def)
  with r q l(2) show ?thesis
    unfolding held_def by (intro bexI [of _ q]) (auto simp: kept_in_hand_def runner_frame_def lease_frame_def)
qed

lemma settled_reworked: "reworked db db' \<Longrightarrow> settled db l \<Longrightarrow> l_id m = l_id l \<Longrightarrow> settled db' m"
  unfolding settled_def reworked_def by (fastforce dest: all2_partner simp: action_frame_def)

lemma reworked_inv:
  assumes "fleet_inv db" and "reworked db db'"
    and hand: "\<And>m r q. m \<in> set (leases db') \<Longrightarrow> active m \<Longrightarrow> r \<in> set (registry db) \<Longrightarrow> q \<in> set (registry db') \<Longrightarrow>
      runner_frame r q \<Longrightarrow> rn_id r = l_runner m \<Longrightarrow> kept_in_hand r q"
    and stop: "\<And>l m. l \<in> set (leases db) \<Longrightarrow> m \<in> set (leases db') \<Longrightarrow> lease_frame l m \<Longrightarrow> l_stop_at l = None \<Longrightarrow>
      l_stop_at m \<noteq> None \<Longrightarrow> settled db' m"
  shows "fleet_inv db'"
proof -
  have frames: "list_all2 runner_frame (registry db) (registry db')" "list_all2 lease_frame (leases db) (leases db')"
    "list_all2 action_frame (journal db) (journal db')" "store db' = store db"
    using assms(2) by (simp_all add: reworked_def)
  note inv = assms(1) [unfolded fleet_inv_def]
  note rp = all2_partner [OF frames(1)] and lp = all2_partner [OF frames(2)]
  have "\<forall>r \<in> set (registry db'). runner_checks r"
    using inv rp by (meson runner_frame_def)
  moreover have "\<forall>l \<in> set (leases db'). active l \<longrightarrow> held db' l"
    using held_reworked [OF assms(1,2)] hand by blast
  moreover have "desktops_ok db'" unfolding desktops_ok_def
  proof (intro ballI impI)
    fix q q' assume *: "q \<in> set (registry db')" "q' \<in> set (registry db')"
      "\<not> revoked q \<and> \<not> revoked q' \<and> rn_session q = rn_session q'"
    then obtain r r' where r: "r \<in> set (registry db)" "runner_frame r q" "r' \<in> set (registry db)" "runner_frame r' q'"
      using rp by meson
    with * have "\<not> revoked r" "\<not> revoked r'" "rn_session r = rn_session r'" by (auto simp: runner_frame_def)
    with inv r have "r = r'" by (auto simp: desktops_ok_def)
    with r have "rn_id q = rn_id q'" by (simp add: runner_frame_def)
    moreover have "distinct (map rn_id (registry db'))" using inv reworked_keys(1) [OF assms(2)] by simp
    ultimately show "q = q'" using * by (auto dest: distinct_rows)
  qed
  moreover have "epochs_ok db'" unfolding epochs_ok_def
  proof (intro conjI ballI impI)
    fix m q assume "m \<in> set (leases db')" "q \<in> set (registry db')" "rn_id q = l_runner m"
    moreover then obtain l r where "l \<in> set (leases db)" "lease_frame l m" "r \<in> set (registry db)" "runner_frame r q"
      using rp lp by meson
    ultimately show "l_epoch m \<le> rn_epoch q"
      using inv by (auto simp: epochs_ok_def lease_frame_def runner_frame_def)
  next
    fix m assume "m \<in> set (leases db')"
    then obtain l where "l \<in> set (leases db)" "lease_frame l m" using lp by meson
    with inv have "l_runner m \<in> set (map rn_id (registry db))" by (auto simp: epochs_ok_def lease_frame_def)
    then show "l_runner m \<in> rn_id ` set (registry db')"
      using reworked_keys(1) [OF assms(2)] by (metis set_map)
  next
    show "distinct (map (\<lambda>l. (l_runner l, l_epoch l)) (leases db'))"
      using inv reworked_keys(4) [OF assms(2)] by (simp add: epochs_ok_def)
  qed
  moreover have "runs_ok db'"
    using inv reworked_keys(3) [OF assms(2)] lp frames(4)
    by (simp add: runs_ok_def) (metis lease_frame_def)
  moreover have "stops_ok db'" unfolding stops_ok_def
  proof (intro ballI impI)
    fix m assume m: "m \<in> set (leases db')" "l_stop_at m \<noteq> None"
    then obtain l where l: "l \<in> set (leases db)" "lease_frame l m" using lp by meson
    show "\<not> active m \<and> l_stop_epoch m = Some (l_epoch m) \<and> settled db' m"
    proof (cases "l_stop_at l = None")
      case True
      with l m stop show ?thesis by (auto simp: lease_frame_def)
    next
      case False
      with inv l(1) have "\<not> active l" "l_stop_epoch l = Some (l_epoch l)" "settled db l" by (auto simp: stops_ok_def)
      with l(2) m settled_reworked [OF assms(2), of l m] show ?thesis by (auto simp: lease_frame_def)
    qed
  qed
  moreover have "cancellations_ok db'"
    using inv lp unfolding cancellations_ok_def frames(4) lease_frame_def by metis
  ultimately show ?thesis
    unfolding fleet_inv_def using inv reworked_keys(1,2) [OF assms(2)] frames(4) by simp
qed

section \<open>The operations rework rows\<close>

lemma reworked_tables [simp]:
  "reworked db (db\<lparr>tokens := ts\<rparr>)" "reworked db (db\<lparr>preflights := ps\<rparr>)" "reworked db (db\<lparr>resets := rs\<rparr>)"
  by (simp_all add: reworked_def list.rel_refl)

lemma change_runner_reworked:
  assumes "change_runner i f db = Inr db'" and "\<And>r. rn_id r = i \<Longrightarrow> runner_checks (f r) \<Longrightarrow> runner_frame r (f r)"
  shows "reworked db db'" and "leases db' = leases db" and "journal db' = journal db"
    and "registry db' = update_where (\<lambda>r. rn_id r = i) f (registry db)"
  using assms
  by (auto simp: change_runner_def reworked_def list.rel_refl list_ex_iff intro!: all2_update_where split: if_splits)

lemma change_lease_reworked:
  assumes "change_lease hit f db = Inr db'" and "\<And>l. hit l \<Longrightarrow> lease_frame l (f l)"
  shows "reworked db db'" and "registry db' = registry db" and "journal db' = journal db"
    and "leases db' = update_where hit f (leases db)"
  using assms
  by (auto simp: change_lease_def reworked_def list.rel_refl intro!: all2_update_where split: if_splits)

lemma change_actions_reworked:
  assumes "change_actions hit f db = Inr db'" and "\<And>a. hit a \<Longrightarrow> action_frame a (f a)"
  shows "reworked db db'" and "registry db' = registry db" and "leases db' = leases db"
  using assms
  by (auto simp: change_actions_def reworked_def list.rel_refl intro!: all2_update_where split: if_splits)

lemma set_status_simps [simp]:
  "rn_id (set_status s now r) = rn_id r" "rn_session (set_status s now r) = rn_session r"
  "rn_epoch (set_status s now r) = rn_epoch r" "rn_status (set_status s now r) = s"
  "revoked (set_status s now r) = revoked r" "rn_revoked_at (set_status s now r) = rn_revoked_at r"
  "rn_id (clear_quarantine r) = rn_id r" "rn_session (clear_quarantine r) = rn_session r"
  "rn_epoch (clear_quarantine r) = rn_epoch r" "rn_status (clear_quarantine r) = rn_status r"
  "revoked (clear_quarantine r) = revoked r"
  by (simp_all add: set_status_def clear_quarantine_def revoked_def)

text \<open>Fencing: rows change, and no runner leaves the hands it is in.\<close>

definition fenced_from :: "fleet \<Rightarrow> fleet \<Rightarrow> bool" where
  "fenced_from db db' \<longleftrightarrow> reworked db db' \<and>
     list_all2 (\<lambda>r q. kept_in_hand r q \<and> rn_id q = rn_id r) (registry db) (registry db')"

lemma fenced_from_refl [simp]: "fenced_from db db"
  by (simp add: fenced_from_def list.rel_refl)

lemma fenced_from_trans: "fenced_from a b \<Longrightarrow> fenced_from b c \<Longrightarrow> fenced_from a c"
  unfolding fenced_from_def
  by (auto elim: reworked_trans list_all2_trans [rotated] intro: kept_in_hand_trans)

lemma same_registry_fenced: "reworked db db' \<Longrightarrow> registry db' = registry db \<Longrightarrow> fenced_from db db'"
  by (simp add: fenced_from_def list.rel_refl)

lemma quarantine_fenced:
  assumes "quarantine i why now db = Inr db'"
  shows "fenced_from db db'" and "leases db' = leases db" and "journal db' = journal db"
    and "\<forall>q \<in> set (registry db'). rn_id q = i \<longrightarrow> rn_status q = QUARANTINED"
proof -
  let ?f = "\<lambda>r. (set_status QUARANTINED now r)\<lparr>rn_quarantine := Some why, rn_quarantined_at := Some now\<rparr>"
  have "runner_frame r (?f r)" if "rn_id r = i" "runner_checks (?f r)" for r
    using that by (simp add: runner_frame_def revoked_def set_status_def)
  note c = change_runner_reworked [OF assms [unfolded quarantine_def] this]
  show "leases db' = leases db" by (rule c(2))
  show "journal db' = journal db" by (rule c(3))
  have rows: "registry db' = update_where (\<lambda>r. rn_id r = i) ?f (registry db)" by (rule c(4))
  show "\<forall>q \<in> set (registry db'). rn_id q = i \<longrightarrow> rn_status q = QUARANTINED"
  proof (intro ballI impI)
    fix q assume "q \<in> set (registry db')" "rn_id q = i"
    then obtain p where "q = (if rn_id p = i then ?f p else p)" unfolding rows in_update_where by blast
    with \<open>rn_id q = i\<close> show "rn_status q = QUARANTINED" by (cases "rn_id p = i") simp_all
  qed
  have "list_all2 (\<lambda>r q. kept_in_hand r q \<and> rn_id q = rn_id r) (registry db) (registry db')"
    unfolding rows by (rule all2_update_where) (auto simp: kept_in_hand_def revoked_def set_status_def)
  with c(1) show "fenced_from db db'" by (simp add: fenced_from_def)
qed

lemma quarantine_all_fenced:
  "quarantine_all ids why now db = Inr db' \<Longrightarrow> fenced_from db db' \<and> leases db' = leases db \<and> journal db' = journal db"
proof (induction ids arbitrary: db)
  case (Cons i ids)
  then obtain db1 where "quarantine i why now db = Inr db1" "quarantine_all ids why now db1 = Inr db'"
    by (auto simp: bind_result_Inr)
  with Cons.IH quarantine_fenced fenced_from_trans show ?case by metis
qed simp

lemma fenced_inv:
  assumes "fleet_inv db" and "fenced_from db db'"
    and "\<And>l m. l \<in> set (leases db) \<Longrightarrow> m \<in> set (leases db') \<Longrightarrow> lease_frame l m \<Longrightarrow> l_stop_at l = None \<Longrightarrow>
      l_stop_at m = None"
  shows "fleet_inv db'"
proof (rule reworked_inv [OF assms(1)])
  show "reworked db db'" using assms(2) by (simp add: fenced_from_def)
  show "kept_in_hand r q" if "r \<in> set (registry db)" "q \<in> set (registry db')" "runner_frame r q" for m r q
  proof -
    from assms(2) that(1) obtain p where p: "p \<in> set (registry db')" "kept_in_hand r p" "rn_id p = rn_id r"
      unfolding fenced_from_def by (blast dest: all2_partner_of)
    have "distinct (map rn_id (registry db'))"
      using reworked_keys(1) [of db db'] assms(1,2) by (simp add: fleet_inv_def fenced_from_def)
    with p that have "p = q" by (auto simp: runner_frame_def dest: distinct_rows)
    with p show ?thesis by simp
  qed
qed (metis assms(3))

section \<open>Each operation keeps the invariant\<close>

lemma if_Inl_Inr: "(if b then Inl e else m) = Inr y \<longleftrightarrow> \<not> b \<and> m = Inr y"
  by simp

lemma release_frame [simp]: "lease_frame l (release_lease why now l)"
  by (auto simp: lease_frame_def release_lease_def active_def coalesce_def split: option.splits)

lemma release_stop [simp]: "l_stop_at (release_lease why now l) = l_stop_at l"
  by (simp add: release_lease_def)

lemma release_inactive [simp]: "\<not> active (release_lease why now l)"
  by (auto simp: active_def release_lease_def coalesce_def split: option.splits)

lemma updated_partner:
  assumes "distinct (map rn_id (registry db))" and "registry db' = update_where (\<lambda>r. rn_id r = i) f (registry db)"
    and "r \<in> set (registry db)" and "q \<in> set (registry db')" and "runner_frame r q"
    and "\<And>r. rn_id r = i \<Longrightarrow> rn_id (f r) = i"
  shows "q = (if rn_id r = i then f r else r)"
proof -
  from assms(2,4) obtain p where p: "p \<in> set (registry db)" "q = (if rn_id p = i then f p else p)"
    by (auto simp: in_update_where)
  with assms(5,6) have "rn_id p = rn_id r" by (auto simp: runner_frame_def split: if_splits)
  with p(1) assms(1,3) have "p = r" by (auto dest: distinct_rows)
  with p(2) show ?thesis by simp
qed

lemma lease_unchanged_stop:
  assumes "distinct (map l_id (leases db))" and "leases db' = update_where hit f (leases db)"
    and "\<And>l. hit l \<Longrightarrow> lease_frame l (f l) \<and> l_stop_at (f l) = l_stop_at l"
    and "l \<in> set (leases db)" and "m \<in> set (leases db')" and "lease_frame l m"
  shows "l_stop_at m = l_stop_at l"
proof -
  from assms(2,5) obtain n where n: "n \<in> set (leases db)" "m = (if hit n then f n else n)"
    by (auto simp: in_update_where)
  with assms(3,6) have "l_id n = l_id l" by (auto simp: lease_frame_def split: if_splits)
  with n(1) assms(1,4) have "n = l" by (auto dest: distinct_rows)
  with n(2) assms(3) show ?thesis by simp
qed

lemma inv_ids: "fleet_inv db \<Longrightarrow> distinct (map rn_id (registry db))" "fleet_inv db \<Longrightarrow> distinct (map l_id (leases db))"
  by (simp_all add: fleet_inv_def)

lemma change_lease_inv:
  assumes "fleet_inv db" and "change_lease hit f db = Inr db'"
    and "\<And>l. hit l \<Longrightarrow> lease_frame l (f l) \<and> l_stop_at (f l) = l_stop_at l"
  shows "fleet_inv db'"
proof -
  note c = change_lease_reworked [OF assms(2)]
  show ?thesis
  proof (rule fenced_inv [OF assms(1)])
    show "fenced_from db db'" using c assms(3) by (blast intro: same_registry_fenced)
  qed (use lease_unchanged_stop [OF inv_ids(2) [OF assms(1)] c(4)] assms(3) in metis)
qed

lemma same_leases_inv:
  assumes "fleet_inv db" and "fenced_from db db'" and "leases db' = leases db"
  shows "fleet_inv db'"
proof (rule fenced_inv [OF assms(1,2)])
  fix l m assume "l \<in> set (leases db)" "m \<in> set (leases db')" "lease_frame l m" "l_stop_at l = None"
  moreover then have "l = m" using assms(1,3) by (auto simp: fleet_inv_def lease_frame_def dest: distinct_rows)
  ultimately show "l_stop_at m = None" by simp
qed

lemma change_actions_inv:
  assumes "fleet_inv db" and "change_actions hit f db = Inr db'" and "\<And>a. hit a \<Longrightarrow> action_frame a (f a)"
  shows "fleet_inv db'"
  using change_actions_reworked [OF assms(2,3)] by (blast intro: same_leases_inv [OF assms(1)] same_registry_fenced)

lemma quarantine_inv: "fleet_inv db \<Longrightarrow> quarantine i why now db = Inr db' \<Longrightarrow> fleet_inv db'"
  using quarantine_fenced(1,2) by (blast intro: same_leases_inv)

lemma quarantine_all_inv: "fleet_inv db \<Longrightarrow> quarantine_all ids why now db = Inr db' \<Longrightarrow> fleet_inv db'"
  using quarantine_all_fenced by (blast intro: same_leases_inv)

lemma tables_inv [simp]:
  "fleet_inv (db\<lparr>tokens := ts\<rparr>) = fleet_inv db" "fleet_inv (db\<lparr>preflights := ps\<rparr>) = fleet_inv db"
  "fleet_inv (db\<lparr>resets := rs\<rparr>) = fleet_inv db"
  by (simp_all add: fleet_inv_def held_def desktops_ok_def epochs_ok_def runs_ok_def stops_ok_def settled_def
      cancellations_ok_def)

lemma mark_ambiguous_inv:
  assumes "fleet_inv db" and "mark_action_ambiguous i why detail now db = Inr db'"
  shows "fleet_inv db'"
proof -
  from assms(2) obtain a where a: "List.find (\<lambda>a. a_id a = i \<and> unresolved a) (journal db) = Some a"
    by (auto simp: mark_action_ambiguous_def split: option.splits)
  with assms(2) obtain db1 where 1: "change_actions (\<lambda>b. a_id b = i \<and> unresolved b)
      (\<lambda>b. b\<lparr>a_result_at := Some now, a_status := Some ACTION_AMBIGUOUS, a_detail := Some detail,
        a_ambiguity := Some why\<rparr>) db = Inr db1"
    and 2: "(case find_lease (a_lease a) db1 of None \<Rightarrow> Inr db1 | Some l \<Rightarrow>
      bind_result (change_lease (\<lambda>q. l_id q = a_lease a) (release_lease RELEASED_AMBIGUOUS now) db1)
        (quarantine (l_runner l) AMBIGUOUS_ACTION now)) = Inr db'"
    by (auto simp: mark_action_ambiguous_def bind_result_Inr)
  have inv1: "fleet_inv db1"
    by (rule change_actions_inv [OF assms(1) 1]) (simp add: action_frame_def unresolved_def)
  show ?thesis
  proof (cases "find_lease (a_lease a) db1")
    case None
    with 2 inv1 show ?thesis by simp
  next
    case (Some l)
    with 2 obtain db2 where p: "change_lease (\<lambda>q. l_id q = a_lease a) (release_lease RELEASED_AMBIGUOUS now) db1 = Inr db2"
      and q: "quarantine (l_runner l) AMBIGUOUS_ACTION now db2 = Inr db'" by (auto simp: bind_result_Inr)
    have "fleet_inv db2" by (rule change_lease_inv [OF inv1 p]) simp
    then show ?thesis using q by (rule quarantine_inv)
  qed
qed

lemma fence_inv:
  assumes "fleet_inv db" and "fence_expired_leases now db = Inr (db', ids)"
  shows "fleet_inv db'"
proof -
  from assms(2) obtain db1 is' where p: "change_lease (expired now) (release_lease EXPIRED_WITHOUT_STOP_PROOF now) db = Inr db1"
    and q: "quarantine_all is' LEASE_EXPIRED_WITHOUT_STOP_PROOF now db1 = Inr db'"
    by (auto simp: fence_expired_leases_def bind_result_Inr Let_def)
  have "fleet_inv db1" by (rule change_lease_inv [OF assms(1) p]) simp
  then show ?thesis using q by (rule quarantine_all_inv)
qed

text \<open>A runner whose status is not that of a leased one has no active lease.\<close>

lemma idle_runner:
  assumes "fleet_inv db" and "r \<in> set (registry db)" and "rn_status r \<notin> {BUSY, QUARANTINED}"
    and "l \<in> set (leases db)" and "active l"
  shows "l_runner l \<noteq> rn_id r"
proof
  assume "l_runner l = rn_id r"
  moreover obtain q where "q \<in> set (registry db)" "rn_id q = l_runner l" "rn_status q \<in> {BUSY, QUARANTINED}"
    using assms(1,4,5) unfolding fleet_inv_def held_def by blast
  ultimately show False using same_runner [OF assms(1)] assms(2,3) by metis
qed

text \<open>Changing a runner that has no active lease.\<close>

lemma change_idle_inv:
  assumes "fleet_inv db" and "change_runner i f db = Inr db'"
    and "\<And>r. rn_id r = i \<Longrightarrow> runner_checks (f r) \<Longrightarrow> runner_frame r (f r)"
    and "\<forall>l \<in> set (leases db). active l \<longrightarrow> l_runner l \<noteq> i"
  shows "fleet_inv db'"
proof -
  note c = change_runner_reworked [OF assms(2,3)]
  have rows: "registry db' = update_where (\<lambda>r. rn_id r = i) f (registry db)" by (rule c(4))
  have id: "rn_id (f r) = i" if "rn_id r = i" "r \<in> set (registry db)" for r
    using assms(2,3) that by (auto simp: change_runner_def list_ex_iff runner_frame_def split: if_splits)
  show ?thesis
  proof (rule reworked_inv [OF assms(1) c(1)])
    fix m r q assume *: "m \<in> set (leases db')" "active m" "r \<in> set (registry db)" "q \<in> set (registry db')"
      "runner_frame r q" "rn_id r = l_runner m"
    with assms(4) c(2) have "rn_id r \<noteq> i" by auto
    from *(4) obtain p where p: "p \<in> set (registry db)" "q = (if rn_id p = i then f p else p)"
      unfolding rows in_update_where by blast
    have "rn_id p \<noteq> i"
    proof
      assume "rn_id p = i"
      with p id have "rn_id q = i" by simp
      with *(5) \<open>rn_id r \<noteq> i\<close> show False by (simp add: runner_frame_def)
    qed
    with p *(5) have "rn_id p = rn_id r" by (simp add: runner_frame_def)
    with p(1) *(3) have "p = r" using same_runner [OF assms(1)] by blast
    with p(2) \<open>rn_id p \<noteq> i\<close> have "q = r" by simp
    then show "kept_in_hand r q" by simp
  next
    fix l m assume *: "l \<in> set (leases db)" "m \<in> set (leases db')" "lease_frame l m" "l_stop_at l = None" "l_stop_at m \<noteq> None"
    have "leases db' = leases db" by (rule c(2))
    with * have "l = m" by (intro distinct_rows [OF inv_ids(2) [OF assms(1)]]) (simp_all add: lease_frame_def)
    with * show "settled db' m" by simp
  qed
qed

lemma checks_frame:
  "rn_id q = rn_id r \<Longrightarrow> rn_session q = rn_session r \<Longrightarrow> rn_epoch q = rn_epoch r \<Longrightarrow> rn_revoked_at q = rn_revoked_at r \<Longrightarrow>
     runner_checks q \<Longrightarrow> runner_frame r q"
  by (simp add: runner_frame_def revoked_def)

lemma status_simps [simp]:
  "rn_revoked_at (clear_quarantine r) = rn_revoked_at r"
  by (simp add: clear_quarantine_def)

lemma revoke_inv:
  assumes "fleet_inv db" and "revoke_runner i now db = Inr db'"
  shows "fleet_inv db'"
proof -
  from assms(2) have free: "\<forall>l \<in> set (leases db). active l \<longrightarrow> l_runner l \<noteq> i"
    and c: "change_runner i (\<lambda>r. if revoked r then r
        else clear_quarantine ((set_status OFFLINE now r)\<lparr>rn_revoked_at := Some now\<rparr>)) db = Inr db'"
    by (auto simp: revoke_runner_def list_ex_iff split: if_splits)
  show ?thesis
    by (rule change_idle_inv [OF assms(1) c _ free])
      (auto simp: runner_frame_def revoked_def clear_quarantine_def set_status_def)
qed

lemma find_runnerD: "find_runner i db = Some r \<Longrightarrow> r \<in> set (registry db) \<and> rn_id r = i"
  by (auto simp: find_runner_def dest: row_SomeD)

lemma find_leaseD: "find_lease i db = Some l \<Longrightarrow> l \<in> set (leases db) \<and> l_id l = i"
  by (auto simp: find_lease_def dest: row_SomeD)

lemma preflight_inv:
  assumes "fleet_inv db" and "record_preflight fresh i result now db = Inr (db', ok)"
  shows "fleet_inv db'"
proof -
  from assms(2) obtain r where r: "find_runner i db = Some r"
    by (auto simp: record_preflight_def split: option.splits)
  define ps where "ps = preflights db @ [preflight_entry fresh r result now]"
  define why where "why = (if profile_drift (rn_profile r) result \<noteq> [] then PROFILE_DRIFTED else PREFLIGHT_FAILED)"
  from assms(2) have "(if fst (preflight_verdict r result)
      then bind_result (map_error RefusedPreflight (assert_runner_transition (rn_status r) READY (Some result))) (\<lambda>_.
        bind_result (change_runner i (clear_quarantine \<circ> set_status READY now) (db\<lparr>preflights := ps\<rparr>)) (\<lambda>db2. Inr (db2, True)))
      else bind_result (quarantine i why now (db\<lparr>preflights := ps\<rparr>)) (\<lambda>db2. Inr (db2, False))) = Inr (db', ok)"
    unfolding record_preflight_def r ps_def why_def Let_def option.case by (simp only: if_Inl_Inr)
  then have "quarantine i why now (db\<lparr>preflights := ps\<rparr>) = Inr db' \<or>
     assert_runner_transition (rn_status r) READY (Some result) = Inr () \<and>
     change_runner i (clear_quarantine \<circ> set_status READY now) (db\<lparr>preflights := ps\<rparr>) = Inr db'"
    by (auto simp: bind_result_Inr split: if_splits)
  then show ?thesis
  proof (elim disjE conjE)
    assume q: "quarantine i why now (db\<lparr>preflights := ps\<rparr>) = Inr db'"
    show ?thesis by (rule quarantine_inv [OF _ q]) (use assms(1) in simp)
  next
    assume t: "assert_runner_transition (rn_status r) READY (Some result) = Inr ()"
      and c: "change_runner i (clear_quarantine \<circ> set_status READY now) (db\<lparr>preflights := ps\<rparr>) = Inr db'"
    from t have "rn_status r \<notin> {BUSY, QUARANTINED}"
      by (auto simp: assert_runner_transition_def split: if_splits)
    with idle_runner [OF assms(1)] find_runnerD [OF r]
    have "\<forall>l \<in> set (leases (db\<lparr>preflights := ps\<rparr>)). active l \<longrightarrow> l_runner l \<noteq> i" by auto
    then show ?thesis
      using assms(1) by (intro change_idle_inv [OF _ c]) (auto intro: checks_frame)
  qed
qed

lemma reset_inv:
  assumes "fleet_inv db" and "reset_runner fresh i requester succeeded proof' now db = Inr db'"
  shows "fleet_inv db'"
proof -
  from assms(2) obtain rs db2 where
    l: "change_lease (\<lambda>l. l_runner l = i \<and> active l) (release_lease SUPERSEDED_BY_RESET now) (db\<lparr>resets := rs\<rparr>) = Inr db2"
    and r: "(if succeeded then change_runner i (clear_quarantine \<circ> set_status PREFLIGHT_REQUIRED now) db2
       else quarantine i RESET_FAILED now db2) = Inr db'"
    by (auto simp: reset_runner_def Let_def bind_result_Inr split: option.splits if_splits)
  have inv2: "fleet_inv db2" by (rule change_lease_inv [OF _ l]) (use assms(1) in simp_all)
  show ?thesis
  proof (cases succeeded)
    case False
    with r inv2 show ?thesis by (auto intro: quarantine_inv)
  next
    case True
    then have c: "change_runner i (clear_quarantine \<circ> set_status PREFLIGHT_REQUIRED now) db2 = Inr db'" using r by simp
    have "leases db2 = update_where (\<lambda>l. l_runner l = i \<and> active l) (release_lease SUPERSEDED_BY_RESET now) (leases db)"
      using change_lease_reworked(4) [OF l] by simp
    then have "\<forall>l \<in> set (leases db2). active l \<longrightarrow> l_runner l \<noteq> i" by (auto simp: update_where_iff)
    then show ?thesis by (intro change_idle_inv [OF inv2 c]) (auto intro: checks_frame)
  qed
qed

text \<open>A desktop's active lease is the only one of its runner.\<close>

lemma sole_lease:
  assumes "fleet_inv db" and "l \<in> set (leases db)" and "m \<in> set (leases db)" and "active l" and "active m"
    and "l_runner l = l_runner m \<or> l_session l = l_session m"
  shows "l = m"
proof -
  from assms(1,2,4) obtain r where r: "r \<in> set (registry db)" "rn_id r = l_runner l" "\<not> revoked r"
    "rn_session r = l_session l" "rn_epoch r = l_epoch l"
    unfolding fleet_inv_def held_def by blast
  from assms(1,3,5) obtain q where q: "q \<in> set (registry db)" "rn_id q = l_runner m" "\<not> revoked q"
    "rn_session q = l_session m" "rn_epoch q = l_epoch m"
    unfolding fleet_inv_def held_def by blast
  have "r = q"
    using assms(6)
  proof
    assume "l_runner l = l_runner m"
    with r q same_runner [OF assms(1)] show ?thesis by simp
  next
    assume "l_session l = l_session m"
    with r q assms(1) show ?thesis by (simp add: fleet_inv_def desktops_ok_def)
  qed
  with r q have same: "(l_runner l, l_epoch l) = (l_runner m, l_epoch m)" by simp
  have "distinct (map (\<lambda>l. (l_runner l, l_epoch l)) (leases db))"
    using assms(1) by (simp add: fleet_inv_def epochs_ok_def)
  from distinct_rows [OF this assms(2,3) same] show ?thesis .
qed

lemma acknowledge_inv:
  assumes "fleet_inv db" and "acknowledge_lease_stop i e now db = Inr db'"
  shows "fleet_inv db'"
proof -
  let ?f = "\<lambda>q. q\<lparr>l_stop_at := Some now, l_stop_epoch := Some e, l_released := Some now, l_reason := Some STOP_ACKNOWLEDGED\<rparr>"
  from assms(2) obtain l where l: "find_lease i db = Some l"
    by (auto simp: acknowledge_lease_stop_def split: option.splits)
  with assms(2) obtain db1 where a: "active l" "l_epoch l = e" "\<not> list_ex (\<lambda>a. a_lease a = i \<and> unresolved a) (journal db)"
    and c: "change_lease (\<lambda>q. l_id q = i) ?f db = Inr db1"
    and r: "change_runner (l_runner l) (set_status PREFLIGHT_REQUIRED now) db1 = Inr db'"
    by (auto simp: acknowledge_lease_stop_def bind_result_Inr split: if_splits)
  have only: "q = l" if "q \<in> set (leases db)" "l_id q = i" for q
    using that find_leaseD [OF l] by (intro distinct_rows [OF inv_ids(2) [OF assms(1)]]) simp_all
  have fresh: "db1 = db\<lparr>leases := update_where (\<lambda>q. l_id q = i) ?f (leases db)\<rparr>"
    using c by (auto simp: change_lease_def split: if_splits)
  have frame: "list_all2 lease_frame (leases db) (leases db1)"
    unfolding fresh by (simp, rule all2_update_where) (use only a in \<open>auto simp: lease_frame_def active_def\<close>)
  then have re: "reworked db db1" unfolding reworked_def by (simp add: fresh list.rel_refl)
  have inv1: "fleet_inv db1"
  proof (rule reworked_inv [OF assms(1) re])
    fix m r q assume "r \<in> set (registry db)" "q \<in> set (registry db1)" "runner_frame r q"
    then have "q = r" using same_runner [OF assms(1), of q r] by (simp add: fresh runner_frame_def)
    then show "kept_in_hand r q" by simp
  next
    fix k m assume *: "k \<in> set (leases db)" "m \<in> set (leases db1)" "lease_frame k m" "l_stop_at k = None" "l_stop_at m \<noteq> None"
    have "l_id m = i"
    proof (rule ccontr)
      assume "l_id m \<noteq> i"
      with *(2) have "m \<in> set (leases db)" by (auto simp: fresh update_where_iff)
      with *(1,3) have "m = k" by (intro distinct_rows [OF inv_ids(2) [OF assms(1)]]) (simp_all add: lease_frame_def)
      with *(4,5) show False by simp
    qed
    with a(3) show "settled db1 m" by (auto simp: settled_def fresh list_ex_iff)
  qed
  have "\<forall>m \<in> set (leases db1). active m \<longrightarrow> l_runner m \<noteq> l_runner l"
  proof (intro ballI impI notI)
    fix m assume *: "m \<in> set (leases db1)" "active m" "l_runner m = l_runner l"
    then have "(\<exists>q. m = ?f q) \<or> m \<in> set (leases db) \<and> l_id m \<noteq> i"
      unfolding fresh by (simp add: update_where_iff) blast
    then have m: "m \<in> set (leases db)" "l_id m \<noteq> i" using *(2) by (auto simp: active_def)
    have "m = l" by (rule sole_lease [OF assms(1) m(1)]) (use * a find_leaseD [OF l] in simp_all)
    with m(2) find_leaseD [OF l] show False by simp
  qed
  then show ?thesis by (intro change_idle_inv [OF inv1 r]) (auto intro: checks_frame)
qed

lemma enroll_inv:
  assumes "fleet_inv db" and "enroll_runner fresh secret name session profile now db = Inr db'"
  shows "fleet_inv db'"
proof -
  from assms(2) obtain desktop pd ts where
    db': "db' = db\<lparr>registry := registry db @ [new_runner fresh name desktop pd session profile now], tokens := ts\<rparr>"
    and free: "\<forall>q \<in> set (registry db). rn_id q \<noteq> fresh \<and> (\<not> revoked q \<longrightarrow> rn_session q \<noteq> desktop)"
    by (auto simp: enroll_runner_def bind_result_Inr map_error_Inr list_ex_iff split: if_splits)
  define r where "r = new_runner fresh name desktop pd session profile now"
  have r: "rn_epoch r = 0" "rn_quarantine r = None" "rn_quarantined_at r = None" "rn_status r = PREFLIGHT_REQUIRED"
    "rn_revision r = 1"
    and new: "\<forall>q \<in> set (registry db). rn_id q \<noteq> rn_id r \<and> (\<not> revoked q \<longrightarrow> rn_session q \<noteq> rn_session r)"
    using free by (simp_all add: r_def new_runner_def)
  note db' = db' [folded r_def]
  have "held db' l" if "held db l" for l using that by (auto simp: held_def db')
  moreover have "rn_id r \<noteq> l_runner l" if "l \<in> set (leases db)" for l
  proof -
    have "l_runner l \<in> rn_id ` set (registry db)" using that assms(1) by (simp add: fleet_inv_def epochs_ok_def)
    then obtain q where q: "l_runner l = rn_id q" "q \<in> set (registry db)" by (rule imageE)
    show ?thesis using bspec [OF new q(2)] q(1) by metis
  qed
  moreover have "runner_checks r" using r by (simp add: runner_checks_def)
  moreover have "desktops_ok db'" unfolding desktops_ok_def
  proof (intro ballI impI)
    fix p q assume *: "p \<in> set (registry db')" "q \<in> set (registry db')" "\<not> revoked p \<and> \<not> revoked q \<and> rn_session p = rn_session q"
    show "p = q"
    proof (cases "p = r \<or> q = r")
      case True
      with * new show ?thesis by (auto simp: db')
    next
      case False
      with * assms(1) show ?thesis by (simp add: db' fleet_inv_def desktops_ok_def)
    qed
  qed
  moreover have "distinct (map rn_id (registry db'))" using assms(1) new by (auto simp: db' fleet_inv_def)
  ultimately show ?thesis
    using assms(1) unfolding fleet_inv_def epochs_ok_def runs_ok_def stops_ok_def settled_def cancellations_ok_def
    by (simp add: db' image_iff)
qed

lemma intent_inv:
  assumes "fleet_inv db" and "record_action_intent w fresh i run attempt e n a origin chord txt' now db = Inr db'"
  shows "fleet_inv db'"
proof -
  define b where "b = new_action fresh i run attempt e n a origin chord txt' now"
  from assms(2) obtain l where l: "find_lease i db = Some l" "active l"
    and db': "db' = db\<lparr>journal := journal db @ [b]\<rparr>"
    by (auto simp: record_action_intent_def Let_def b_def split: option.splits if_splits)
  have b: "a_lease b = i" by (simp add: b_def new_action_def)
  have "settled db' m" if "m \<in> set (leases db)" "\<not> active m" "settled db m" for m
  proof -
    have "l_id m \<noteq> i"
    proof
      assume "l_id m = i"
      with find_leaseD [OF l(1)] that(1) have "m = l" by (intro distinct_rows [OF inv_ids(2) [OF assms(1)]]) simp_all
      with l(2) that(2) show False by simp
    qed
    with that(3) b show ?thesis by (auto simp: settled_def db')
  qed
  with assms(1) show ?thesis
    by (auto simp: fleet_inv_def db' desktops_ok_def epochs_ok_def runs_ok_def stops_ok_def held_def
        cancellations_ok_def)
qed

section \<open>Runs on desktops\<close>

lemma run_step_not_queued: "run_step s t \<Longrightarrow> status s \<noteq> QUEUED \<Longrightarrow> status t \<noteq> QUEUED"
  by (erule run_step_cases; drule accepted; elim conjE disjE exE; clarsimp simp: nonterminal_iff; elim disjE; clarsimp)

lemma run_steps_not_queued: "run_step\<^sup>*\<^sup>* s t \<Longrightarrow> status s \<noteq> QUEUED \<Longrightarrow> status t \<noteq> QUEUED"
  by (induction rule: rtranclp_induct) (auto dest: run_step_not_queued)

lemma row_unique: "store_inv s \<Longrightarrow> p \<in> set (runs s) \<Longrightarrow> q \<in> set (runs s) \<Longrightarrow> c_id p = c_id q \<Longrightarrow> p = q"
  by (auto simp: store_inv_def dest: distinct_rows)

text \<open>A lawful transition replaces one row, which was not terminal, by what the reducer made of it.\<close>

lemma move_run_row:
  assumes "store_inv (store db)" and "lawful reducer"
    and "move_run reads w run reducer why expected now db = Inr db'"
  obtains r r' after where "db' = db\<lparr>store := store db'\<rparr>" "store_inv (store db')" "r \<in> set (runs (store db))"
    "c_id r = run" "c_id r' = run" "\<not> is_terminal (c_status r)" "reducer (row_to_state r) = Inr after"
    "run_step\<^sup>*\<^sup>* (row_to_state r) after" "c_status r' = status after"
    "runs (store db') = map (\<lambda>q. if q = r then r' else q) (runs (store db))"
proof -
  from assms(3) obtain s after where a: "apply_transition reads w run reducer why expected now (store db) = Inr (s, after)"
    and db': "db' = db\<lparr>store := s\<rparr>"
    by (auto simp: move_run_def bind_result_Inr map_error_Inr)
  have "store_step lawful reads (store db) s" by (rule store_step.transitioned [OF _ a]) (rule assms(2))
  with assms(1) have inv: "store_inv s" by (rule store_inv_step)
  show ?thesis
  proof (rule transition_row [OF assms(1,2) a])
    fix r r' assume r: "r \<in> set (runs (store db))" "c_id r = run" "\<not> is_terminal (c_status r)"
      "run_step\<^sup>*\<^sup>* (row_to_state r) after" "same_but_times after (row_to_state r')" "c_id r' = c_id r"
      "c_revision r' = revision after" "c_status r' = status after" "row_inv (row_to_state r')"
      "runs s = map (\<lambda>q. if q = r then r' else q) (runs (store db))"
      "messages (queue s) = messages (queue (store db)) @ [last (messages (queue s))]"
      "reference (last (messages (queue s))) = run_reference after" "run_id after = c_id r"
      "expected = None \<or> expected = Some (c_revision r)" "reducer (row_to_state r) = Inr after"
    show ?thesis by (rule that [of r r' after]) (use r inv db' in simp_all)
  qed
qed

lemma move_run_inv:
  assumes "fleet_inv db" and "lawful reducer"
    and "move_run reads w run reducer why expected now db = Inr db'"
    and "\<And>r after. reducer (row_to_state r) = Inr after \<Longrightarrow> status after = CANCELLED \<Longrightarrow>
      \<forall>l \<in> set (leases db). l_run l = run \<longrightarrow> l_stop_at l \<noteq> None"
  shows "fleet_inv db'"
proof -
  have inv: "store_inv (store db)" using assms(1) by (simp add: fleet_inv_def)
  show ?thesis
  proof (rule move_run_row [OF inv assms(2,3)])
    fix r r' after
    assume db': "db' = db\<lparr>store := store db'\<rparr>" and inv': "store_inv (store db')"
      and r: "r \<in> set (runs (store db))" "c_id r = run" "c_id r' = run" "\<not> is_terminal (c_status r)"
        "reducer (row_to_state r) = Inr after" "run_step\<^sup>*\<^sup>* (row_to_state r) after" "c_status r' = status after"
      and rows: "runs (store db') = map (\<lambda>q. if q = r then r' else q) (runs (store db))"
    have same: "registry db' = registry db" "leases db' = leases db" "journal db' = journal db"
      using db' by (metis fleet.select_convs fleet.surjective fleet.update_convs(1))+
    have "runs_ok db'" unfolding runs_ok_def same
    proof (intro conjI ballI)
      show "distinct (map l_run (leases db))" using assms(1) by (simp add: fleet_inv_def runs_ok_def)
      fix l assume "l \<in> set (leases db)"
      with assms(1) obtain q where q: "q \<in> set (runs (store db))" "c_id q = l_run l" "c_status q \<noteq> QUEUED"
        unfolding fleet_inv_def runs_ok_def by blast
      show "\<exists>q \<in> set (runs (store db')). c_id q = l_run l \<and> c_status q \<noteq> QUEUED"
      proof (cases "q = r")
        case True
        with q run_steps_not_queued [OF r(6)] have "status after \<noteq> QUEUED" by (simp add: row_to_state_def)
        with True q r rows show ?thesis by (intro bexI [of _ r']) auto
      next
        case False
        with q rows show ?thesis by (intro bexI [of _ q]) auto
      qed
    qed
    moreover have "cancellations_ok db'" unfolding cancellations_ok_def same rows
    proof (intro ballI impI)
      fix q l assume q: "q \<in> set (map (\<lambda>q. if q = r then r' else q) (runs (store db)))" and l: "l \<in> set (leases db)"
        and c: "c_status q = CANCELLED \<and> l_run l = c_id q"
      from q consider "q = r'" | "q \<in> set (runs (store db))" by auto
      then show "l_stop_at l \<noteq> None"
      proof cases
        case 1
        with assms(4) [OF r(5)] r(3,7) c l show ?thesis by auto
      next
        case 2
        with assms(1) c l show ?thesis by (simp add: fleet_inv_def cancellations_ok_def)
      qed
    qed
    ultimately show ?thesis
      using assms(1) inv' unfolding fleet_inv_def desktops_ok_def epochs_ok_def stops_ok_def settled_def held_def same
      by simp
  qed
qed

section \<open>Admission\<close>

lemma grant_inv:
  assumes inv: "fleet_inv db" and r: "r \<in> set (registry db)" "rn_id r = i" "\<not> revoked r" "rn_status r = READY"
    and n: "l_runner n = i" "l_session n = rn_session r" "l_epoch n = rn_epoch r + 1" "l_stop_at n = None"
      "l_id n \<notin> l_id ` set (leases db)"
    and run: "\<forall>l \<in> set (leases db). l_run l \<noteq> l_run n"
      "\<exists>q \<in> set (runs (store db)). c_id q = l_run n \<and> c_status q \<noteq> QUEUED"
      "\<forall>q \<in> set (runs (store db)). c_id q = l_run n \<longrightarrow> c_status q \<noteq> CANCELLED"
    and ok: "runner_checks (grant (rn_epoch r + 1) now r)"
    and db': "db' = db\<lparr>registry := update_where (\<lambda>q. rn_id q = i) (grant (rn_epoch r + 1) now) (registry db),
      leases := leases db @ [n]\<rparr>"
  shows "fleet_inv db'"
proof -
  let ?r = "grant (rn_epoch r + 1) now r"
  have g: "rn_id (grant e now q) = rn_id q" "rn_session (grant e now q) = rn_session q" "rn_epoch (grant e now q) = e"
    "rn_status (grant e now q) = BUSY" "revoked (grant e now q) = revoked q" for e q
    by (simp_all add: grant_def revoked_def set_status_def)
  have only: "q = r" if "q \<in> set (registry db)" "rn_id q = i" for q
    using that r same_runner [OF inv] by simp
  have reg: "registry db' = map (\<lambda>q. if q = r then ?r else q) (registry db)"
  proof -
    have "(if rn_id q = i then grant (rn_epoch r + 1) now q else q) = (if q = r then ?r else q)"
      if "q \<in> set (registry db)" for q
      using only [OF that] r(2) by (cases "q = r") auto
    then show ?thesis by (simp add: db' update_where_def)
  qed
  have r': "?r \<in> set (registry db')" using r(1) by (auto simp: reg)
  have keys: "map rn_id (registry db') = map rn_id (registry db)" by (simp add: reg g)
  have idle: "l_runner l \<noteq> i" if "l \<in> set (leases db)" "active l" for l
    using idle_runner [OF inv r(1) _ that] r(2,4) by simp
  have "held db' l" if "l \<in> set (leases db)" "active l" for l
  proof -
    from that inv obtain q where "q \<in> set (registry db)" "rn_id q = l_runner l" "\<not> revoked q"
      "rn_session q = l_session l" "rn_epoch q = l_epoch l" "rn_status q \<in> {BUSY, QUARANTINED}"
      unfolding fleet_inv_def held_def by blast
    moreover from this have "q \<noteq> r" using r(4) by auto
    ultimately show ?thesis unfolding held_def reg by (intro bexI [of _ q]) auto
  qed
  moreover have "held db' n" unfolding held_def by (intro bexI [OF _ r']) (simp add: g n r)
  moreover have "desktops_ok db'"
  proof -
    have "p = q" if "p \<in> set (registry db)" "q \<in> set (registry db)" "\<not> revoked p" "\<not> revoked q" "rn_session p = rn_session q"
      for p q using inv that by (simp add: fleet_inv_def desktops_ok_def)
    with r(1,3) show ?thesis unfolding desktops_ok_def reg by (auto simp: g)
  qed
  moreover have "epochs_ok db'" unfolding epochs_ok_def
  proof (intro conjI ballI impI)
    fix l q assume l: "l \<in> set (leases db')" and q: "q \<in> set (registry db')" and "rn_id q = l_runner l"
    have le: "l_epoch l \<le> rn_epoch q" if "l \<in> set (leases db)" "q \<in> set (registry db)" "rn_id q = l_runner l" for l q
      using inv that by (simp add: fleet_inv_def epochs_ok_def)
    from q obtain p where p: "p \<in> set (registry db)" "q = (if p = r then ?r else p)" by (auto simp: reg)
    then have pq: "rn_id q = rn_id p" "rn_epoch p \<le> rn_epoch q" by (simp_all add: g)
    from l consider "l \<in> set (leases db)" | "l = n" by (auto simp: db')
    then show "l_epoch l \<le> rn_epoch q"
    proof cases
      case 1
      with le [of l p] p(1) pq \<open>rn_id q = l_runner l\<close> show ?thesis by simp
    next
      case 2
      with pq(1) n(1) \<open>rn_id q = l_runner l\<close> only [OF p(1)] have "p = r" by simp
      with 2 p(2) n(3) show ?thesis by (simp add: g)
    qed
  next
    fix l assume "l \<in> set (leases db')"
    moreover have "l_runner l \<in> set (map rn_id (registry db))" if "l \<in> set (leases db)"
      using inv that by (simp add: fleet_inv_def epochs_ok_def)
    moreover have "i \<in> set (map rn_id (registry db))" using r(1,2) by force
    ultimately have "l_runner l \<in> set (map rn_id (registry db))" using n(1) by (auto simp: db')
    then show "l_runner l \<in> rn_id ` set (registry db')" by (simp only: keys [symmetric] set_map)
  next
    have "(i, rn_epoch r + 1) \<noteq> (l_runner l, l_epoch l)" if "l \<in> set (leases db)" for l
    proof
      assume "(i, rn_epoch r + 1) = (l_runner l, l_epoch l)"
      moreover have "\<And>q. q \<in> set (registry db) \<Longrightarrow> rn_id q = l_runner l \<Longrightarrow> l_epoch l \<le> rn_epoch q"
        using inv that by (simp add: fleet_inv_def epochs_ok_def)
      ultimately show False using r(1,2) by fastforce
    qed
    then show "distinct (map (\<lambda>l. (l_runner l, l_epoch l)) (leases db'))"
      using inv n by (auto simp: db' fleet_inv_def epochs_ok_def)
  qed
  moreover have "runs_ok db'"
    using inv run(1,2) by (auto simp: fleet_inv_def runs_ok_def db')
  moreover have "stops_ok db'" "cancellations_ok db'"
    using inv n(4) run(3) by (auto simp: fleet_inv_def stops_ok_def settled_def cancellations_ok_def db')
  moreover have "\<forall>q \<in> set (registry db'). runner_checks q" using inv ok by (auto simp: fleet_inv_def reg)
  moreover have "store db' = store db" by (simp add: db')
  ultimately show ?thesis
    using inv n(5) keys unfolding fleet_inv_def by (auto simp: db')
qed

lemma admit_inv:
  assumes inv: "fleet_inv db" and "admit_lease gates reads w fresh i run attempt ttl op now db = Inr (db', e)"
  shows "fleet_inv db'"
proof -
  from assms(2) obtain r where r: "find_runner i db = Some r"
    by (auto simp: admit_lease_def split: option.splits if_splits)
  define n where "n = new_lease fresh i (rn_session r) run attempt (rn_epoch r + 1) ttl now"
  from assms(2) r obtain db1 rv why where st: "rn_status r = READY" "\<not> revoked r" "\<not> lease_conflict n (leases db)"
    and g: "change_runner i (grant (rn_epoch r + 1) now) (db\<lparr>leases := leases db @ [n]\<rparr>) = Inr db1"
    and m: "move_run reads w run (\<lambda>s. admit_to_desktop s (rn_epoch r + 1) (Some (revision s))) why (Some rv) now db1 = Inr db'"
    by (auto simp: admit_lease_def Let_def bind_result_Inr n_def split: if_splits prod.splits)
  let ?reg = "update_where (\<lambda>q. rn_id q = i) (grant (rn_epoch r + 1) now) (registry db)"
  from g have db1: "db1 = db\<lparr>leases := leases db @ [n], registry := ?reg\<rparr>"
    and ok: "runner_checks (grant (rn_epoch r + 1) now r)"
    using find_runnerD [OF r] by (auto simp: change_runner_def list_ex_iff split: if_splits)
  have law: "lawful (\<lambda>s. admit_to_desktop s (rn_epoch r + 1) (Some (revision s)))"
    by (auto simp: lawful_def intro: tranclp.r_into_trancl run_step.desktop_admitted)
  have inv0: "store_inv (store db)" using inv by (simp add: fleet_inv_def)
  show ?thesis
  proof (rule move_run_row [OF _ law m])
    show "store_inv (store db1)" using inv0 by (simp add: db1)
    fix q q' after
    assume db': "db' = db1\<lparr>store := store db'\<rparr>" and inv': "store_inv (store db')"
      and q: "q \<in> set (runs (store db1))" "c_id q = run" "c_id q' = run" "\<not> is_terminal (c_status q)"
        "admit_to_desktop (row_to_state q) (rn_epoch r + 1) (Some (revision (row_to_state q))) = Inr after"
        "run_step\<^sup>*\<^sup>* (row_to_state q) after" "c_status q' = status after"
      and rows: "runs (store db') = map (\<lambda>p. if p = q then q' else p) (runs (store db1))"
    have queued: "c_status q = QUEUED" and leased: "status after = LEASED"
      using accepted(2) [OF q(5)] by (auto simp: row_to_state_def)
    let ?db = "db\<lparr>store := store db'\<rparr>"
    have none: "l_run l \<noteq> run" if "l \<in> set (leases db)" for l
    proof
      assume "l_run l = run"
      with that inv obtain p where "p \<in> set (runs (store db))" "c_id p = run" "c_status p \<noteq> QUEUED"
        unfolding fleet_inv_def runs_ok_def by blast
      with q(1,2) queued row_unique [OF inv0] show False by (simp add: db1) metis
    qed
    have mv: "fleet_inv ?db"
    proof (rule move_run_inv [OF inv law])
      show "move_run reads w run (\<lambda>s. admit_to_desktop s (rn_epoch r + 1) (Some (revision s))) why (Some rv) now db = Inr ?db"
        using m by (auto simp: move_run_def db1 bind_result_Inr map_error_Inr)
      show "\<forall>l \<in> set (leases db). l_run l = run \<longrightarrow> l_stop_at l \<noteq> None" using none by blast
    qed
    have q': "q' \<in> set (runs (store db'))" using q(1) by (auto simp: rows)
    show ?thesis
    proof (rule grant_inv [OF mv])
      show "r \<in> set (registry ?db)" "rn_id r = i" using find_runnerD [OF r] by simp_all
      show "\<not> revoked r" "rn_status r = READY" using st by simp_all
      show "l_runner n = i" "l_session n = rn_session r" "l_epoch n = rn_epoch r + 1" "l_stop_at n = None"
        by (simp_all add: n_def new_lease_def)
      show "l_id n \<notin> l_id ` set (leases ?db)" using st(3) by (auto simp: lease_conflict_def list_ex_iff)
      show "\<forall>l \<in> set (leases ?db). l_run l \<noteq> l_run n" using none by (simp add: n_def new_lease_def)
      show "\<exists>p \<in> set (runs (store ?db)). c_id p = l_run n \<and> c_status p \<noteq> QUEUED"
        using q' q(3,7) leased by (intro bexI [of _ q']) (simp_all add: n_def new_lease_def)
      show "\<forall>p \<in> set (runs (store ?db)). c_id p = l_run n \<longrightarrow> c_status p \<noteq> CANCELLED"
      proof (intro ballI impI)
        fix p assume "p \<in> set (runs (store ?db))" "c_id p = l_run n"
        then have "p = q'" using q' q(3) by (intro row_unique [OF inv']) (simp_all add: n_def new_lease_def)
        then show "c_status p \<noteq> CANCELLED" using q(7) leased by simp
      qed
      show "runner_checks (grant (rn_epoch r + 1) now r)" by (rule ok)
      show "db' = ?db\<lparr>registry := update_where (\<lambda>q. rn_id q = i) (grant (rn_epoch r + 1) now) (registry ?db),
          leases := leases ?db @ [n]\<rparr>"
        by (rule trans [OF db']) (simp add: db1)
    qed
  qed
qed

section \<open>The invariant holds\<close>

lemma cancel_inv:
  assumes inv: "fleet_inv db" and "terminalize_cancellation reads w run rv service op now db = Inr db'"
  shows "fleet_inv db'"
proof -
  from assms(2) obtain why where proof': "(if may_cancel_immediately run db then Inr () else stop_proved run db) = Inr ()"
    and m: "move_run reads w run (\<lambda>s. cancel s (Some rv)) why (Some rv) now db = Inr db'"
    by (auto simp: terminalize_cancellation_def bind_result_Inr split: if_splits prod.splits)
  have "lawful (\<lambda>s. cancel s (Some rv))"
    by (auto simp: lawful_def intro: tranclp.r_into_trancl run_step.cancelled)
  then show ?thesis
  proof (rule move_run_inv [OF inv _ m])
    show "\<forall>l \<in> set (leases db). l_run l = run \<longrightarrow> l_stop_at l \<noteq> None"
    proof (intro ballI impI)
      fix l assume l: "l \<in> set (leases db)" "l_run l = run"
      have one: "distinct (map l_run (leases db))" using inv by (simp add: fleet_inv_def runs_ok_def)
      have "filter (\<lambda>l. l_run l = run) (leases db) = [l]"
        using distinct_rows [OF one _ l(1)] l(2) by (intro distinct_filter [OF one l(1)]) auto
      moreover have "\<not> may_cancel_immediately run db" using l by (auto simp: may_cancel_immediately_def list_ex_iff)
      ultimately show "l_stop_at l \<noteq> None"
        using proof' by (auto simp: stop_proved_def split: if_splits)
    qed
  qed
qed

lemma run_created_inv:
  assumes "fleet_inv db" and "create_run w i w dg project auth retry now (store db) = Inr s"
  shows "fleet_inv (db\<lparr>store := s\<rparr>)"
proof -
  have "store_step lawful reads (store db) s" for reads by (rule store_step.created [OF assms(2)])
  with assms(1) have "store_inv s" using store_inv_step by (simp add: fleet_inv_def) blast
  moreover obtain r where r: "runs s = runs (store db) @ [r]" "c_status r = QUEUED"
    using assms(2) by (auto simp: create_run_def split: if_splits)
  ultimately show ?thesis
    using assms(1)
    by (auto simp: fleet_inv_def desktops_ok_def epochs_ok_def runs_ok_def stops_ok_def settled_def held_def cancellations_ok_def)
qed

lemma lawful_interrupt_any: "lawful (\<lambda>s. interrupt s reason (e s))"
  by (auto simp: lawful_def intro: tranclp.r_into_trancl run_step.interrupted)

lemma fleet_inv_step:
  assumes inv: "fleet_inv db" and "fleet_step gates reads w db db'"
  shows "fleet_inv db'"
  using assms(2)
proof cases
  case (token fresh secret creator ttl now)
  then obtain ts where "db' = db\<lparr>tokens := ts\<rparr>"
    by (auto simp: issue_enrollment_token_def bind_result_Inr split: if_splits)
  with inv show ?thesis by simp
next
  case (heartbeat i e extension now t)
  then obtain hit f where c: "change_lease hit f db = Inr db'" and "\<And>l. lease_frame l (f l) \<and> l_stop_at (f l) = l_stop_at l"
    by (auto simp: heartbeat_lease_def Let_def bind_result_Inr lease_frame_def active_def split: if_splits)
  then show ?thesis by (intro change_lease_inv [OF inv c]) blast
next
  case (cancel_asked i rv now)
  then obtain hit f where c: "change_lease hit f db = Inr db'" and "\<And>l. lease_frame l (f l) \<and> l_stop_at (f l) = l_stop_at l"
    by (auto simp: cancel_lease_def Let_def lease_frame_def active_def split: if_splits)
  then show ?thesis by (intro change_lease_inv [OF inv c]) blast
next
  case (dispatched i now)
  then obtain hit f where c: "change_actions hit f db = Inr db'" and "\<And>a. action_frame a (f a)"
    by (auto simp: mark_action_dispatched_def Let_def action_frame_def unresolved_def split: if_splits)
  then show ?thesis by (intro change_actions_inv [OF inv c]) blast
next
  case (resulted i res detail now)
  then obtain hit f where c: "change_actions hit f db = Inr db'" and "\<And>a. action_frame a (f a)"
    by (auto simp: record_action_result_def Let_def action_frame_def unresolved_def split: if_splits)
  then show ?thesis by (intro change_actions_inv [OF inv c]) blast
next
  case (interrupted run i why rv detail service op now)
  then obtain db1 c where 1: "mark_action_ambiguous i why detail now db = Inr db1"
    and m: "move_run reads w run (\<lambda>s. interrupt s (ambiguity_value why) (Some rv)) c (Some rv) now db1 = Inr db'"
    by (auto simp: terminalize_ambiguous_attempt_def bind_result_Inr)
  show ?thesis
    by (rule move_run_inv [OF mark_ambiguous_inv [OF inv 1] lawful_interrupt_any m]) (auto dest: accepted)
next
  case (run_moved reducer run why expected now)
  then have "lawful reducer" by (simp add: not_cancelling_def)
  then show ?thesis
    using run_moved by (intro move_run_inv [OF inv _ run_moved(2)]) (auto simp: not_cancelling_def)
qed (use inv in \<open>auto intro: enroll_inv revoke_inv preflight_inv admit_inv acknowledge_inv intent_inv
  mark_ambiguous_inv fence_inv reset_inv cancel_inv run_created_inv\<close>)

interpretation fleet: invariant_system empty_fleet "fleet_step gates reads w" fleet_inv
proof
  show "empty_fleet db \<Longrightarrow> fleet_inv db" for db
    using store.invar_init
    by (auto simp: empty_fleet_def fleet_inv_def desktops_ok_def epochs_ok_def runs_ok_def stops_ok_def cancellations_ok_def)
qed (rule fleet_inv_step)

end
