(* ===== verification/Desktop_Guarantees.thy ===== *)
theory Desktop_Guarantees
  imports Desktop_Exclusion Portable
begin

text \<open>
  What a workspace may rely on, stated over every history of the desktop tables: exclusivity, readiness,
  quarantine, the action journal and cancellation.
\<close>

section \<open>What a step does to a registration\<close>

text \<open>
  The moves of one row: it is left alone, quarantined, retired, made ready by a preflight, leased, stopped,
  or reset.
\<close>

definition quarantined_as :: "registered_runner \<Rightarrow> registered_runner \<Rightarrow> bool" where
  "quarantined_as r q \<longleftrightarrow> rn_status q = QUARANTINED \<and> revoked q = revoked r"

definition made_ready :: "fleet \<Rightarrow> fleet \<Rightarrow> registered_runner \<Rightarrow> registered_runner \<Rightarrow> bool" where
  "made_ready db db' r q \<longleftrightarrow> rn_status r = PREFLIGHT_REQUIRED \<and> rn_status q = READY \<and> revoked q = revoked r \<and>
     (\<exists>p. preflights db' = preflights db @ [p] \<and> pf_runner p = rn_id r \<and> pf_epoch p = rn_epoch r \<and>
        pf_successful p \<and> is_successful (pf_result p) \<and> profile_drift (rn_profile r) (pf_result p) = [])"

definition was_reset_by :: "fleet \<Rightarrow> fleet \<Rightarrow> registered_runner \<Rightarrow> registered_runner \<Rightarrow> bool" where
  "was_reset_by db db' r q \<longleftrightarrow> rn_status q = PREFLIGHT_REQUIRED \<and> revoked q = revoked r \<and>
     (\<exists>x. resets db' = resets db @ [x] \<and> rs_runner x = rn_id r \<and> rs_succeeded x)"

definition runner_moves :: "fleet \<Rightarrow> fleet \<Rightarrow> registered_runner \<Rightarrow> registered_runner \<Rightarrow> bool" where
  "runner_moves db db' r q \<longleftrightarrow> rn_id q = rn_id r \<and> rn_session q = rn_session r \<and> rn_profile q = rn_profile r \<and>
     (q = r \<or> quarantined_as r q \<or> revoked q \<and> rn_status q = OFFLINE \<or> made_ready db db' r q \<or>
      rn_status r = READY \<and> rn_status q = BUSY \<and> revoked q = revoked r \<or>
      rn_status r \<noteq> QUARANTINED \<and> rn_status q = PREFLIGHT_REQUIRED \<and> revoked q = revoked r \<or>
      was_reset_by db db' r q) \<and>
     (rn_status q = BUSY \<or> rn_epoch q = rn_epoch r)"

lemma runner_moves_refl [simp]: "runner_moves db db' r r"
  by (simp add: runner_moves_def)

definition registry_moves :: "fleet \<Rightarrow> fleet \<Rightarrow> bool" where
  "registry_moves db db' \<longleftrightarrow> (\<exists>rs new. registry db' = rs @ new \<and> list_all2 (runner_moves db db') (registry db) rs \<and>
     (\<forall>q \<in> set new. rn_status q = PREFLIGHT_REQUIRED \<and> \<not> revoked q \<and> rn_epoch q = 0))"

lemma registry_moves_same: "registry db' = registry db \<Longrightarrow> registry_moves db db'"
  unfolding registry_moves_def by (intro exI [of _ "registry db"] exI [of _ "[]"]) (simp add: list.rel_refl)

lemma registry_moves_all2: "list_all2 (runner_moves db db') (registry db) (registry db') \<Longrightarrow> registry_moves db db'"
  unfolding registry_moves_def by (intro exI [of _ "registry db'"] exI [of _ "[]"]) simp

lemma change_runner_rows:
  assumes "change_runner i f a = Inr b"
  shows "b = a\<lparr>registry := update_where (\<lambda>r. rn_id r = i) f (registry a)\<rparr>"
    and "\<forall>r \<in> set (registry a). rn_id r = i \<longrightarrow> runner_checks (f r)"
  using assms by (auto simp: change_runner_def list_ex_iff split: if_splits)

lemma change_runner_moves:
  assumes "change_runner i f a = Inr b" and "registry a = registry db"
    and "\<And>r. r \<in> set (registry db) \<Longrightarrow> rn_id r = i \<Longrightarrow> runner_checks (f r) \<Longrightarrow> runner_moves db db' r (f r)"
    and "registry db' = registry b"
  shows "registry_moves db db'"
proof (rule registry_moves_all2)
  note c = change_runner_rows [OF assms(1)]
  show "list_all2 (runner_moves db db') (registry db) (registry db')"
    using c assms(2-4) by (auto intro!: all2_update_where)
qed

section \<open>Tables a step leaves alone\<close>

lemma quarantine_row:
  assumes "quarantine i why now a = Inr b"
  shows "\<exists>f. change_runner i f a = Inr b \<and> (\<forall>r. rn_id (f r) = rn_id r \<and> rn_session (f r) = rn_session r \<and>
    rn_profile (f r) = rn_profile r \<and> rn_epoch (f r) = rn_epoch r \<and> quarantined_as r (f r))"
  using assms unfolding quarantine_def
  by (intro exI conjI, assumption) (simp add: quarantined_as_def set_status_def revoked_def)

abbreviation maybe_quarantined :: "registered_runner \<Rightarrow> registered_runner \<Rightarrow> bool" where
  "maybe_quarantined r q \<equiv> q = r \<or> quarantined_as r q \<and> rn_id q = rn_id r \<and> rn_session q = rn_session r \<and>
     rn_profile q = rn_profile r \<and> rn_epoch q = rn_epoch r"

definition only_quarantines :: "fleet \<Rightarrow> fleet \<Rightarrow> bool" where
  "only_quarantines a b \<longleftrightarrow> list_all2 maybe_quarantined (registry a) (registry b) \<and>
     preflights b = preflights a \<and> resets b = resets a"

lemma only_quarantines_refl: "registry b = registry a \<Longrightarrow> preflights b = preflights a \<Longrightarrow> resets b = resets a \<Longrightarrow>
    only_quarantines a b"
  by (simp add: only_quarantines_def list.rel_refl)

lemma only_quarantines_trans:
  assumes "only_quarantines a b" and "only_quarantines b c"
  shows "only_quarantines a c"
proof -
  have "list_all2 maybe_quarantined (registry a) (registry c)"
    by (rule list_all2_trans [of maybe_quarantined maybe_quarantined _ "registry a" "registry b"])
      (use assms in \<open>auto simp: only_quarantines_def quarantined_as_def\<close>)
  with assms show ?thesis by (simp add: only_quarantines_def)
qed

lemma only_quarantines_moves: "only_quarantines db db' \<Longrightarrow> registry_moves db db'"
  unfolding only_quarantines_def
  by (intro registry_moves_all2) (auto elim!: list_all2_mono simp: runner_moves_def)

lemma quarantine_only:
  assumes "quarantine i why now a = Inr b"
  shows "only_quarantines a b"
proof -
  from quarantine_row [OF assms] obtain f where c: "change_runner i f a = Inr b"
    and f: "\<And>r. maybe_quarantined r (f r)" by blast
  have "list_all2 maybe_quarantined (registry a) (update_where (\<lambda>r. rn_id r = i) f (registry a))"
    by (rule all2_update_where) (use f in blast)+
  then show ?thesis unfolding change_runner_rows(1) [OF c] only_quarantines_def by simp
qed

lemma quarantine_all_only: "quarantine_all ids why now a = Inr b \<Longrightarrow> only_quarantines a b"
proof (induction ids arbitrary: a)
  case Nil
  then show ?case by (simp add: only_quarantines_refl)
next
  case (Cons i ids)
  then obtain c where "quarantine i why now a = Inr c" "quarantine_all ids why now c = Inr b"
    by (auto simp: bind_result_Inr)
  with Cons.IH quarantine_only only_quarantines_trans show ?case by blast
qed

lemma change_lease_only: "change_lease hit f a = Inr b \<Longrightarrow> only_quarantines a b"
  by (auto simp: change_lease_def intro!: only_quarantines_refl split: if_splits)

lemma change_actions_only: "change_actions hit f a = Inr b \<Longrightarrow> only_quarantines a b"
  by (auto simp: change_actions_def intro!: only_quarantines_refl split: if_splits)

lemma move_run_only: "move_run rd w run reducer why e now a = Inr b \<Longrightarrow> only_quarantines a b"
  by (auto simp: move_run_def bind_result_Inr intro!: only_quarantines_refl)

lemma mark_ambiguous_only:
  assumes "mark_action_ambiguous i why detail now a = Inr b"
  shows "only_quarantines a b"
  using assms unfolding mark_action_ambiguous_def
  by (auto simp: bind_result_Inr split: option.splits dest!: change_actions_only change_lease_only quarantine_only)
    (blast intro: only_quarantines_trans)

lemma fence_only: "fence_expired_leases now a = Inr (b, ids) \<Longrightarrow> only_quarantines a b"
  unfolding fence_expired_leases_def Let_def
  by (auto simp: bind_result_Inr intro: change_lease_only quarantine_all_only only_quarantines_trans)

section \<open>Every step\<close>

lemma quarantined_needs_reason:
  "runner_checks (set_status PREFLIGHT_REQUIRED now r) \<Longrightarrow> runner_checks r \<Longrightarrow> rn_status r \<noteq> QUARANTINED"
  by (auto simp: runner_checks_def set_status_def)

lemma stop_moves:
  assumes "\<forall>r \<in> set (registry db). runner_checks r" and "acknowledge_lease_stop i e now db = Inr db'"
  shows "registry_moves db db'"
proof -
  from assms(2) obtain l where "find_lease i db = Some l"
    by (auto simp: acknowledge_lease_stop_def split: option.splits)
  with assms(2) obtain db1 where c: "change_lease (\<lambda>q. l_id q = i) (\<lambda>q. q\<lparr>l_stop_at := Some now,
      l_stop_epoch := Some e, l_released := Some now, l_reason := Some STOP_ACKNOWLEDGED\<rparr>) db = Inr db1"
    and r: "change_runner (l_runner l) (set_status PREFLIGHT_REQUIRED now) db1 = Inr db'"
    by (auto simp: acknowledge_lease_stop_def bind_result_Inr split: if_splits)
  have "registry db1 = registry db" using c by (auto simp: change_lease_def split: if_splits)
  then show ?thesis
  proof (rule change_runner_moves [OF r _ _ refl])
    fix r assume r: "r \<in> set (registry db)" "runner_checks (set_status PREFLIGHT_REQUIRED now r)"
    then have "rn_status r \<noteq> QUARANTINED" using assms(1) quarantined_needs_reason by blast
    then show "runner_moves db db' r (set_status PREFLIGHT_REQUIRED now r)"
      by (simp add: runner_moves_def) (simp add: set_status_def)
  qed
qed

lemma retire_moves:
  assumes "revoke_runner i now db = Inr db'"
  shows "registry_moves db db'"
proof -
  from assms have c: "change_runner i (\<lambda>r. if revoked r then r
        else clear_quarantine ((set_status OFFLINE now r)\<lparr>rn_revoked_at := Some now\<rparr>)) db = Inr db'"
    by (auto simp: revoke_runner_def split: if_splits)
  show ?thesis
    by (rule change_runner_moves [OF c refl _ refl])
      (auto simp: runner_moves_def clear_quarantine_def set_status_def revoked_def)
qed

lemma enroll_moves:
  assumes "enroll_runner fresh secret name session profile now db = Inr db'"
  shows "registry_moves db db'"
proof -
  from assms obtain desktop pd ts where
    "db' = db\<lparr>registry := registry db @ [new_runner fresh name desktop pd session profile now], tokens := ts\<rparr>"
    by (auto simp: enroll_runner_def bind_result_Inr map_error_Inr split: if_splits)
  then show ?thesis
    unfolding registry_moves_def
    by (intro exI [of _ "registry db"] exI [of _ "[new_runner fresh name desktop pd session profile now]"])
      (simp add: list.rel_refl new_runner_def revoked_def)
qed

lemma preflight_moves:
  assumes inv: "fleet_inv db" and "record_preflight fresh i result now db = Inr (db', ok)"
  shows "registry_moves db db'"
proof -
  from assms(2) obtain r where r: "find_runner i db = Some r"
    by (auto simp: record_preflight_def split: option.splits)
  define p where "p = preflight_entry fresh r result now"
  define why where "why = (if profile_drift (rn_profile r) result \<noteq> [] then PROFILE_DRIFTED else PREFLIGHT_FAILED)"
  let ?db = "db\<lparr>preflights := preflights db @ [p]\<rparr>"
  from assms(2) have "(if fst (preflight_verdict r result)
      then bind_result (map_error RefusedPreflight (assert_runner_transition (rn_status r) READY (Some result))) (\<lambda>_.
        bind_result (change_runner i (clear_quarantine \<circ> set_status READY now) ?db) (\<lambda>db2. Inr (db2, True)))
      else bind_result (quarantine i why now ?db) (\<lambda>db2. Inr (db2, False))) = Inr (db', ok)"
    unfolding record_preflight_def r p_def why_def Let_def option.case by (simp only: if_Inl_Inr)
  then consider (refused) "quarantine i why now ?db = Inr db'"
    | (passed) "fst (preflight_verdict r result)" "assert_runner_transition (rn_status r) READY (Some result) = Inr ()"
        "change_runner i (clear_quarantine \<circ> set_status READY now) ?db = Inr db'"
    by (auto simp: bind_result_Inr split: if_splits)
  then show ?thesis
  proof cases
    case refused
    then have "list_all2 maybe_quarantined (registry ?db) (registry db')"
      using quarantine_only unfolding only_quarantines_def by blast
    then show ?thesis by (intro registry_moves_all2) (auto elim!: list_all2_mono simp: runner_moves_def)
  next
    case passed
    have db': "preflights db' = preflights db @ [p]" using change_runner_rows(1) [OF passed(3)] by simp
    have p: "pf_runner p = i" "pf_epoch p = rn_epoch r" "pf_successful p" "pf_result p = result"
      "is_successful result" "profile_drift (rn_profile r) result = []"
      using passed(1) find_runnerD [OF r] by (simp_all add: p_def preflight_entry_def preflight_verdict_def)
    have pre: "rn_status r = PREFLIGHT_REQUIRED"
      using passed(2) by (cases "rn_status r") (auto simp: assert_runner_transition_def split: if_splits)
    show ?thesis
    proof (rule change_runner_moves [OF passed(3) _ _ refl])
      fix q assume "q \<in> set (registry db)" "rn_id q = i"
      then have "q = r" using find_runnerD [OF r] same_runner [OF inv] by simp
      then have "made_ready db db' q ((clear_quarantine \<circ> set_status READY now) q)"
        using p pre db' find_runnerD [OF r] unfolding made_ready_def by (intro conjI exI [of _ p]) simp_all
      then show "runner_moves db db' q ((clear_quarantine \<circ> set_status READY now) q)"
        by (simp add: runner_moves_def) (simp add: clear_quarantine_def set_status_def)
    qed simp
  qed
qed

lemma admit_moves:
  assumes inv: "fleet_inv db" and "admit_lease gates rd w fresh i run attempt ttl op now db = Inr (db', e)"
  shows "registry_moves db db'"
proof -
  from assms(2) obtain r where r: "find_runner i db = Some r"
    by (auto simp: admit_lease_def split: option.splits if_splits)
  define n where "n = new_lease fresh i (rn_session r) run attempt (rn_epoch r + 1) ttl now"
  from assms(2) r obtain db1 rv why where st: "rn_status r = READY"
    and g: "change_runner i (grant (rn_epoch r + 1) now) (db\<lparr>leases := leases db @ [n]\<rparr>) = Inr db1"
    and m: "move_run rd w run (\<lambda>s. admit_to_desktop s (rn_epoch r + 1) (Some (revision s))) why (Some rv) now db1 = Inr db'"
    by (auto simp: admit_lease_def Let_def bind_result_Inr n_def split: if_splits prod.splits)
  have "registry db' = registry db1" using m by (auto simp: move_run_def bind_result_Inr)
  then show ?thesis
  proof (rule change_runner_moves [OF g, rotated -1])
    fix q assume "q \<in> set (registry db)" "rn_id q = i"
    then have "q = r" using find_runnerD [OF r] same_runner [OF inv] by simp
    with st show "runner_moves db db' q (grant (rn_epoch r + 1) now q)"
      by (simp add: runner_moves_def grant_def set_status_def revoked_def)
  qed simp
qed

lemma reset_moves:
  assumes "reset_runner fresh i requester succeeded proof' now db = Inr db'"
  shows "registry_moves db db'"
proof -
  from assms obtain r where r: "find_runner i db = Some r"
    by (auto simp: reset_runner_def split: option.splits)
  define x where "x = \<lparr>rs_id = fresh, rs_runner = i, rs_epoch = rn_epoch r, rs_requester = requester,
      rs_succeeded = succeeded, rs_proof = proof', rs_created = now\<rparr>"
  from assms r obtain db2 where
    l: "change_lease (\<lambda>l. l_runner l = i \<and> active l) (release_lease SUPERSEDED_BY_RESET now) (db\<lparr>resets := resets db @ [x]\<rparr>) = Inr db2"
    and c: "(if succeeded then change_runner i (clear_quarantine \<circ> set_status PREFLIGHT_REQUIRED now) db2
       else quarantine i RESET_FAILED now db2) = Inr db'"
    by (auto simp: reset_runner_def Let_def bind_result_Inr x_def split: if_splits)
  have db2: "registry db2 = registry db" "resets db2 = resets db @ [x]"
    using l by (auto simp: change_lease_def split: if_splits)
  show ?thesis
  proof (cases succeeded)
    case False
    with c have "list_all2 maybe_quarantined (registry db2) (registry db')"
      using quarantine_only unfolding only_quarantines_def by auto
    then show ?thesis
      unfolding db2 by (intro registry_moves_all2) (auto elim!: list_all2_mono simp: runner_moves_def)
  next
    case True
    then have c: "change_runner i (clear_quarantine \<circ> set_status PREFLIGHT_REQUIRED now) db2 = Inr db'" using c by simp
    have rs: "resets db' = resets db @ [x]" using change_runner_rows(1) [OF c] db2 by simp
    show ?thesis
    proof (rule change_runner_moves [OF c db2(1) _ refl])
      fix q :: registered_runner assume "rn_id q = i"
      then have "was_reset_by db db' q ((clear_quarantine \<circ> set_status PREFLIGHT_REQUIRED now) q)"
        using rs True unfolding was_reset_by_def by (intro conjI exI [of _ x]) (simp_all add: x_def)
      then show "runner_moves db db' q ((clear_quarantine \<circ> set_status PREFLIGHT_REQUIRED now) q)"
        by (simp add: runner_moves_def) (simp add: clear_quarantine_def set_status_def)
    qed
  qed
qed

lemma only_quarantines_simps [simp]:
  "only_quarantines db (db\<lparr>tokens := ts\<rparr>)" "only_quarantines db (db\<lparr>journal := js\<rparr>)" "only_quarantines db (db\<lparr>store := s\<rparr>)"
  by (simp_all add: only_quarantines_refl)

lemma simple_steps_only:
  "issue_enrollment_token fresh secret creator ttl now db = Inr db' \<Longrightarrow> only_quarantines db db'"
  "heartbeat_lease i e extension now db = Inr (db', t) \<Longrightarrow> only_quarantines db db'"
  "cancel_lease i rv now db = Inr db' \<Longrightarrow> only_quarantines db db'"
  "mark_action_dispatched i now db = Inr db' \<Longrightarrow> only_quarantines db db'"
  "record_action_result i res detail now db = Inr db' \<Longrightarrow> only_quarantines db db'"
  "record_action_intent w fresh l run attempt e n a origin chord txt' now db = Inr db' \<Longrightarrow> only_quarantines db db'"
  "terminalize_cancellation rd w run rv service op now db = Inr db' \<Longrightarrow> only_quarantines db db'"
  by (auto simp: issue_enrollment_token_def heartbeat_lease_def cancel_lease_def mark_action_dispatched_def
      record_action_result_def record_action_intent_def terminalize_cancellation_def Let_def bind_result_Inr
      intro: change_lease_only change_actions_only move_run_only split: option.splits if_splits prod.splits)

lemma interrupt_only:
  "terminalize_ambiguous_attempt rd w run i why rv detail service op now db = Inr db' \<Longrightarrow> only_quarantines db db'"
  by (auto simp: terminalize_ambiguous_attempt_def bind_result_Inr dest!: mark_ambiguous_only move_run_only
      elim: only_quarantines_trans)

lemma fleet_step_moves:
  assumes inv: "fleet_inv db" and "fleet_step gates rd w db db'"
  shows "registry_moves db db'"
  using assms(2)
proof cases
  case (stop_acknowledged i e now)
  with inv show ?thesis by (intro stop_moves) (simp_all add: fleet_inv_def)
next
  case (preflighted fresh i result now ok)
  with inv show ?thesis by (rule preflight_moves)
next
  case (leased fresh i run attempt ttl op now e)
  with inv show ?thesis by (rule admit_moves)
qed (auto intro: enroll_moves retire_moves reset_moves only_quarantines_moves simple_steps_only interrupt_only
    mark_ambiguous_only fence_only move_run_only)

section \<open>Tables that only grow\<close>

text \<open>What an intent fixed: everything but the dispatch and the result.\<close>

definition same_intent :: "runner_action \<Rightarrow> runner_action \<Rightarrow> bool" where
  "same_intent a b \<longleftrightarrow> (a_id b, a_lease b, a_run b, a_attempt b, a_epoch b, a_sequence b) =
       (a_id a, a_lease a, a_run a, a_attempt a, a_epoch a, a_sequence a) \<and>
     (a_action b, a_chord b, a_text b, a_origin b, a_intent b) = (a_action a, a_chord a, a_text a, a_origin a, a_intent a)"

definition action_grows :: "runner_action \<Rightarrow> runner_action \<Rightarrow> bool" where
  "action_grows a b \<longleftrightarrow> same_intent a b \<and>
     (a_dispatched a \<noteq> None \<longrightarrow> a_dispatched b = a_dispatched a) \<and>
     (\<not> unresolved a \<longrightarrow> a_result_at b = a_result_at a \<and> a_status b = a_status a \<and> a_detail b = a_detail a \<and>
        a_ambiguity b = a_ambiguity a)"

definition tables_grow :: "fleet \<Rightarrow> fleet \<Rightarrow> bool" where
  "tables_grow a b \<longleftrightarrow> (\<exists>xs. resets b = resets a @ xs) \<and> (\<exists>ps. preflights b = preflights a @ ps) \<and>
     (\<exists>js new. journal b = js @ new \<and> list_all2 action_grows (journal a) js)"

lemma action_grows_refl [simp]: "action_grows a a"
  by (simp add: action_grows_def same_intent_def)

lemma action_grows_trans: "action_grows a b \<Longrightarrow> action_grows b c \<Longrightarrow> action_grows a c"
  by (auto simp: action_grows_def unresolved_def same_intent_def)

lemma tables_grow_same:
  "resets b = resets a \<Longrightarrow> preflights b = preflights a \<Longrightarrow> journal b = journal a \<Longrightarrow> tables_grow a b"
  unfolding tables_grow_def by (intro conjI exI [of _ "[]"] exI [of _ "journal a"]) (simp_all add: list.rel_refl)

lemma tables_grow_trans:
  assumes "tables_grow a b" and "tables_grow b c"
  shows "tables_grow a c"
proof -
  from assms obtain js new js' new' where j: "journal b = js @ new" "list_all2 action_grows (journal a) js"
    "journal c = js' @ new'" "list_all2 action_grows (js @ new) js'"
    unfolding tables_grow_def by metis
  then obtain ks ls where k: "js' = ks @ ls" "list_all2 action_grows js ks" by (auto simp: list_all2_append1)
  have "list_all2 action_grows (journal a) ks"
    by (rule list_all2_trans [OF action_grows_trans j(2) k(2)])
  with j k have "\<exists>js new. journal c = js @ new \<and> list_all2 action_grows (journal a) js" by auto
  with assms show ?thesis unfolding tables_grow_def by fastforce
qed

lemma tables_grow_journal:
  assumes "change_actions hit f a = Inr b" and "\<And>x. hit x \<Longrightarrow> action_grows x (f x)"
  shows "tables_grow a b"
proof -
  from assms(1) have b: "b = a\<lparr>journal := update_where hit f (journal a)\<rparr>"
    by (auto simp: change_actions_def split: if_splits)
  have "list_all2 action_grows (journal a) (update_where hit f (journal a))"
    by (rule all2_update_where) (use assms(2) in simp_all)
  then show ?thesis
    unfolding tables_grow_def b by (intro conjI exI [of _ "[]"] exI [of _ "update_where hit f (journal a)"]) simp_all
qed

lemma basic_grows:
  "change_runner i f a = Inr b \<Longrightarrow> tables_grow a b"
  "change_lease hit g a = Inr b \<Longrightarrow> tables_grow a b"
  "quarantine i why now a = Inr b \<Longrightarrow> tables_grow a b"
  "move_run rd w run reducer c e now a = Inr b \<Longrightarrow> tables_grow a b"
  by (auto simp: change_runner_def change_lease_def quarantine_def move_run_def bind_result_Inr
      intro!: tables_grow_same split: if_splits)

lemma quarantine_all_grows: "quarantine_all ids why now a = Inr b \<Longrightarrow> tables_grow a b"
  by (induction ids arbitrary: a)
    (auto simp: bind_result_Inr tables_grow_same intro: tables_grow_trans basic_grows)

lemma mark_ambiguous_grows: "mark_action_ambiguous i why detail now a = Inr b \<Longrightarrow> tables_grow a b"
  unfolding mark_action_ambiguous_def
  by (auto simp: bind_result_Inr action_grows_def same_intent_def split: option.splits dest!: tables_grow_journal basic_grows(2,3))
    (blast intro: tables_grow_trans)

lemma tables_growI:
  "resets b = resets a @ xs \<Longrightarrow> preflights b = preflights a @ ps \<Longrightarrow> journal b = journal a @ js \<Longrightarrow> tables_grow a b"
  unfolding tables_grow_def
  by (intro conjI exI [of _ xs] exI [of _ ps] exI [of _ "journal a"] exI [of _ js]) (simp_all add: list.rel_refl)

lemma preflight_grows:
  assumes "record_preflight fresh i result now db = Inr (db', ok)"
  shows "tables_grow db db'"
proof -
  from assms obtain r f why where "change_runner i f (db\<lparr>preflights := preflights db @ [preflight_entry fresh r result now]\<rparr>) = Inr db' \<or>
      quarantine i why now (db\<lparr>preflights := preflights db @ [preflight_entry fresh r result now]\<rparr>) = Inr db'"
    by (auto simp: record_preflight_def Let_def bind_result_Inr map_error_Inr split: option.splits if_splits) 
  then have "tables_grow (db\<lparr>preflights := preflights db @ [preflight_entry fresh r result now]\<rparr>) db'"
    using basic_grows(1,3) by blast
  then show ?thesis
    by (rule tables_grow_trans [rotated]) (rule tables_growI [of _ _ "[]" _ "[]"], simp_all)
qed

lemma reset_grows:
  assumes "reset_runner fresh i requester succeeded proof' now db = Inr db'"
  shows "tables_grow db db'"
proof -
  from assms obtain x db2 where
    l: "change_lease (\<lambda>l. l_runner l = i \<and> active l) (release_lease SUPERSEDED_BY_RESET now) (db\<lparr>resets := resets db @ [x]\<rparr>) = Inr db2"
    and c: "(if succeeded then change_runner i (clear_quarantine \<circ> set_status PREFLIGHT_REQUIRED now) db2
       else quarantine i RESET_FAILED now db2) = Inr db'"
    by (auto simp: reset_runner_def Let_def bind_result_Inr split: option.splits if_splits)
  have "tables_grow db (db\<lparr>resets := resets db @ [x]\<rparr>)" by (rule tables_growI [of _ _ _ "[]" "[]"]) simp_all
  moreover have "tables_grow db2 db'" using c by (auto intro: basic_grows split: if_splits)
  ultimately show ?thesis using basic_grows(2) [OF l] by (blast intro: tables_grow_trans)
qed

lemma intent_grows:
  "record_action_intent w fresh l run attempt e n a origin chord txt' now db = Inr db' \<Longrightarrow> tables_grow db db'"
  by (auto simp: record_action_intent_def Let_def intro!: tables_growI [of _ _ "[]" "[]"] split: option.splits if_splits)

lemma admit_grows:
  assumes "admit_lease gates rd w fresh i run attempt ttl op now db = Inr (db', e)"
  shows "tables_grow db db'"
proof -
  from assms obtain ls f db1 red c rv where g: "change_runner i f (db\<lparr>leases := ls\<rparr>) = Inr db1"
    and m: "move_run rd w run red c rv now db1 = Inr db'"
    by (auto simp: admit_lease_def Let_def bind_result_Inr split: option.splits if_splits prod.splits)
  have "tables_grow db (db\<lparr>leases := ls\<rparr>)" by (rule tables_grow_same) simp_all
  with basic_grows(1) [OF g] basic_grows(4) [OF m] show ?thesis by (blast intro: tables_grow_trans)
qed

lemma acknowledge_grows:
  assumes "acknowledge_lease_stop i e now db = Inr db'"
  shows "tables_grow db db'"
proof -
  from assms obtain hit f db1 j g where c: "change_lease hit f db = Inr db1" and r: "change_runner j g db1 = Inr db'"
    by (auto simp: acknowledge_lease_stop_def bind_result_Inr split: option.splits if_splits)
  with basic_grows show ?thesis by (blast intro: tables_grow_trans)
qed

lemma simple_grows:
  "issue_enrollment_token fresh secret creator ttl now db = Inr db' \<Longrightarrow> tables_grow db db'"
  "enroll_runner fresh secret name session profile now db = Inr db' \<Longrightarrow> tables_grow db db'"
  "revoke_runner i now db = Inr db' \<Longrightarrow> tables_grow db db'"
  "heartbeat_lease i e extension now db = Inr (db', t) \<Longrightarrow> tables_grow db db'"
  "cancel_lease i rv now db = Inr db' \<Longrightarrow> tables_grow db db'"
  "terminalize_cancellation rd w run rv service op now db = Inr db' \<Longrightarrow> tables_grow db db'"
  by (auto simp: issue_enrollment_token_def enroll_runner_def revoke_runner_def heartbeat_lease_def cancel_lease_def
      terminalize_cancellation_def Let_def bind_result_Inr intro: basic_grows tables_grow_same
      split: if_splits prod.splits)

lemma journal_grows:
  assumes "mark_action_dispatched i now db = Inr db' \<or> record_action_result i res detail now db = Inr db'"
  shows "tables_grow db db'"
proof -
  from assms obtain hit f where c: "change_actions hit f db = Inr db'" and "\<And>a. hit a \<Longrightarrow> action_grows a (f a)"
    by (auto simp: mark_action_dispatched_def record_action_result_def Let_def action_grows_def same_intent_def split: if_splits)
  then show ?thesis by (rule tables_grow_journal)
qed

lemma longer_grows:
  "fence_expired_leases now db = Inr (db', ids) \<Longrightarrow> tables_grow db db'"
  "terminalize_ambiguous_attempt rd w run i why rv detail service op now db = Inr db' \<Longrightarrow> tables_grow db db'"
  by (auto simp: fence_expired_leases_def terminalize_ambiguous_attempt_def Let_def bind_result_Inr
      dest!: basic_grows(2,4) quarantine_all_grows mark_ambiguous_grows intro: tables_grow_trans)

lemma fleet_step_grows: "fleet_step gates rd w db db' \<Longrightarrow> tables_grow db db'"
  by (erule fleet_step.cases)
    (auto intro: preflight_grows reset_grows intent_grows admit_grows acknowledge_grows simple_grows journal_grows
      longer_grows mark_ambiguous_grows basic_grows(4) tables_grow_same)

lemma fleet_run_grows: "(fleet_step gates rd w)\<^sup>*\<^sup>* db db' \<Longrightarrow> tables_grow db db'"
  by (induction rule: rtranclp_induct) (auto intro: tables_grow_same fleet_step_grows tables_grow_trans)

lemma fleet_run_inv:
  "reachable empty_fleet (fleet_step gates rd w) db \<Longrightarrow> (fleet_step gates rd w)\<^sup>*\<^sup>* db db' \<Longrightarrow> fleet_inv db'"
  using fleet.invar_run fleet.invar_reachable by blast

section \<open>Readiness and quarantine over time\<close>

text \<open>A trusted reset of runner \<open>i\<close>, and a successful preflight of it, recorded between two moments.\<close>

definition reset_between :: "fleet \<Rightarrow> fleet \<Rightarrow> pytext \<Rightarrow> bool" where
  "reset_between db db' i \<longleftrightarrow> (\<exists>x \<in> set (drop (length (resets db)) (resets db')). rs_runner x = i \<and> rs_succeeded x)"

definition preflight_between :: "fleet \<Rightarrow> fleet \<Rightarrow> registered_runner \<Rightarrow> bool" where
  "preflight_between db db' r \<longleftrightarrow> (\<exists>p \<in> set (drop (length (preflights db)) (preflights db')).
     pf_runner p = rn_id r \<and> pf_epoch p = rn_epoch r \<and> pf_successful p \<and>
     (\<forall>k. reported (pf_result p) k = Some TRUE) \<and> profile_drift (rn_profile r) (pf_result p) = [])"

lemma between_grows:
  assumes "tables_grow a b" and "tables_grow b c"
  shows "reset_between a b i \<Longrightarrow> reset_between a c i" and "preflight_between a b r \<Longrightarrow> preflight_between a c r"
    and "resets c = resets b @ [x] \<Longrightarrow> rs_runner x = i \<Longrightarrow> rs_succeeded x \<Longrightarrow> reset_between a c i"
  using assms unfolding tables_grow_def reset_between_def preflight_between_def by auto

lemma moved_row:
  assumes "registry_moves db db'" and "distinct (map rn_id (registry db'))"
    and "r \<in> set (registry db)" and "q \<in> set (registry db')" and "rn_id q = rn_id r"
  shows "runner_moves db db' r q"
proof -
  from assms(1) obtain rs new where m: "registry db' = rs @ new" "list_all2 (runner_moves db db') (registry db) rs"
    unfolding registry_moves_def by blast
  from all2_partner_of [OF m(2) assms(3)] obtain p where p: "p \<in> set rs" "runner_moves db db' r p" by blast
  then have "rn_id p = rn_id q" using assms(5) by (simp add: runner_moves_def)
  with p(1) m(1) assms(2,4) have "p = q" by (auto dest: distinct_rows)
  with p(2) show ?thesis by simp
qed

lemma row_persists:
  assumes "registry_moves db db'" and "r \<in> set (registry db)"
  shows "\<exists>q \<in> set (registry db'). rn_id q = rn_id r \<and> rn_session q = rn_session r \<and> runner_moves db db' r q"
proof -
  from assms(1) obtain rs new where m: "registry db' = rs @ new" "list_all2 (runner_moves db db') (registry db) rs"
    unfolding registry_moves_def by blast
  from all2_partner_of [OF m(2) assms(2)] obtain p where p: "p \<in> set rs" "runner_moves db db' r p" by blast
  then show ?thesis using m(1) by (intro bexI [of _ p]) (auto simp: runner_moves_def)
qed

lemma quarantine_until:
  assumes "fleet_inv db" and "(fleet_step gates rd w)\<^sup>*\<^sup>* db db'"
    and "r \<in> set (registry db)" and "rn_status r = QUARANTINED"
  shows "\<exists>q \<in> set (registry db'). rn_id q = rn_id r \<and> rn_session q = rn_session r \<and>
    (rn_status q = QUARANTINED \<or> revoked q \<or> reset_between db db' (rn_id r))"
  using assms(2)
proof (induction rule: rtranclp_induct)
  case base
  then show ?case using assms(3,4) by blast
next
  case (step db1 db2)
  have inv1: "fleet_inv db1" using fleet.invar_run [OF step.hyps(1) assms(1)] .
  have grow: "tables_grow db db1" "tables_grow db1 db2"
    using fleet_run_grows [OF step.hyps(1)] fleet_step_grows [OF step.hyps(2)] .
  note moves = fleet_step_moves [OF inv1 step.hyps(2)]
  from step.IH obtain q where q: "q \<in> set (registry db1)" "rn_id q = rn_id r" "rn_session q = rn_session r"
    "rn_status q = QUARANTINED \<or> revoked q \<or> reset_between db db1 (rn_id r)" by blast
  from row_persists [OF moves q(1)] obtain p where p: "p \<in> set (registry db2)" "rn_id p = rn_id q"
    "rn_session p = rn_session q" "runner_moves db1 db2 q p" by blast
  have "rn_status p = QUARANTINED \<or> revoked p \<or> reset_between db db2 (rn_id r)"
    using q(4)
  proof (elim disjE)
    assume "reset_between db db1 (rn_id r)"
    with between_grows(1) [OF grow] show ?thesis by blast
  next
    assume "revoked q"
    with p(4) show ?thesis by (auto simp: runner_moves_def quarantined_as_def made_ready_def was_reset_by_def)
  next
    assume "rn_status q = QUARANTINED"
    with p(4) consider "rn_status p = QUARANTINED" | "revoked p" | "was_reset_by db1 db2 q p"
      by (auto simp: runner_moves_def quarantined_as_def made_ready_def)
    then show ?thesis
    proof cases
      case 3
      then obtain x where "resets db2 = resets db1 @ [x]" "rs_runner x = rn_id q" "rs_succeeded x"
        by (auto simp: was_reset_by_def)
      with between_grows(3) [OF grow] q(2) show ?thesis by metis
    qed simp_all
  qed
  with p q show ?case by (intro bexI [OF _ p(1)]) simp
qed

lemma ready_is_earned:
  assumes "fleet_inv db" and "(fleet_step gates rd w)\<^sup>*\<^sup>* db db'"
    and "\<forall>r \<in> set (registry db). rn_id r = i \<longrightarrow> rn_status r \<noteq> READY"
  shows "\<forall>q \<in> set (registry db'). rn_id q = i \<and> rn_status q = READY \<longrightarrow> preflight_between db db' q"
  using assms(2)
proof (induction rule: rtranclp_induct)
  case base
  then show ?case using assms(3) by blast
next
  case (step db1 db2)
  have inv1: "fleet_inv db1" using fleet.invar_run [OF step.hyps(1) assms(1)] .
  then have inv2: "fleet_inv db2" using step.hyps(2) by (rule fleet_inv_step)
  have grow: "tables_grow db db1" "tables_grow db1 db2"
    using fleet_run_grows [OF step.hyps(1)] fleet_step_grows [OF step.hyps(2)] .
  from fleet_step_moves [OF inv1 step.hyps(2)] obtain rs new where
    m: "registry db2 = rs @ new" "list_all2 (runner_moves db1 db2) (registry db1) rs"
      "\<forall>q \<in> set new. rn_status q = PREFLIGHT_REQUIRED \<and> \<not> revoked q \<and> rn_epoch q = 0"
    unfolding registry_moves_def by blast
  show ?case
  proof (intro ballI impI, elim conjE)
    fix q assume q: "q \<in> set (registry db2)" "rn_id q = i" "rn_status q = READY"
    with m(1,3) have "q \<in> set rs" by auto
    from all2_partner [OF m(2) this] obtain p where p: "p \<in> set (registry db1)" "runner_moves db1 db2 p q" by blast
    have same: "rn_id p = i" "rn_profile q = rn_profile p" using p(2) q(2) by (auto simp: runner_moves_def)
    from p(2) q(3) consider "q = p" | "made_ready db1 db2 p q"
      by (auto simp: runner_moves_def quarantined_as_def was_reset_by_def)
    then show "preflight_between db db2 q"
    proof cases
      case 1
      with step.IH p(1) same q(3) have "preflight_between db db1 q" by blast
      then show ?thesis by (rule between_grows(2) [OF grow])
    next
      case 2
      then obtain x where "preflights db2 = preflights db1 @ [x]" "pf_runner x = rn_id p" "pf_epoch x = rn_epoch p"
        "pf_successful x" "is_successful (pf_result x)" "profile_drift (rn_profile p) (pf_result x) = []"
        by (auto simp: made_ready_def)
      moreover have "rn_epoch q = rn_epoch p" "rn_id q = rn_id p" using p(2) q(3) by (auto simp: runner_moves_def)
      moreover obtain ps where "preflights db1 = preflights db @ ps" using grow(1) by (auto simp: tables_grow_def)
      ultimately show ?thesis
        using same unfolding preflight_between_def is_successful_iff by (intro bexI [of _ x]) auto
    qed
  qed
qed

section \<open>A desktop at work\<close>

text \<open>Concrete histories: a registration made ready, leased, and fenced when its lease ran out.\<close>

lemma applies:
  assumes "store_inv s" and "find_run w i s = Some r" and "lawful reducer" and "reducer (row_to_state r) = Inr after"
    and "column rd (cancel_requested_at after) = Inr req" and "column rd (stop_acknowledged_at after) = Inr ack"
    and "runs s = [r]"
  shows "\<exists>s'. apply_transition rd w i reducer why (Some (c_revision r)) now s = Inr (s', after) \<and>
    runs s' = [set_columns after req ack now r]"
proof -
  have r: "r \<in> set (runs s)" using find_run_Some [OF assms(2)] by blast
  have "write_run rd w (row_to_state r) after now s =
      Inr (s\<lparr>runs := update_where (\<lambda>q. q = r) (set_columns after req ack now) (runs s)\<rparr>)"
    using write_run_found [OF _ assms(2), of rd after now] assms(1,5,6) lawful_row(3) [OF assms(1) r assms(3,4)]
      lawful_checks [OF assms(1) r assms(3,4), of rd req ack now]
    by (simp add: store_inv_def)
  with assms(2,4,7) show ?thesis by (simp add: apply_transition_def Let_def row_to_state_def)
qed

text \<open>A transition of the only run of a fleet.\<close>

lemma moves:
  assumes "fleet_inv db" and "runs (store db) = [r]" and "c_id r = i" and "c_workspace r = w" and "lawful reducer"
    and "reducer (row_to_state r) = Inr after"
    and "column rd (cancel_requested_at after) = Inr req" and "column rd (stop_acknowledged_at after) = Inr ack"
    and "v = Some (c_revision r)"
  obtains s' where "move_run rd w i reducer why v now db = Inr (db\<lparr>store := s'\<rparr>)"
    "runs s' = [set_columns after req ack now r]"
proof -
  have "find_run w i (store db) = Some r" using assms(2-4) by (simp add: find_run_def row_def)
  moreover have "store_inv (store db)" using assms(1) by (simp add: fleet_inv_def)
  ultimately obtain s' where "apply_transition rd w i reducer why (Some (c_revision r)) now (store db) = Inr (s', after)"
    "runs s' = [set_columns after req ack now r]"
    using applies [OF _ _ assms(5-8,2)] by blast
  then show ?thesis using assms(9) by (intro that [of s']) (simp_all add: move_run_def)
qed

definition open_gates :: run_gates where
  "open_gates = \<lparr>run_live = \<lambda>run. True, setup_unresolved = \<lambda>run. False, lease_recorded = \<lambda>run l e. True,
     lease_asserted = \<lambda>run l e. True\<rparr>"

definition sample_preflight :: "pytext \<Rightarrow> preflight_result" where
  "sample_preflight pd = good_preflight\<lparr>runner_profile_digest := pd, environment_config_digest := pd,
     preflight_manifest_digest := pd\<rparr>"

lemma digest_hex: "digest v = Inr d \<Longrightarrow> is_sha256_hex d"
  by (auto simp: digest_message bind_result_Inr is_sha256_hex_sha256)

lemma sample_identity:
  "\<exists>d. session_key sample_session = Inr d \<and> is_sha256_hex d" "\<exists>d. profile_digest sample_profile = Inr d \<and> is_sha256_hex d"
proof -
  have "portable (session_document sample_session)" "portable (profile_document sample_profile)"
    by (simp_all add: session_document_def sample_session_def profile_document_def sample_profile_def scalar_def
        high_surrogate_def low_surrogate_def)
  then obtain d e where "digest (session_document sample_session) = Inr d" "digest (profile_document sample_profile) = Inr e"
    unfolding digest_portable [symmetric] by (auto simp: succeeds_def split: sum.splits)
  then show "\<exists>d. session_key sample_session = Inr d \<and> is_sha256_hex d" "\<exists>d. profile_digest sample_profile = Inr d \<and> is_sha256_hex d"
    by (auto simp: session_key_def profile_digest_def map_error_Inr dest: digest_hex)
qed

definition no_fleet :: fleet where
  "no_fleet = \<lparr>store = no_runs, registry = [], tokens = [], preflights = [], leases = [], journal = [], resets = []\<rparr>"

definition sample_token :: enrollment_token where
  "sample_token = \<lparr>token_id = [116], token_digest = hex (sha256 [97]), token_expires = seconds 60,
     token_redeemed = None, token_runner = None, token_creator = [99]\<rparr>"

abbreviation sample_step :: "fleet \<Rightarrow> fleet \<Rightarrow> bool" where
  "sample_step \<equiv> fleet_step open_gates read_moment [119]"

lemma sample_token_digest: "digest_token [97] = Inr (hex (sha256 [97]))"
  by (simp add: digest_token_def encode_utf8_def scalar_def high_surrogate_def low_surrogate_def utf8_char_def)

lemma sample_issued: "issue_enrollment_token [116] [97] [99] 60 0 no_fleet = Inr (no_fleet\<lparr>tokens := [sample_token]\<rparr>)"
  by (simp add: issue_enrollment_token_def sample_token_digest no_fleet_def sample_token_def)

lemma sample_drift: "profile_drift sample_profile (sample_preflight pd) = []"
  by (simp add: profile_drift_def sample_profile_def sample_preflight_def good_preflight_def)

lemma sample_successful: "is_successful (sample_preflight pd)"
  by (auto simp: is_successful_def missing_checks_def failed_checks_def unknown_checks_def
      reported_def sample_preflight_def good_preflight_def REQUIRED_PREFLIGHT_CHECKS_def)

lemma sample_ready:
  obtains db r where "reachable empty_fleet sample_step db" "registry db = [r]" "rn_id r = [82]" "rn_status r = READY"
    "\<not> revoked r" "rn_epoch r = 0" "leases db = []" "journal db = []" "resets db = []" "runs (store db) = [queued_row]"
    "rn_session r = rn_session r"
proof -
  obtain d where d: "session_key sample_session = Inr d" "is_sha256_hex d" using sample_identity(1) by blast
  obtain e where e: "profile_digest sample_profile = Inr e" "is_sha256_hex e" using sample_identity(2) by blast
  define r0 where "r0 = new_runner [82] [110] d e sample_session sample_profile 1"
  define t where "t = sample_token\<lparr>token_redeemed := Some 1, token_runner := Some [82]\<rparr>"
  define db0 where "db0 = no_fleet\<lparr>tokens := [sample_token]\<rparr>"
  define db1 where "db1 = no_fleet\<lparr>registry := [r0], tokens := [t]\<rparr>"
  define p where "p = preflight_entry [112] r0 (sample_preflight e) 2"
  define r where "r = clear_quarantine (set_status READY 2 r0)"
  define db2 where "db2 = no_fleet\<lparr>registry := [r], tokens := [t], preflights := [p]\<rparr>"
  define db3 where "db3 = db2\<lparr>store := no_runs\<lparr>runs := [queued_row]\<rparr>\<rparr>"
  have en: "enroll_runner [82] [97] [110] sample_session sample_profile 1 db0 = Inr db1"
    by (simp add: enroll_runner_def sample_token_digest d e db0_def db1_def no_fleet_def r0_def t_def redeemable_def
        sample_token_def seconds_def)
      (simp add: sample_profile_def sample_session_def)
  have pf: "record_preflight [112] [82] (sample_preflight e) 2 db1 = Inr (db2, True)"
  proof -
    have v: "fst (preflight_verdict r0 (sample_preflight e))"
      using sample_successful sample_drift by (simp add: preflight_verdict_def r0_def new_runner_def sample_preflight_def)
    have f: "find_runner [82] db1 = Some r0"
      by (simp add: find_runner_def db1_def row_def r0_def new_runner_def)
    have t: "assert_runner_transition (rn_status r0) READY (Some (sample_preflight e)) = Inr ()"
      by (simp add: assert_runner_transition_def r0_def new_runner_def sample_successful)
    have "runner_checks ((clear_quarantine \<circ> set_status READY 2) r0)"
      by (simp add: runner_checks_def r0_def new_runner_def clear_quarantine_def set_status_def)
    then have c: "change_runner [82] (clear_quarantine \<circ> set_status READY 2) (db1\<lparr>preflights := [p]\<rparr>) = Inr db2"
      by (simp add: change_runner_def db1_def db2_def r_def r0_def new_runner_def)
    have "\<not> revoked r0" by (simp add: revoked_def r0_def new_runner_def)
    with v f t c show ?thesis
      by (simp add: record_preflight_def Let_def p_def sample_preflight_def e db1_def no_fleet_def)
  qed
  have "reachable empty_fleet sample_step no_fleet"
    by (rule reach_init) (simp add: empty_fleet_def no_fleet_def empty_store_def no_runs_def)
  then have "reachable empty_fleet sample_step db0"
    by (rule reach_step) (rule fleet_step.token [OF sample_issued [folded db0_def]])
  then have "reachable empty_fleet sample_step db1" by (rule reach_step) (rule fleet_step.enrolled [OF en])
  then have "reachable empty_fleet sample_step db2" by (rule reach_step) (rule fleet_step.preflighted [OF pf])
  moreover have "create_run [119] [114] [119] (replicate 64 97) None None None 0 (store db2) =
      Inr (no_runs\<lparr>runs := [queued_row]\<rparr>)"
    by (simp add: db2_def no_fleet_def sample_created)
  then have "sample_step db2 db3" unfolding db3_def by (rule fleet_step.run_created)
  ultimately have "reachable empty_fleet sample_step db3" by (rule reach_step)
  then show ?thesis
    by (rule that [of db3 r]) (simp_all add: db3_def db2_def no_fleet_def r_def r0_def new_runner_def revoked_def
        clear_quarantine_def set_status_def)
qed

definition leased_row :: stored_run where
  "leased_row = queued_row\<lparr>c_status := LEASED, c_lease_epoch := 1, c_revision := 1, c_updated_at := 3\<rparr>"

lemma sample_leased:
  obtains db db1 r l where "reachable empty_fleet sample_step db" "registry db = [r]" "rn_id r = [82]" "rn_status r = READY"
    "\<not> revoked r" "rn_epoch r = 0"
    "admit_lease open_gates read_moment [119] [108] [82] [114] [65] 300 [111] 3 db = Inr (db1, 1)"
    "reachable empty_fleet sample_step db1" "registry db1 = [grant 1 3 r]" "leases db1 = [l]" "active l" "l_id l = [108]"
    "l_runner l = [82]" "l_run l = [114]" "l_epoch l = 1" "l_deadline l = 3 + seconds 300" "l_stop_at l = None"
    "journal db1 = []" "resets db1 = []" "lease_checks l" "runs (store db1) = [leased_row]"
proof (rule sample_ready)
  fix db r assume a: "reachable empty_fleet sample_step db" "registry db = [r]" "rn_id r = [82]" "rn_status r = READY"
    "\<not> revoked r" "rn_epoch r = 0" "leases db = []" "journal db = []" "resets db = []" "runs (store db) = [queued_row]"
  define l where "l = new_lease [108] [82] (rn_session r) [114] [65] 1 300 3"
  have inv: "fleet_inv db" by (rule fleet.invar_reachable [OF a(1)])
  have found: "find_run [119] [114] (store db) = Some queued_row"
    by (simp add: find_run_def a(10) row_def queued_row_def)
  define op where "op = service_cause [111] (str ''run.leased'') (str ''runner-control-plane'') (str ''DESKTOP_LEASE_ADMITTED'')"
  define after where "after = (row_to_state queued_row)\<lparr>status := LEASED, lease_epoch := 1, revision := 1\<rparr>"
  have red: "admit_to_desktop (row_to_state queued_row) 1 (Some (revision (row_to_state queued_row))) = Inr after"
    by (simp add: admit_to_desktop_def reducer_defs after_def row_to_state_def queued_row_def cancellation_requested_def)
  have law: "lawful (\<lambda>s. admit_to_desktop s 1 (Some (revision s)))"
    by (auto simp: lawful_def intro: tranclp.r_into_trancl run_step.desktop_admitted)
  have st: "store_inv (store db)" using inv by (simp add: fleet_inv_def)
  have quiet: "column read_moment (cancel_requested_at after) = Inr None" "column read_moment (stop_acknowledged_at after) = Inr None"
    by (simp_all add: after_def row_to_state_def queued_row_def)
  obtain s where s: "apply_transition read_moment [119] [114] (\<lambda>s. admit_to_desktop s 1 (Some (revision s))) op
      (Some (c_revision queued_row)) 3 (store db) = Inr (s, after)" and rs: "runs s = [set_columns after None None 3 queued_row]"
    using applies [where reducer = "\<lambda>s. admit_to_desktop s 1 (Some (revision s))", OF st found law red quiet a(10)] by blast
  have rs: "runs s = [leased_row]"
    by (simp add: rs leased_row_def set_columns_def after_def row_to_state_def queued_row_def)
  define db1 where "db1 = db\<lparr>leases := [l], registry := [grant 1 3 r], store := s\<rparr>"
  have checks: "runner_checks (grant 1 3 r)" "runner_checks r"
    using inv a(2-4) by (auto simp: fleet_inv_def runner_checks_def grant_def set_status_def)
  have fr: "find_runner [82] db = Some r" by (simp add: find_runner_def row_def a(2,3))
  have lc: "lease_checks l" by (simp add: l_def new_lease_def lease_checks_def)
  have ch: "change_runner [82] (grant 1 3) (db\<lparr>leases := [l]\<rparr>) = Inr (db\<lparr>leases := [l], registry := [grant 1 3 r]\<rparr>)"
    using checks by (simp add: change_runner_def a(2,3))
  have admit: "admit_lease open_gates read_moment [119] [108] [82] [114] [65] 300 [111] 3 db = Inr (db1, 1)"
    using a(4-6) lc s
    by (simp add: admit_lease_def fr a(7) Let_def l_def [symmetric] lease_conflict_def found ch load_run_def move_run_def
        op_def [symmetric] db1_def open_gates_def row_to_state_def)
  have "sample_step db db1" by (rule fleet_step.leased [OF admit])
  with a(1) have "reachable empty_fleet sample_step db1" by (rule reach_step)
  then show ?thesis
    using a admit lc rs by (intro that [of db r db1 l]) (simp_all add: db1_def l_def new_lease_def active_def)
qed

text \<open>
  C1: one physical desktop has at most one admitted active attempt. In every history, two active leases on
  one desktop, one runner or for one run are the same lease; and the desktop of an active lease is in
  service, busy or quarantined, at exactly that lease's epoch.
\<close>

theorem one_attempt_per_desktop:
  assumes "reachable empty_fleet (fleet_step gates rd w) db" and "l \<in> set (leases db)" and "active l"
  shows "(\<forall>m \<in> set (leases db). active m \<and> (l_session m = l_session l \<or> l_runner m = l_runner l \<or> l_run m = l_run l) \<longrightarrow> m = l) \<and>
    (\<exists>r \<in> set (registry db). rn_id r = l_runner l \<and> rn_session r = l_session l \<and> \<not> revoked r \<and>
       rn_status r \<in> {BUSY, QUARANTINED} \<and> rn_epoch r = l_epoch l)"
proof -
  have inv: "fleet_inv db" by (rule fleet.invar_reachable [OF assms(1)])
  have "m = l" if "m \<in> set (leases db)" "active m" "l_session m = l_session l \<or> l_runner m = l_runner l \<or> l_run m = l_run l" for m
  proof (cases "l_run m = l_run l")
    case True
    have "distinct (map l_run (leases db))" using inv by (simp add: fleet_inv_def runs_ok_def)
    from distinct_rows [OF this that(1) assms(2) True] show ?thesis .
  next
    case False
    with that sole_lease [OF inv that(1) assms(2) that(2) assms(3)] show ?thesis by blast
  qed
  moreover have "held db l" using inv assms(2,3) by (simp add: fleet_inv_def)
  ultimately show ?thesis unfolding held_def by blast
qed

theorem one_attempt_per_desktop_witness:
  "\<exists>(db :: fleet) l. l \<in> set (leases db) \<and> active l \<and> (\<exists>r \<in> set (registry db). rn_id r = l_runner l \<and>
     rn_session r = l_session l \<and> rn_status r \<in> {BUSY, QUARANTINED} \<and> rn_epoch r = l_epoch l)"
proof (rule sample_leased)
  fix db1 l assume a: "reachable empty_fleet sample_step db1" "leases db1 = [l]" "active l"
  then have "l \<in> set (leases db1)" by simp
  with one_attempt_per_desktop [OF a(1) this a(3)] a(3) show ?thesis by (intro exI [of _ db1] exI [of _ l]) blast
qed

section \<open>Readiness\<close>

text \<open>
  C4: readiness is earned, never inherited. If a registration was not ready at some moment of a history (or
  did not exist) and is ready at a later one, then in between a preflight of it was recorded, at its current
  epoch, whose fourteen checks were all true and whose observed reader, browser, locale and keyboard are the
  enrolled ones. A reset, a stop or an expiry does not make a desktop ready.
\<close>

theorem readiness_is_earned:
  assumes "reachable empty_fleet (fleet_step gates rd w) db" and "(fleet_step gates rd w)\<^sup>*\<^sup>* db db'"
    and "q \<in> set (registry db')" and "rn_status q = READY"
    and "\<forall>r \<in> set (registry db). rn_id r = rn_id q \<longrightarrow> rn_status r \<noteq> READY"
  shows "\<exists>p \<in> set (drop (length (preflights db)) (preflights db')). pf_runner p = rn_id q \<and> pf_epoch p = rn_epoch q \<and>
    pf_successful p \<and> (\<forall>k. reported (pf_result p) k = Some TRUE) \<and> profile_drift (rn_profile q) (pf_result p) = []"
  using ready_is_earned [OF fleet.invar_reachable [OF assms(1)] assms(2,5)] assms(3,4)
  unfolding preflight_between_def by blast

lemma reachable_rtranclp: "reachable init step s \<Longrightarrow> \<exists>s0. init s0 \<and> step\<^sup>*\<^sup>* s0 s"
  by (induction rule: reachable.induct) (auto intro: rtranclp.rtrancl_into_rtrancl)

theorem readiness_is_earned_witness:
  "\<exists>(db :: fleet) (p :: preflight_row). p \<in> set (preflights db) \<and> (\<forall>k. reported (pf_result p) k = Some TRUE) \<and>
     (\<exists>q \<in> set (registry db). rn_status q = READY)"
proof (rule sample_ready)
  fix db r assume a: "reachable empty_fleet sample_step db" "registry db = [r]" "rn_status r = READY"
  obtain d0 where d0: "empty_fleet d0" "sample_step\<^sup>*\<^sup>* d0 db" using reachable_rtranclp [OF a(1)] by blast
  have q: "r \<in> set (registry db)" by (simp add: a(2))
  have "\<forall>x \<in> set (registry d0). rn_id x = rn_id r \<longrightarrow> rn_status x \<noteq> READY" using d0(1) by (simp add: empty_fleet_def)
  moreover have "reachable empty_fleet sample_step d0" using d0(1) by (rule reach_init)
  ultimately have "\<exists>p \<in> set (drop (length (preflights d0)) (preflights db)). pf_runner p = rn_id r \<and> pf_epoch p = rn_epoch r \<and>
      pf_successful p \<and> (\<forall>k. reported (pf_result p) k = Some TRUE) \<and> profile_drift (rn_profile r) (pf_result p) = []"
    using readiness_is_earned d0(2) q a(3) by blast
  with d0(1) obtain p where "p \<in> set (preflights db)" "\<forall>k. reported (pf_result p) k = Some TRUE" by (auto simp: empty_fleet_def)
  with q a(3) show ?thesis by (intro exI [of _ db] exI [of _ p]) blast
qed

section \<open>Quarantine\<close>

text \<open>
  C3: a registration in quarantine stays there, whatever leases expire, stops are acknowledged, preflights
  are submitted or actions are resolved, until a trusted reset of it succeeds, or it is retired; and as long
  as it is quarantined no attempt is admitted to it.
\<close>

theorem quarantine_holds:
  assumes "reachable empty_fleet (fleet_step gates rd w) db" and "(fleet_step gates rd w)\<^sup>*\<^sup>* db db'"
    and "r \<in> set (registry db)" and "rn_status r = QUARANTINED"
    and "\<not> (\<exists>x \<in> set (drop (length (resets db)) (resets db')). rs_runner x = rn_id r \<and> rs_succeeded x)"
  shows "\<exists>q \<in> set (registry db'). rn_id q = rn_id r \<and> rn_session q = rn_session r \<and> (rn_status q = QUARANTINED \<or> revoked q) \<and>
    \<not> succeeds (admit_lease gates rd w fresh (rn_id r) run attempt ttl op now db')"
proof -
  have inv: "fleet_inv db'" by (rule fleet_run_inv [OF assms(1,2)])
  from quarantine_until [OF fleet.invar_reachable [OF assms(1)] assms(2-4)] assms(5)
  obtain q where q: "q \<in> set (registry db')" "rn_id q = rn_id r" "rn_session q = rn_session r" "rn_status q = QUARANTINED \<or> revoked q"
    unfolding reset_between_def by blast
  have "find_runner (rn_id r) db' = Some q"
    using q(1,2) inv_ids(1) [OF inv] by (simp add: find_runner_def row_distinct)
  then have "\<not> succeeds (admit_lease gates rd w fresh (rn_id r) run attempt ttl op now db')"
    using q(4) by (auto simp: admit_lease_def succeeds_def)
  with q show ?thesis by blast
qed

lemma sample_quarantined:
  obtains db r where "reachable empty_fleet sample_step db" "registry db = [r]" "rn_id r = [82]"
    "rn_status r = QUARANTINED" "\<not> revoked r" "leases db = []" "\<forall>x \<in> set (resets db). \<not> rs_succeeded x"
proof (rule sample_ready)
  fix db r assume a: "reachable empty_fleet sample_step db" "registry db = [r]" "rn_id r = [82]" "rn_status r = READY"
    "\<not> revoked r" "leases db = []" "resets db = []"
  define q where "q = (set_status QUARANTINED 9 r)\<lparr>rn_quarantine := Some RESET_FAILED, rn_quarantined_at := Some 9\<rparr>"
  define x where "x = \<lparr>rs_id = [120], rs_runner = [82], rs_epoch = rn_epoch r, rs_requester = [117],
      rs_succeeded = False, rs_proof = PNone, rs_created = 9\<rparr>"
  define db1 where "db1 = db\<lparr>resets := [x], leases := [], registry := [q]\<rparr>"
  have "runner_checks r" using fleet.invar_reachable [OF a(1)] a(2) by (simp add: fleet_inv_def)
  then have "runner_checks q" by (simp add: q_def runner_checks_def set_status_def)
  then have "reset_runner [120] [82] [117] False PNone 9 db = Inr db1"
    by (simp add: reset_runner_def find_runner_def row_def a Let_def x_def db1_def change_lease_def quarantine_def
        change_runner_def q_def)
  then have "sample_step db db1" by (rule fleet_step.was_reset)
  with a(1) have "reachable empty_fleet sample_step db1" by (rule reach_step)
  then show ?thesis
    by (rule that [of db1 q]) (use a in \<open>simp_all add: db1_def q_def x_def revoked_def set_status_def\<close>)
qed

theorem quarantine_holds_witness:
  "\<exists>db. (\<exists>r \<in> set (registry db). rn_status r = QUARANTINED) \<and>
     \<not> succeeds (admit_lease open_gates read_moment [119] [108] [82] [114] [65] 300 [111] 3 db)"
proof (rule sample_quarantined)
  fix db r assume a: "reachable empty_fleet sample_step db" "registry db = [r]" "rn_id r = [82]" "rn_status r = QUARANTINED"
  have "r \<in> set (registry db)" by (simp add: a(2))
  from quarantine_holds [OF a(1) rtranclp.rtrancl_refl this a(4), of "[108]" "[114]" "[65]" 300 "[111]" 3] a
  show ?thesis by (auto intro!: exI [of _ db])
qed

section \<open>Expiry\<close>

lemma only_quarantines_ids: "only_quarantines a b \<Longrightarrow> map rn_id (registry b) = map rn_id (registry a)"
  unfolding only_quarantines_def by (elim conjE, erule all2_keys) auto

lemma quarantine_all_hits:
  assumes "quarantine_all is' why t a = Inr b" and "i \<in> set is'" and "i \<in> rn_id ` set (registry a)"
  shows "\<exists>r \<in> set (registry b). rn_id r = i \<and> rn_status r = QUARANTINED"
  using assms
proof (induction is' arbitrary: a)
  case (Cons j is')
  then obtain c where c: "quarantine j why t a = Inr c" and b: "quarantine_all is' why t c = Inr b"
    by (auto simp: bind_result_Inr)
  have "set (map rn_id (registry c)) = set (map rn_id (registry a))"
    using only_quarantines_ids [OF quarantine_only [OF c]] by simp
  with Cons.prems(3) have i: "i \<in> rn_id ` set (registry c)" by simp
  show ?case
  proof (cases "i = j")
    case False
    with Cons b i show ?thesis by simp
  next
    case True
    from i obtain q where q: "q \<in> set (registry c)" "rn_id q = i" by auto
    with quarantine_fenced(4) [OF c] True have "rn_status q = QUARANTINED" by blast
    moreover have "list_all2 maybe_quarantined (registry c) (registry b)"
      using quarantine_all_only [OF b] by (simp add: only_quarantines_def)
    from all2_partner_of [OF this q(1)] obtain p where "p \<in> set (registry b)" "maybe_quarantined q p" by blast
    ultimately show ?thesis using q(2) by (intro bexI [of _ p]) (auto simp: quarantined_as_def)
  qed
qed simp


lemma release_checks: "lease_checks l \<Longrightarrow> lease_checks (release_lease why now l)"
  by (auto simp: lease_checks_def release_lease_def coalesce_def split: option.splits)

text \<open>The sweep of the sample, a reset of the desktop, a preflight, and the next admission.\<close>

lemma sample_swept:
  obtains db db1 l where "reachable empty_fleet sample_step db" "l \<in> set (leases db)" "expired 500000000 l" "l_runner l = [82]"
    "fence_expired_leases 500000000 db = Inr (db1, [[108]])" "\<exists>r \<in> set (registry db1). rn_status r = QUARANTINED"
proof (rule sample_leased)
  fix db r0 db1 l assume a: "reachable empty_fleet sample_step db1" "registry db1 = [grant 1 3 r0]" "leases db1 = [l]"
    "l_runner l = [82]" "l_deadline l = 3 + seconds 300" "active l" "rn_id r0 = [82]" "lease_checks l" "l_id l = [108]"
  let ?now = "500000000 :: timestamptz"
  have e: "expired ?now l" by (simp add: expired_def a(5,6) seconds_def)
  let ?m = "release_lease EXPIRED_WITHOUT_STOP_PROOF ?now l"
  define q where "q = (set_status QUARANTINED ?now (grant 1 3 r0))\<lparr>rn_quarantine := Some LEASE_EXPIRED_WITHOUT_STOP_PROOF,
      rn_quarantined_at := Some ?now\<rparr>"
  define db2 where "db2 = db1\<lparr>leases := [?m], registry := [q]\<rparr>"
  have "runner_checks (grant 1 3 r0)" using fleet.invar_reachable [OF a(1)] a(2) by (simp add: fleet_inv_def)
  then have "runner_checks q" by (simp add: q_def runner_checks_def set_status_def)
  moreover have "rn_id (grant 1 3 r0) = [82]" by (simp add: grant_def set_status_def a(7))
  ultimately have "fence_expired_leases ?now db1 = Inr (db2, [[108]])"
    using e release_checks [OF a(8)]
    by (simp add: fence_expired_leases_def a(2-4,9) change_lease_def quarantine_def change_runner_def Let_def q_def db2_def)
  then show ?thesis
    using a e by (intro that [of db1 l db2]) (simp_all add: db2_def q_def set_status_def)
qed


section \<open>Cancellation\<close>

text \<open>
  C2: CANCELLED means stopped. In every history, a run that is CANCELLED and ever held a desktop has exactly
  one lease, and that lease was released on a stop acknowledged at its own epoch, with every action journaled
  under it resolved. An expiry, a reset or an ambiguous action never leads there.
\<close>

theorem cancelled_run_has_stopped:
  assumes "reachable empty_fleet (fleet_step gates rd w) db" and "r \<in> set (runs (store db))" and "c_status r = CANCELLED"
    and "l \<in> set (leases db)" and "l_run l = c_id r"
  shows "l_stop_at l \<noteq> None \<and> l_stop_epoch l = Some (l_epoch l) \<and> \<not> active l \<and>
    (\<forall>a \<in> set (journal db). a_lease a = l_id l \<longrightarrow> \<not> unresolved a) \<and>
    (\<forall>m \<in> set (leases db). l_run m = c_id r \<longrightarrow> m = l)"
proof -
  have inv: "fleet_inv db" by (rule fleet.invar_reachable [OF assms(1)])
  then have "l_stop_at l \<noteq> None" using assms(2-5) by (simp add: fleet_inv_def cancellations_ok_def)
  with inv assms(4) have "\<not> active l \<and> l_stop_epoch l = Some (l_epoch l) \<and> settled db l"
    by (simp add: fleet_inv_def stops_ok_def)
  moreover have "distinct (map l_run (leases db))" using inv by (simp add: fleet_inv_def runs_ok_def)
  then have "\<forall>m \<in> set (leases db). l_run m = c_id r \<longrightarrow> m = l" using distinct_rows assms(4,5) by metis
  ultimately show ?thesis using \<open>l_stop_at l \<noteq> None\<close> by (simp add: settled_def)
qed

text \<open>The sample cancelled: the request, its acknowledgement, and the terminal record.\<close>

lemma calendar_4: "calendar_moment 4"
proof -
  let ?i = "Instant 1 1 1 0 0 0 4"
  have "valid_instant ?i \<and> of_instant ?i = 4"
    by (simp add: valid_instant_def days_in_month_def of_instant_def day_number_def days_before_year_def days_before_month_def)
  then show ?thesis unfolding calendar_moment_def by blast
qed

lemma column_4: "column read_moment (Some (written 4)) = Inr (Some 4)"
  by (simp add: column_def moments.reads_back [OF calendar_4])

definition asked_row :: stored_run where
  "asked_row = leased_row\<lparr>c_cancel_requested_at := Some 4, c_cancellation_revision := Some 1, c_revision := 2, c_updated_at := 4\<rparr>"

definition stopped_row :: stored_run where
  "stopped_row = asked_row\<lparr>c_stop_acknowledged_at := Some 4, c_stop_acknowledged_epoch := Some 1, c_revision := 3, c_updated_at := 5\<rparr>"

definition cancelled_row :: stored_run where
  "cancelled_row = stopped_row\<lparr>c_status := CANCELLED, c_revision := 4, c_updated_at := 6\<rparr>"

lemmas sample_rows = leased_row_def asked_row_def stopped_row_def cancelled_row_def queued_row_def

lemma sample_asks: "request_cancellation (row_to_state leased_row) (written 4) None = Inr (row_to_state asked_row)"
  by (simp add: request_cancellation_def reducer_defs cancellation_requested_def row_to_state_def sample_rows)

lemma sample_stops: "acknowledge_stop (row_to_state asked_row) (written 4) 1 None = Inr (row_to_state stopped_row)"
  by (simp add: acknowledge_stop_def reducer_defs row_to_state_def sample_rows)

lemma sample_cancels: "cancel (row_to_state stopped_row) (Some 3) = Inr (row_to_state cancelled_row)"
proof -
  have "stopped_in_response_to_cancellation (row_to_state stopped_row) = Inr True"
    unfolding stopped_in_response_Inr_True stop_established_def
    using calendar_text(1) [OF calendar_4] by (simp add: row_to_state_def sample_rows)
  moreover have "physically_stopped (row_to_state stopped_row)"
    by (simp add: physically_stopped_def row_to_state_def sample_rows)
  ultimately show ?thesis
    by (simp add: cancel_def reducer_defs cancellation_requested_def Let_def)
      (simp add: row_to_state_def sample_rows)
qed

lemma sample_cancelled:
  obtains db l where "reachable empty_fleet sample_step db" "runs (store db) = [cancelled_row]" "leases db = [l]"
    "l_run l = [114]" "journal db = []"
proof (rule sample_leased)
  fix db0 db1 r0 l assume a: "reachable empty_fleet sample_step db1" "registry db1 = [grant 1 3 r0]" "leases db1 = [l]"
    "l_runner l = [82]" "active l" "rn_id r0 = [82]" "lease_checks l" "l_id l = [108]" "l_epoch l = 1" "l_run l = [114]"
    "journal db1 = []" "runs (store db1) = [leased_row]"
  have ids: "c_id leased_row = [114]" "c_workspace leased_row = [119]" "c_id asked_row = [114]" "c_workspace asked_row = [119]"
    "c_id stopped_row = [114]" "c_workspace stopped_row = [119]" by (simp_all add: sample_rows)
  define why where "why = service_cause [111] [116] [115] [97]"
  obtain s2 where s2: "move_run read_moment [119] [114] (\<lambda>s. request_cancellation s (written 4) None) why (Some 1) 4 db1 =
      Inr (db1\<lparr>store := s2\<rparr>)" "runs s2 = [asked_row]"
  proof (rule moves [where reducer = "\<lambda>s. request_cancellation s (written 4) None" and v = "Some 1" and why = why and now = 4,
      OF fleet.invar_reachable [OF a(1)] a(12) ids(1,2) _ sample_asks])
    show "lawful (\<lambda>s. request_cancellation s (written 4) None)"
      by (auto simp: lawful_def intro: tranclp.r_into_trancl run_step.cancellation_asked)
    show "column read_moment (cancel_requested_at (row_to_state asked_row)) = Inr (Some 4)"
      "column read_moment (stop_acknowledged_at (row_to_state asked_row)) = Inr None"
      by (simp_all add: row_to_state_def sample_rows column_4)
    show "Some 1 = Some (c_revision leased_row)" by (simp add: sample_rows)
  qed (simp add: set_columns_def row_to_state_def sample_rows)
  define db2 where "db2 = db1\<lparr>store := s2\<rparr>"
  have "not_cancelling (\<lambda>s. request_cancellation s (written 4) None)"
    unfolding not_cancelling_def lawful_def
    by (auto intro: tranclp.r_into_trancl run_step.cancellation_asked) (auto simp: nonterminal_iff dest!: accepted(5))
  then have "sample_step db1 db2" unfolding db2_def using s2(1) by (rule fleet_step.run_moved)
  with a(1) have r2: "reachable empty_fleet sample_step db2" by (rule reach_step)
  define m where "m = l\<lparr>l_cancel_at := coalesce (l_cancel_at l) 4, l_cancel_revision := coalesce (l_cancel_revision l) 1\<rparr>"
  define db3 where "db3 = db2\<lparr>leases := [m]\<rparr>"
  have mc: "lease_checks m" "active m" "l_cancel_at m \<noteq> None" "l_id m = [108]" "l_epoch m = 1" "l_runner m = [82]" "l_run m = [114]"
    using a(4,5,7-10) by (auto simp: m_def lease_checks_def active_def coalesce_def split: option.splits)
  have "cancel_lease [108] 1 4 db2 = Inr db3"
    using a(3,5,8) mc(1) by (simp add: cancel_lease_def change_lease_def db2_def db3_def m_def)
  then have "sample_step db2 db3" by (rule fleet_step.cancel_asked)
  with r2 have r3: "reachable empty_fleet sample_step db3" by (rule reach_step)
  define n where "n = m\<lparr>l_stop_at := Some 5, l_stop_epoch := Some 1, l_released := Some 5, l_reason := Some STOP_ACKNOWLEDGED\<rparr>"
  define q where "q = set_status PREFLIGHT_REQUIRED 5 (grant 1 3 r0)"
  define db4 where "db4 = db3\<lparr>leases := [n], registry := [q]\<rparr>"
  have "runner_checks (grant 1 3 r0)" using fleet.invar_reachable [OF a(1)] a(2) by (simp add: fleet_inv_def)
  then have q: "runner_checks q" by (auto simp: q_def runner_checks_def set_status_def grant_def)
  have "rn_id (grant 1 3 r0) = [82]" by (simp add: grant_def a(6))
  moreover have "lease_checks n" using mc(1) by (simp add: n_def lease_checks_def)
  ultimately have "acknowledge_lease_stop [108] 1 5 db3 = Inr db4"
    using mc q a(2,11) by (simp add: acknowledge_lease_stop_def find_lease_def row_def change_lease_def change_runner_def
        db2_def db3_def db4_def n_def q_def)
  then have "sample_step db3 db4" by (rule fleet_step.stop_acknowledged)
  with r3 have r4: "reachable empty_fleet sample_step db4" by (rule reach_step)
  have runs4: "runs (store db4) = [asked_row]" by (simp add: db4_def db3_def db2_def s2(2))
  obtain s5 where s5: "move_run read_moment [119] [114] (\<lambda>s. acknowledge_stop s (written 4) 1 None) why (Some 2) 5 db4 =
      Inr (db4\<lparr>store := s5\<rparr>)" "runs s5 = [stopped_row]"
  proof (rule moves [where reducer = "\<lambda>s. acknowledge_stop s (written 4) 1 None" and v = "Some 2" and why = why and now = 5,
      OF fleet.invar_reachable [OF r4] runs4 ids(3,4) _ sample_stops])
    show "lawful (\<lambda>s. acknowledge_stop s (written 4) 1 None)"
      by (auto simp: lawful_def intro: tranclp.r_into_trancl run_step.stop_acknowledged)
    show "column read_moment (cancel_requested_at (row_to_state stopped_row)) = Inr (Some 4)"
      "column read_moment (stop_acknowledged_at (row_to_state stopped_row)) = Inr (Some 4)"
      by (simp_all add: row_to_state_def sample_rows column_4)
    show "Some 2 = Some (c_revision asked_row)" by (simp add: sample_rows)
  qed (simp add: set_columns_def row_to_state_def sample_rows)
  define db5 where "db5 = db4\<lparr>store := s5\<rparr>"
  have "not_cancelling (\<lambda>s. acknowledge_stop s (written 4) 1 None)"
    unfolding not_cancelling_def lawful_def
    by (auto intro: tranclp.r_into_trancl run_step.stop_acknowledged) (auto simp: nonterminal_iff dest!: accepted(6))
  then have "sample_step db4 db5" unfolding db5_def using s5(1) by (rule fleet_step.run_moved)
  with r4 have r5: "reachable empty_fleet sample_step db5" by (rule reach_step)
  have runs5: "runs (store db5) = [stopped_row]" by (simp add: db5_def s5(2))
  let ?op = "service_cause [111] (str ''run.cancelled'') [115] (str ''RUN_CANCELLED'')"
  obtain s6 where s6: "move_run read_moment [119] [114] (\<lambda>s. cancel s (Some 3)) ?op (Some 3) 6 db5 = Inr (db5\<lparr>store := s6\<rparr>)"
    "runs s6 = [cancelled_row]"
  proof (rule moves [where reducer = "\<lambda>s. cancel s (Some 3)" and v = "Some 3" and why = ?op and now = 6,
      OF fleet.invar_reachable [OF r5] runs5 ids(5,6) _ sample_cancels])
    show "lawful (\<lambda>s. cancel s (Some 3))" by (auto simp: lawful_def intro: tranclp.r_into_trancl run_step.cancelled)
    show "column read_moment (cancel_requested_at (row_to_state cancelled_row)) = Inr (Some 4)"
      "column read_moment (stop_acknowledged_at (row_to_state cancelled_row)) = Inr (Some 4)"
      by (simp_all add: row_to_state_def sample_rows column_4)
    show "Some 3 = Some (c_revision stopped_row)" by (simp add: sample_rows)
  qed (simp add: set_columns_def row_to_state_def sample_rows)
  have ls: "leases db5 = [n]" "journal db5 = []" by (simp_all add: db5_def db4_def db3_def db2_def a(11))
  have n: "l_run n = [114]" "l_stop_at n \<noteq> None" "l_stop_epoch n = Some (l_epoch n)" using mc by (simp_all add: n_def)
  have "stop_proved [114] db5 = Inr ()" using n ls by (auto simp: stop_proved_def)
  moreover have "load_run [119] [114] (store db5) = Inr (row_to_state stopped_row, [119])"
    by (simp add: load_run_def find_run_def row_def runs5 ids)
  moreover have "cancellation_requested (row_to_state stopped_row)"
    by (simp add: cancellation_requested_def row_to_state_def sample_rows)
  ultimately have "terminalize_cancellation read_moment [119] [114] 3 [115] [111] 6 db5 = Inr (db5\<lparr>store := s6\<rparr>)"
    using s6(1) by (simp add: terminalize_cancellation_def)
  then have "sample_step db5 (db5\<lparr>store := s6\<rparr>)" by (rule fleet_step.cancelled)
  with r5 have "reachable empty_fleet sample_step (db5\<lparr>store := s6\<rparr>)" by (rule reach_step)
  then show ?thesis by (rule that [of _ n]) (simp_all add: s6(2) ls n)
qed

theorem cancelled_run_has_stopped_witness:
  "\<exists>(db :: fleet) l. c_status cancelled_row = CANCELLED \<and> cancelled_row \<in> set (runs (store db)) \<and> leases db = [l] \<and> l_stop_at l \<noteq> None \<and>
     \<not> active l"
proof (rule sample_cancelled)
  fix db l assume a: "reachable empty_fleet sample_step db" "runs (store db) = [cancelled_row]" "leases db = [l]" "l_run l = [114]"
  have h: "cancelled_row \<in> set (runs (store db))" "c_status cancelled_row = CANCELLED" "l \<in> set (leases db)" "l_run l = c_id cancelled_row"
    using a by (simp_all add: sample_rows)
  from cancelled_run_has_stopped [OF a(1) h] h(1,2) a(3) show ?thesis by blast
qed

section \<open>The journal\<close>

text \<open>
  C6: the journal of actions is written once. Whatever happens afterwards, an intent keeps its identity, its
  text and its moment; a dispatch is recorded at most once and never moved; and a result, a failure or an
  ambiguity, once recorded, is never replaced.
\<close>

theorem journal_written_once:
  assumes "(fleet_step gates rd w)\<^sup>*\<^sup>* db db'" and "k < length (journal db)"
  shows "k < length (journal db') \<and> (let a = journal db ! k; b = journal db' ! k in
    same_intent a b \<and> (a_dispatched a \<noteq> None \<longrightarrow> a_dispatched b = a_dispatched a) \<and>
    (a_result_at a \<noteq> None \<longrightarrow> (a_result_at b, a_status b, a_detail b, a_ambiguity b) =
       (a_result_at a, a_status a, a_detail a, a_ambiguity a)))"
proof -
  from fleet_run_grows [OF assms(1)] obtain js new where j: "journal db' = js @ new" "list_all2 action_grows (journal db) js"
    unfolding tables_grow_def by blast
  have "length js = length (journal db)" using j(2) by (simp add: list_all2_lengthD)
  moreover have "action_grows (journal db ! k) (js ! k)" using j(2) assms(2) by (rule list_all2_nthD)
  ultimately show ?thesis
    using assms(2) by (simp add: j(1) Let_def nth_append action_grows_def unresolved_def)
qed

lemma sample_acted:
  obtains db db1 where "sample_step db db1" "length (journal db) = 1" "a_dispatched (journal db ! 0) = None"
    "a_action (journal db ! 0) = [83]" "a_dispatched (journal db1 ! 0) = Some 7"
proof -
  define a where "a = new_action [65] [108] [114] [66] 1 1 [83] [79] None None 5"
  define db where "db = no_fleet\<lparr>journal := [a]\<rparr>"
  define db1 where "db1 = no_fleet\<lparr>journal := [a\<lparr>a_dispatched := Some 7\<rparr>]\<rparr>"
  have "mark_action_dispatched [65] 7 db = Inr db1"
    by (simp add: mark_action_dispatched_def change_actions_def db_def db1_def a_def new_action_def action_checks_def)
  then have "sample_step db db1" by (rule fleet_step.dispatched)
  then show ?thesis by (rule that) (simp_all add: db_def db1_def a_def new_action_def)
qed

theorem journal_written_once_witness:
  "\<exists>db db1. sample_step db db1 \<and> a_dispatched (journal db1 ! 0) = Some 7 \<and> a_action (journal db1 ! 0) = [83]"
proof (rule sample_acted)
  fix db db1 assume a: "sample_step db db1" "length (journal db) = 1" "a_action (journal db ! 0) = [83]"
    "a_dispatched (journal db1 ! 0) = Some 7"
  have "sample_step\<^sup>*\<^sup>* db db1" "0 < length (journal db)" using a(1,2) by auto
  from journal_written_once [OF this] a(3) have "a_action (journal db1 ! 0) = [83]"
    by (simp add: Let_def same_intent_def)
  with a show ?thesis by blast
qed

section \<open>Retirement\<close>



end
