(* ===== verification/Members.thy ===== *)
theory Members
  imports Tables Authorization Identifiers Payload
begin

text \<open>
  Who belongs to a workspace (\<open>persistence/memberships.py\<close>, \<open>invitations.py\<close>): accounts, memberships that
  are revoked but kept, owner decisions under a revision, and invitations bound to a provider identity.
  The tables hold one workspace. Row identifiers are UUID texts as the database prints them; the other
  spellings \<open>uuid.UUID\<close> reads are not used. \<open>now()\<close> and each \<open>clock_timestamp()\<close> are arguments.
\<close>

section \<open>Tables\<close>

record account =
  ac_id :: pytext
  ac_disabled :: "timestamptz option"

record membership =
  m_user :: pytext
  m_role :: role
  m_revoked :: "timestamptz option"
  m_revision :: int

record identity_binding =
  gi_subject :: int
  gi_user :: pytext
  gi_revoked :: "timestamptz option"

record invitation =
  i_id :: pytext
  i_subject :: int
  i_role :: role
  i_creator :: pytext
  i_reason :: pytext
  i_created :: timestamptz
  i_expires :: timestamptz
  i_revision :: int
  i_revoked :: "timestamptz option"
  i_accepted :: "timestamptz option"
  i_accepted_by :: "pytext option"

record decision_event =
  de_actor :: pytext
  de_action :: pytext
  de_target :: pytext
  de_detail :: pyval

record workspace_db =
  ws_id :: pytext
  accounts :: "account list"
  members :: "membership list"
  identities :: "identity_binding list"
  invitations :: "invitation list"
  decisions :: "decision_event list"

datatype membership_error =
    InvalidIdentifiers | UnknownRole | RevisionOutOfBounds | ReasonRequired | WorkspaceUnavailable
  | OwnerRequired | TargetUnavailable | MembershipMoved | NoChange | LastOwner
  | SubjectRequired | LifetimeOutOfBounds | InvitationExists | NotPending | BindingUnavailable
  | InvitationLapsed

section \<open>Roles by name\<close>

fun role_value :: "role \<Rightarrow> pytext" where
  "role_value OWNER = str ''OWNER''"
| "role_value MAINTAINER = str ''MAINTAINER''"
| "role_value REVIEWER = str ''REVIEWER''"
| "role_value VIEWER = str ''VIEWER''"

definition role_named :: "pytext \<Rightarrow> role option" where
  "role_named s = List.find (\<lambda>r. role_value r = s) [OWNER, MAINTAINER, REVIEWER, VIEWER]"

definition reason_given :: "pytext \<Rightarrow> bool" where
  "reason_given s \<longleftrightarrow> \<not> blank s \<and> length s \<le> 1000"

section \<open>Queries\<close>

definition enabled :: "pytext \<Rightarrow> workspace_db \<Rightarrow> bool" where
  "enabled u db \<longleftrightarrow> list_ex (\<lambda>a. ac_id a = u \<and> ac_disabled a = None) (accounts db)"

definition membership_of :: "pytext \<Rightarrow> workspace_db \<Rightarrow> membership option" where
  "membership_of u db = row m_user u (members db)"

definition active_member :: "membership \<Rightarrow> bool" where
  "active_member m \<longleftrightarrow> m_revoked m = None"

text \<open>\<open>m.revoked_at IS NULL AND u.disabled_at IS NULL\<close> and the role is OWNER.\<close>

definition current_owner :: "pytext \<Rightarrow> workspace_db \<Rightarrow> bool" where
  "current_owner u db \<longleftrightarrow>
     (case membership_of u db of None \<Rightarrow> False | Some m \<Rightarrow> active_member m \<and> m_role m = OWNER) \<and> enabled u db"

definition owners :: "workspace_db \<Rightarrow> pytext list" where
  "owners db = map m_user (filter (\<lambda>m. m_role m = OWNER \<and> active_member m \<and> enabled (m_user m) db) (members db))"

section \<open>Owner decisions\<close>

definition decision_detail :: "pytext \<Rightarrow> pytext option \<Rightarrow> int \<Rightarrow> pytext \<Rightarrow> pyval" where
  "decision_detail target r revision reason =
     PDict [(key ''userId'', PStr target),
            (key ''role'', case r of None \<Rightarrow> PNone | Some s \<Rightarrow> PStr s),
            (key ''revoked'', PBool (r = None)), (key ''revision'', PInt revision),
            (key ''reason'', PStr (strip reason))]"

definition set_membership :: "role option \<Rightarrow> int \<Rightarrow> timestamptz \<Rightarrow> membership \<Rightarrow> membership" where
  "set_membership r revision now m =
     m\<lparr>m_role := (case r of None \<Rightarrow> m_role m | Some x \<Rightarrow> x),
       m_revoked := (if r = None then Some now else None), m_revision := revision\<rparr>"

definition change_membership ::
  "pytext \<Rightarrow> pytext \<Rightarrow> pytext \<Rightarrow> pytext option \<Rightarrow> int \<Rightarrow> pytext \<Rightarrow> timestamptz \<Rightarrow> workspace_db \<Rightarrow>
     (membership_error, workspace_db \<times> int) result" where
  "change_membership w actor target named expected reason now db =
     (if \<not> list_all canonical_uuid [w, actor, target] then Inl InvalidIdentifiers
      else if (case named of None \<Rightarrow> False | Some s \<Rightarrow> role_named s = None) then Inl UnknownRole
      else if \<not> (0 \<le> expected \<and> expected < 9223372036854775807) then Inl RevisionOutOfBounds
      else if \<not> reason_given reason then Inl ReasonRequired
      else if w \<noteq> ws_id db then Inl WorkspaceUnavailable
      else if \<not> current_owner actor db then Inl OwnerRequired
      else if \<not> enabled target db then Inl TargetUnavailable
      else
        let r = Option.bind named role_named;
            previous = membership_of target db;
            old_revision = (case previous of None \<Rightarrow> 0 | Some m \<Rightarrow> m_revision m);
            was_active = (case previous of None \<Rightarrow> False | Some m \<Rightarrow> active_member m);
            old_role = map_option m_role previous
        in if old_revision \<noteq> expected then Inl MembershipMoved
           else if r = None \<and> \<not> was_active \<or> was_active \<and> old_role = r then Inl NoChange
           else if was_active \<and> old_role = Some OWNER \<and> r \<noteq> Some OWNER \<and> length (owners db) < 2 then Inl LastOwner
           else
             let revision = old_revision + 1;
                 rows = (case r of
                     Some x \<Rightarrow> if previous = None
                       then members db @ [\<lparr>m_user = target, m_role = x, m_revoked = None, m_revision = revision\<rparr>]
                       else update_where (\<lambda>m. m_user m = target) (set_membership r revision now) (members db)
                   | None \<Rightarrow> update_where (\<lambda>m. m_user m = target) (set_membership r revision now) (members db))
             in Inr (db\<lparr>members := rows, decisions := decisions db @
                  [\<lparr>de_actor = actor, de_action = str ''MEMBERSHIP_ADMINISTER'', de_target = target,
                    de_detail = decision_detail target named revision reason\<rparr>]\<rparr>, revision))"

section \<open>Invitations\<close>

definition note_invitation :: "pytext \<Rightarrow> pytext \<Rightarrow> pytext \<Rightarrow> workspace_db \<Rightarrow> workspace_db" where
  "note_invitation actor i action' db = db\<lparr>decisions := decisions db @
     [\<lparr>de_actor = actor, de_action = action', de_target = i, de_detail = PDict []\<rparr>]\<rparr>"

definition subject_ok :: "int \<Rightarrow> bool" where
  "subject_ok n \<longleftrightarrow> 0 < n \<and> n < 2 ^ 63"

definition create_invitation ::
  "pytext \<Rightarrow> pytext \<Rightarrow> pytext \<Rightarrow> int \<Rightarrow> pytext \<Rightarrow> int \<Rightarrow> pytext \<Rightarrow> timestamptz \<Rightarrow> workspace_db \<Rightarrow>
     (membership_error, workspace_db) result" where
  "create_invitation w actor i subject named ttl reason clock db =
     (if \<not> list_all canonical_uuid [w, actor, i] then Inl InvalidIdentifiers
      else if \<not> subject_ok subject then Inl SubjectRequired
      else case role_named named of
          None \<Rightarrow> Inl UnknownRole
        | Some r \<Rightarrow>
            if \<not> (60 \<le> ttl \<and> ttl \<le> 7 * 86400) then Inl LifetimeOutOfBounds
            else if \<not> reason_given reason then Inl ReasonRequired
            else if w \<noteq> ws_id db then Inl WorkspaceUnavailable
            else if \<not> current_owner actor db then Inl OwnerRequired
            else if row i_id i (invitations db) \<noteq> None then Inl InvitationExists
            else Inr (note_invitation actor i (str ''MEMBERSHIP_INVITATION_CREATED'')
              (db\<lparr>invitations := invitations db @
                 [\<lparr>i_id = i, i_subject = subject, i_role = r, i_creator = actor, i_reason = strip reason,
                   i_created = clock, i_expires = clock + seconds ttl, i_revision = 1, i_revoked = None,
                   i_accepted = None, i_accepted_by = None\<rparr>]\<rparr>)))"

definition pending :: "int \<Rightarrow> invitation \<Rightarrow> bool" where
  "pending revision i \<longleftrightarrow> i_revision i = revision \<and> i_revoked i = None \<and> i_accepted i = None"

definition revoke_invitation ::
  "pytext \<Rightarrow> pytext \<Rightarrow> pytext \<Rightarrow> int \<Rightarrow> timestamptz \<Rightarrow> workspace_db \<Rightarrow> (membership_error, workspace_db) result" where
  "revoke_invitation w actor i expected clock db =
     (if \<not> list_all canonical_uuid [w, actor, i] then Inl InvalidIdentifiers
      else if expected \<noteq> 1 then Inl NotPending
      else if w \<noteq> ws_id db then Inl WorkspaceUnavailable
      else if \<not> current_owner actor db then Inl OwnerRequired
      else if \<not> list_ex (\<lambda>x. i_id x = i \<and> pending expected x) (invitations db) then Inl NotPending
      else Inr (note_invitation actor i (str ''MEMBERSHIP_INVITATION_REVOKED'')
        (db\<lparr>invitations := update_where (\<lambda>x. i_id x = i \<and> pending expected x)
           (\<lambda>x. x\<lparr>i_revoked := Some clock, i_revision := i_revision x + 1\<rparr>) (invitations db)\<rparr>)))"

text \<open>
  Acceptance reads the clock when it tests the expiry, after the membership was written; a refusal then
  rolls the membership back with the transaction.
\<close>

definition accept_invitation ::
  "pytext \<Rightarrow> pytext \<Rightarrow> pytext \<Rightarrow> int \<Rightarrow> int \<Rightarrow> timestamptz \<Rightarrow> timestamptz \<Rightarrow> workspace_db \<Rightarrow>
     (membership_error, workspace_db) result" where
  "accept_invitation w i user subject expected now clock db =
     (if \<not> list_all canonical_uuid [w, i, user] then Inl InvalidIdentifiers
      else if \<not> subject_ok subject then Inl SubjectRequired
      else if expected \<noteq> 1 then Inl NotPending
      else if w \<noteq> ws_id db then Inl WorkspaceUnavailable
      else if \<not> list_ex (\<lambda>b. gi_subject b = subject \<and> gi_user b = user \<and> gi_revoked b = None) (identities db)
      then Inl BindingUnavailable
      else case List.find (\<lambda>x. i_id x = i \<and> i_subject x = subject \<and> pending expected x) (invitations db) of
          None \<Rightarrow> Inl NotPending
        | Some x \<Rightarrow>
            if \<not> current_owner (i_creator x) db then Inl OwnerRequired
            else bind_result (change_membership w (i_creator x) user (Some (role_value (i_role x))) 0 (i_reason x) now db)
              (\<lambda>(db1, _).
              if \<not> clock < i_expires x then Inl InvitationLapsed
              else Inr (note_invitation user i (str ''MEMBERSHIP_INVITATION_ACCEPTED'')
                (db1\<lparr>invitations := update_where (\<lambda>y. i_id y = i)
                   (\<lambda>y. y\<lparr>i_accepted := Some clock, i_accepted_by := Some user, i_revision := 2\<rparr>) (invitations db1)\<rparr>))))"

section \<open>Histories\<close>

text \<open>
  What happens to a workspace. Accounts and provider identities are created by operators; a binding may
  be revoked. Nothing in the program disables an account.
\<close>

inductive workspace_step :: "workspace_db \<Rightarrow> workspace_db \<Rightarrow> bool" where
  account_created: "row ac_id u (accounts db) = None \<Longrightarrow>
    workspace_step db (db\<lparr>accounts := accounts db @ [\<lparr>ac_id = u, ac_disabled = None\<rparr>]\<rparr>)"
| identity_bound: "list_all (\<lambda>b. gi_subject b \<noteq> n \<and> gi_user b \<noteq> u) (identities db) \<Longrightarrow>
    workspace_step db (db\<lparr>identities := identities db @ [\<lparr>gi_subject = n, gi_user = u, gi_revoked = None\<rparr>]\<rparr>)"
| identity_revoked: "workspace_step db (db\<lparr>identities :=
    update_where (\<lambda>b. gi_subject b = n) (\<lambda>b. b\<lparr>gi_revoked := Some now\<rparr>) (identities db)\<rparr>)"
| decided: "change_membership w actor target named expected reason now db = Inr (db', rv) \<Longrightarrow> workspace_step db db'"
| invited: "create_invitation w actor i subject named ttl reason clock db = Inr db' \<Longrightarrow> workspace_step db db'"
| withdrawn: "revoke_invitation w actor i expected clock db = Inr db' \<Longrightarrow> workspace_step db db'"
| joined: "accept_invitation w i user subject expected now clock db = Inr db' \<Longrightarrow> workspace_step db db'"

text \<open>A workspace as the operator sets it up: one account, its owner.\<close>

definition founded :: "workspace_db \<Rightarrow> bool" where
  "founded db \<longleftrightarrow> (\<exists>u. accounts db = [\<lparr>ac_id = u, ac_disabled = None\<rparr>] \<and>
     members db = [\<lparr>m_user = u, m_role = OWNER, m_revoked = None, m_revision = 1\<rparr>] \<and>
     identities db = [] \<and> invitations db = [] \<and> decisions db = [])"

end
