(* ===== verification/Consents.thy ===== *)
theory Consents
  imports Members Authority Journeys Run_Store
begin

text \<open>
  Environments, seals and exact execution approvals (\<open>persistence/projects.py\<close>, \<open>approvals.py\<close>,
  \<open>execution_approvals.py\<close>, with the constraints and triggers of migrations 0005, 0006, 0033 and 0034). The
  schema validator of the contracts package, which calls a library, is the parameter \<open>valid\<close>; \<open>reads\<close> is how a
  \<open>timestamptz\<close> column reads a text; \<open>rs\<close> is the run store, whose runs a seal must not name. An environment's
  origins are the printed ones.
\<close>

section \<open>Tables\<close>

record environment_spec =
  es_name :: pytext
  es_origins :: "pytext set"
  es_reset_strategy :: pytext
  es_observer_ref :: pytext
  es_reset_ref :: pytext
  es_effects :: "pytext set"
  es_expires :: pytext

record environment_row =
  en_id :: pytext
  en_project :: pytext
  en_spec :: environment_spec
  en_authorized_by :: pytext
  en_digest :: pytext
  en_expires :: timestamptz
  en_revoked :: "timestamptz option"
  en_superseded :: "pytext option"

record snapshot_row =
  sn_id :: pytext
  sn_project :: pytext
  sn_commit :: pytext
  sn_tree :: pytext
  sn_dirty :: bool
  sn_dirty_paths :: nat
  sn_requested :: pytext

record artifact_row =
  ba_id :: pytext
  ba_project :: pytext
  ba_snapshot :: pytext
  ba_digest :: pytext
  ba_observable :: bool

record seal_inputs =
  si_journey :: pytext
  si_assertions :: pytext
  si_fixture :: pytext
  si_runner_profile :: pytext
  si_navigator_policy :: pytext
  si_evaluator_version :: pytext
  si_model_config :: pytext

record execution_inputs =
  ei_journey_version :: pytext
  ei_expires :: pytext
  ei_action_budget :: int
  ei_wall_time :: int
  ei_effects :: "pytext set"

text \<open>The columns of a published journey version a seal is compared with.\<close>

record journey_row =
  jv_id :: pytext
  jv_project :: pytext
  jv_journey :: pytext
  jv_assertions :: pytext
  jv_fixture :: pytext
  jv_navigator_policy :: pytext
  jv_policy :: pyval

record seal =
  sl_id :: pytext
  sl_workspace :: pytext
  sl_project :: pytext
  sl_run :: "pytext option"
  sl_snapshot :: pytext
  sl_artifact :: pytext
  sl_environment :: pytext
  sl_environment_digest :: pytext
  sl_inputs :: seal_inputs
  sl_digest :: pytext
  sl_authorization :: "pytext option"
  sl_revision :: int
  sl_manifest :: "items option"
  sl_sealed :: timestamptz

record approval_row =
  ap_id :: pytext
  ap_scope :: approval_scope
  ap_actor :: pytext
  ap_workspace :: pytext
  ap_target :: pytext
  ap_digest :: pytext
  ap_revision :: int
  ap_expires :: timestamptz
  ap_revoked_at :: "timestamptz option"

record consent_db =
  people :: workspace_db
  environments :: "environment_row list"
  snapshots :: "snapshot_row list"
  artifacts :: "artifact_row list"
  journeys :: "journey_row list"
  seals :: "seal list"
  approvals :: "approval_row list"
  consent_events :: "decision_event list"

datatype consent_error =
    SameCredential | NoOrigins | NoEnvironment | EnvironmentSuperseded | EnvironmentRevoked | EnvironmentExpired
  | NotDigested canon_error | BadTime | ColumnRefused | ConstraintViolated
  | InputMissing | NotThisProject | IdentifiersRequired | InvalidManifest | RunExists | JourneyDiffers
  | BeyondEnvironment | SealIncomplete | SealMismatch | SealExpired | SourceChanged | TreeChanged | ArtifactChanged
  | NoSeal | LegacySeal | TargetDiffers | ActorRefused | ExpiryRefused | ApprovalIssued | NoApproval
  | OtherRun | Unauthorized authority_error

section \<open>Environments, source and build\<close>

definition config_digest :: "environment_spec \<Rightarrow> (consent_error, pytext) result" where
  "config_digest e = map_error NotDigested (digest (PDict
     [(key ''name'', PStr (es_name e)), (key ''allowedOrigins'', text_set (es_origins e)),
      (key ''fixtureResetStrategy'', PStr (es_reset_strategy e)),
      (key ''observerCredentialRef'', PStr (es_observer_ref e)),
      (key ''resetCredentialRef'', PStr (es_reset_ref e)), (key ''permittedEffects'', text_set (es_effects e))]))"

definition register_environment ::
  "(pytext \<Rightarrow> timestamptz option) \<Rightarrow> pytext \<Rightarrow> pytext \<Rightarrow> environment_spec \<Rightarrow> pytext \<Rightarrow> consent_db \<Rightarrow>
     (consent_error, consent_db) result" where
  "register_environment reads fresh project e author db =
     (if es_observer_ref e = es_reset_ref e then Inl SameCredential
      else if es_origins e = {} then Inl NoOrigins
      else bind_result (config_digest e) (\<lambda>dg.
        case reads (es_expires e) of
          None \<Rightarrow> Inl ColumnRefused
        | Some expires \<Rightarrow>
            if row en_id fresh (environments db) \<noteq> None then Inl ConstraintViolated
            else Inr (db\<lparr>environments := environments db @
              [\<lparr>en_id = fresh, en_project = project, en_spec = e, en_authorized_by = author, en_digest = dg,
                en_expires = expires, en_revoked = None, en_superseded = None\<rparr>]\<rparr>)))"

definition supersede_environment ::
  "(pytext \<Rightarrow> timestamptz option) \<Rightarrow> pytext \<Rightarrow> pytext \<Rightarrow> environment_spec \<Rightarrow> pytext \<Rightarrow> timestamptz \<Rightarrow> consent_db \<Rightarrow>
     (consent_error, consent_db) result" where
  "supersede_environment reads fresh old e author now db =
     (case row en_id old (environments db) of
        None \<Rightarrow> Inl NoEnvironment
      | Some r \<Rightarrow>
          bind_result (register_environment reads fresh (en_project r) e author db) (\<lambda>db1.
          Inr (db1\<lparr>environments := update_where (\<lambda>q. en_id q = old)
            (\<lambda>q. q\<lparr>en_superseded := Some fresh, en_revoked := Some now\<rparr>) (environments db1)\<rparr>)))"

definition expiry :: "pytext \<Rightarrow> pytext \<Rightarrow> consent_error \<Rightarrow> (consent_error, unit) result" where
  "expiry now expires e =
     bind_result (map_error (\<lambda>_. BadTime) (is_expired now expires)) (\<lambda>b. if b then Inl e else Inr ())"

definition assert_environment_usable :: "pytext \<Rightarrow> timestamptz \<Rightarrow> consent_db \<Rightarrow> (consent_error, unit) result" where
  "assert_environment_usable i now db =
     (case row en_id i (environments db) of
        None \<Rightarrow> Inl NoEnvironment
      | Some r \<Rightarrow>
          if en_superseded r \<noteq> None then Inl EnvironmentSuperseded
          else if en_revoked r \<noteq> None then Inl EnvironmentRevoked
          else expiry (written now) (written (en_expires r)) EnvironmentExpired)"

definition record_source_snapshot ::
  "pytext \<Rightarrow> pytext \<Rightarrow> pytext \<Rightarrow> pytext \<Rightarrow> bool \<Rightarrow> nat \<Rightarrow> pytext \<Rightarrow> consent_db \<Rightarrow> (consent_error, consent_db) result" where
  "record_source_snapshot fresh project commit tree dirty paths requested db =
     (if row sn_id fresh (snapshots db) \<noteq> None \<or> \<not> (length commit = 40 \<and> list_all is_lower_hex commit) \<or>
        \<not> is_sha256_hex tree \<or> (0 < paths) \<noteq> dirty then Inl ConstraintViolated
      else Inr (db\<lparr>snapshots := snapshots db @ [\<lparr>sn_id = fresh, sn_project = project, sn_commit = commit,
        sn_tree = tree, sn_dirty = dirty, sn_dirty_paths = paths, sn_requested = requested\<rparr>]\<rparr>))"

definition record_build_artifact ::
  "pytext \<Rightarrow> pytext \<Rightarrow> pytext \<Rightarrow> pytext \<Rightarrow> bool \<Rightarrow> consent_db \<Rightarrow> (consent_error, consent_db) result" where
  "record_build_artifact fresh project snapshot dg observable db =
     (if row ba_id fresh (artifacts db) \<noteq> None \<or> \<not> is_sha256_hex dg \<or> row sn_id snapshot (snapshots db) = None
      then Inl ConstraintViolated
      else Inr (db\<lparr>artifacts := artifacts db @ [\<lparr>ba_id = fresh, ba_project = project, ba_snapshot = snapshot,
        ba_digest = dg, ba_observable = observable\<rparr>]\<rparr>))"

section \<open>Sealing\<close>

definition sealed_inputs ::
  "pytext \<Rightarrow> pytext \<Rightarrow> snapshot_row \<Rightarrow> artifact_row \<Rightarrow> environment_row \<Rightarrow> seal_inputs \<Rightarrow> items" where
  "sealed_inputs w project sn ba en x =
     [(key ''schemaVersion'', PInt 1), (key ''workspaceId'', PStr w), (key ''projectId'', PStr project),
      (key ''sourceCommitSha'', PStr (sn_commit sn)), (key ''sourceTreeDigest'', PStr (sn_tree sn)),
      (key ''buildArtifactDigest'', PStr (ba_digest ba)),
      (key ''environmentConfigDigest'', PStr (en_digest en)), (key ''journeyDigest'', PStr (si_journey x)),
      (key ''assertionSetDigest'', PStr (si_assertions x)), (key ''fixtureDigest'', PStr (si_fixture x)),
      (key ''runnerProfileDigest'', PStr (si_runner_profile x)),
      (key ''navigatorPolicyDigest'', PStr (si_navigator_policy x)),
      (key ''evaluatorVersion'', PStr (si_evaluator_version x)),
      (key ''modelConfigDigest'', PStr (si_model_config x))]"

definition execution_scope :: "pytext \<Rightarrow> pytext \<Rightarrow> execution_inputs \<Rightarrow> items" where
  "execution_scope run auth x =
     [(key ''runId'', PStr run), (key ''authorizationId'', PStr auth),
      (key ''journeyVersionId'', PStr (ei_journey_version x)), (key ''expiresAt'', PStr (ei_expires x)),
      (key ''actionBudget'', PInt (ei_action_budget x)), (key ''wallTimeBudgetSeconds'', PInt (ei_wall_time x)),
      (key ''permittedEffects'', text_set (ei_effects x))]"

text \<open>What a canonical execution manifest requires beyond the fingerprints.\<close>

definition check_execution ::
  "(items \<Rightarrow> bool) \<Rightarrow> run_store \<Rightarrow> pytext \<Rightarrow> snapshot_row \<Rightarrow> artifact_row \<Rightarrow> environment_row \<Rightarrow> pytext \<Rightarrow> items \<Rightarrow>
     pytext option \<Rightarrow> pytext option \<Rightarrow> seal_inputs \<Rightarrow> execution_inputs \<Rightarrow> timestamptz \<Rightarrow> consent_db \<Rightarrow>
     (consent_error, items) result" where
  "check_execution valid rs project sn ba en snapshot base run auth x e now db =
     (if sn_project sn \<noteq> project \<or> ba_project ba \<noteq> project \<or> ba_snapshot ba \<noteq> snapshot \<or> \<not> ba_observable ba
      then Inl NotThisProject
      else case (run, auth) of
          (Some r, Some a) \<Rightarrow>
            let m = base @ execution_scope r a e
            in if \<not> valid m then Inl InvalidManifest
               else if row c_id r (runs rs) \<noteq> None then Inl RunExists
               else (case row jv_id (ei_journey_version e) (journeys db) of
                   None \<Rightarrow> Inl JourneyDiffers
                 | Some j \<Rightarrow>
                     if jv_project j \<noteq> project \<or> jv_journey j \<noteq> si_journey x \<or> jv_assertions j \<noteq> si_assertions x \<or>
                       jv_fixture j \<noteq> si_fixture x \<or> jv_navigator_policy j \<noteq> si_navigator_policy x
                     then Inl JourneyDiffers
                     else if en_project en \<noteq> project \<or> \<not> ei_effects e \<subseteq> es_effects (en_spec en) then Inl BeyondEnvironment
                     else bind_result (expiry (written now) (ei_expires e) BeyondEnvironment) (\<lambda>_.
                       bind_result (map_error (\<lambda>_. BadTime) (is_after (ei_expires e) (written (en_expires en)))) (\<lambda>late.
                       if late then Inl BeyondEnvironment else Inr m)))
        | _ \<Rightarrow> Inl IdentifiersRequired)"

text \<open>The CHECK constraints and unique indexes of the seal table.\<close>

definition seal_refused :: "seal \<Rightarrow> seal list \<Rightarrow> bool" where
  "seal_refused s ss \<longleftrightarrow>
     \<not> list_all is_sha256_hex [sl_environment_digest s, si_journey (sl_inputs s), si_assertions (sl_inputs s),
         si_fixture (sl_inputs s), si_runner_profile (sl_inputs s), si_navigator_policy (sl_inputs s),
         si_model_config (sl_inputs s), sl_digest s] \<or>
     list_ex (\<lambda>q. sl_id q = sl_id s \<or> sl_run s \<noteq> None \<and> sl_run q = sl_run s \<or>
       (case (sl_manifest s, sl_manifest q) of
          (Some m, Some n) \<Rightarrow> item m ''authorizationId'' = item n ''authorizationId'' | _ \<Rightarrow> False)) ss"

definition seal_run ::
  "(items \<Rightarrow> bool) \<Rightarrow> run_store \<Rightarrow> pytext \<Rightarrow> pytext \<Rightarrow> pytext \<Rightarrow> pytext \<Rightarrow> pytext \<Rightarrow> pytext \<Rightarrow> seal_inputs \<Rightarrow>
     pytext option \<Rightarrow> pytext option \<Rightarrow> execution_inputs option \<Rightarrow> timestamptz \<Rightarrow> consent_db \<Rightarrow>
     (consent_error, consent_db \<times> seal) result" where
  "seal_run valid rs fresh w project snapshot artifact environment' x run auth execution now db =
     bind_result (assert_environment_usable environment' now db) (\<lambda>_.
     case (row en_id environment' (environments db), row sn_id snapshot (snapshots db), row ba_id artifact (artifacts db)) of
       (Some en, Some sn, Some ba) \<Rightarrow>
         let base = sealed_inputs w project sn ba en x
         in bind_result (case execution of
               None \<Rightarrow> Inr None
             | Some e \<Rightarrow> bind_result (check_execution valid rs project sn ba en snapshot base run auth x e now db)
                 (\<lambda>m. Inr (Some m))) (\<lambda>canonical.
            bind_result (map_error NotDigested (digest (PDict (case canonical of None \<Rightarrow> base | Some m \<Rightarrow> m)))) (\<lambda>dg.
            let s = \<lparr>sl_id = fresh, sl_workspace = w, sl_project = project, sl_run = run, sl_snapshot = snapshot,
                  sl_artifact = artifact, sl_environment = environment', sl_environment_digest = en_digest en,
                  sl_inputs = x, sl_digest = dg, sl_authorization = auth, sl_revision = 0, sl_manifest = canonical,
                  sl_sealed = now\<rparr>
            in if seal_refused s (seals db) \<or> w \<noteq> ws_id (people db) then Inl ConstraintViolated
               else Inr (db\<lparr>seals := seals db @ [s]\<rparr>, s)))
     | _ \<Rightarrow> Inl InputMissing)"

text \<open>\<open>str\<close> of a column that may be NULL.\<close>

definition column_text :: "pytext option \<Rightarrow> pytext" where
  "column_text c = (case c of None \<Rightarrow> str ''None'' | Some s \<Rightarrow> s)"

definition names_seal :: "items \<Rightarrow> seal \<Rightarrow> bool" where
  "names_seal m s \<longleftrightarrow> item m ''workspaceId'' = PStr (sl_workspace s) \<and> item m ''projectId'' = PStr (sl_project s) \<and>
     item m ''runId'' = PStr (column_text (sl_run s)) \<and>
     item m ''authorizationId'' = PStr (column_text (sl_authorization s)) \<and>
     item m ''environmentConfigDigest'' = PStr (sl_environment_digest s)"

definition assert_execution_seal_current ::
  "(items \<Rightarrow> bool) \<Rightarrow> pytext \<Rightarrow> timestamptz \<Rightarrow> consent_db \<Rightarrow> (consent_error, items) result" where
  "assert_execution_seal_current valid i now db =
     (case row sl_id i (seals db) of
        None \<Rightarrow> Inl SealIncomplete
      | Some s \<Rightarrow> (case sl_manifest s of
            None \<Rightarrow> Inl SealIncomplete
          | Some m \<Rightarrow>
              if \<not> valid m then Inl InvalidManifest
              else bind_result (map_error NotDigested (digest (PDict m))) (\<lambda>dg.
                if dg \<noteq> sl_digest s \<or> \<not> names_seal m s then Inl SealMismatch
                else bind_result (expiry (written now) (as_text (item m ''expiresAt'')) SealExpired) (\<lambda>_.
                  bind_result (assert_environment_usable (sl_environment s) now db) (\<lambda>_. Inr m)))))"

definition revalidate_before_dispatch ::
  "pytext \<Rightarrow> pytext \<Rightarrow> pytext \<Rightarrow> pytext \<Rightarrow> timestamptz \<Rightarrow> consent_db \<Rightarrow> (consent_error, unit) result" where
  "revalidate_before_dispatch i commit tree artifact now db =
     (case row sl_id i (seals db) of
        None \<Rightarrow> Inl NoSeal
      | Some s \<Rightarrow> (case (row sn_id (sl_snapshot s) (snapshots db), row ba_id (sl_artifact s) (artifacts db)) of
            (Some sn, Some ba) \<Rightarrow>
              bind_result (assert_environment_usable (sl_environment s) now db) (\<lambda>_.
              if commit \<noteq> sn_commit sn then Inl SourceChanged
              else if tree \<noteq> sn_tree sn then Inl TreeChanged
              else if artifact \<noteq> ba_digest ba then Inl ArtifactChanged
              else Inr ())
          | _ \<Rightarrow> Inl NoSeal))"

text \<open>\<open>ORDER BY sealed_at, id LIMIT 1\<close>\<close>

definition find_sealed_manifest :: "pytext \<Rightarrow> consent_db \<Rightarrow> seal option" where
  "find_sealed_manifest dg db =
     (case sort_key sl_sealed (sort_key sl_id (filter (\<lambda>s. sl_digest s = dg) (seals db))) of
        [] \<Rightarrow> None | s # _ \<Rightarrow> Some s)"

section \<open>Approvals\<close>

text \<open>The trigger on approvals: an identifier a canonical seal reserved is used for that seal alone.\<close>

definition reserved_for :: "approval_row \<Rightarrow> seal \<Rightarrow> bool" where
  "reserved_for a s \<longleftrightarrow> sl_manifest s \<noteq> None \<and> sl_authorization s = Some (ap_id a)"

definition matches_seal :: "(pytext \<Rightarrow> timestamptz option) \<Rightarrow> approval_row \<Rightarrow> seal \<Rightarrow> bool" where
  "matches_seal reads a s \<longleftrightarrow> ap_workspace a = sl_workspace s \<and> ap_scope a = RUN_EFFECTS \<and> ap_target a = sl_id s \<and>
     ap_digest a = sl_digest s \<and> ap_revision a = sl_revision s \<and>
     (case sl_manifest s of None \<Rightarrow> True
      | Some m \<Rightarrow> (case reads (as_text (item m ''expiresAt'')) of None \<Rightarrow> False | Some t \<Rightarrow> ap_expires a \<le> t))"

definition record_approval ::
  "(pytext \<Rightarrow> timestamptz option) \<Rightarrow> pytext \<Rightarrow> pytext \<Rightarrow> approval_scope \<Rightarrow> pytext \<Rightarrow> pytext \<Rightarrow> pytext \<Rightarrow> int \<Rightarrow> pytext \<Rightarrow>
     consent_db \<Rightarrow> (consent_error, consent_db) result" where
  "record_approval reads i w sc actor target dg revision' expires db =
     (case reads expires of
        None \<Rightarrow> Inl ColumnRefused
      | Some t \<Rightarrow>
          let a = \<lparr>ap_id = i, ap_scope = sc, ap_actor = actor, ap_workspace = w, ap_target = target, ap_digest = dg,
                ap_revision = revision', ap_expires = t, ap_revoked_at = None\<rparr>
          in if w \<noteq> ws_id (people db) \<or> row ap_id i (approvals db) \<noteq> None \<or> \<not> is_sha256_hex dg \<or>
               \<not> list_ex (\<lambda>u. ac_id u = actor) (accounts (people db)) \<or>
               list_ex (\<lambda>s. reserved_for a s \<and> \<not> matches_seal reads a s) (seals db) then Inl ConstraintViolated
             else Inr (db\<lparr>approvals := approvals db @ [a]\<rparr>))"

definition load_for_check :: "pytext \<Rightarrow> consent_db \<Rightarrow> (consent_error, approval) result" where
  "load_for_check i db =
     (case row ap_id i (approvals db) of
        None \<Rightarrow> Inl NoApproval
      | Some a \<Rightarrow> map_error Unauthorized (construct_approval
          \<lparr>approval_id = ap_id a, scope = ap_scope a, actor_id = ap_actor a, ap_workspace_id = ap_workspace a,
           target_id = ap_target a, target_digest = ap_digest a, expected_revision = ap_revision a,
           ap_expires_at = written (ap_expires a), ap_revoked = (ap_revoked_at a \<noteq> None)\<rparr>))"

definition revoke_approval :: "pytext \<Rightarrow> timestamptz \<Rightarrow> consent_db \<Rightarrow> consent_db \<times> bool" where
  "revoke_approval i now db =
     (db\<lparr>approvals := update_where (\<lambda>a. ap_id a = i \<and> ap_revoked_at a = None) (\<lambda>a. a\<lparr>ap_revoked_at := Some now\<rparr>)
        (approvals db)\<rparr>,
      list_ex (\<lambda>a. ap_id a = i \<and> ap_revoked_at a = None) (approvals db))"

section \<open>Execution approvals\<close>

definition find_seal :: "pytext \<Rightarrow> consent_db \<Rightarrow> (consent_error, seal) result" where
  "find_seal i db = (case row sl_id i (seals db) of None \<Rightarrow> Inl NoSeal | Some s \<Rightarrow> Inr s)"

definition may_approve :: "pytext \<Rightarrow> pytext \<Rightarrow> consent_db \<Rightarrow> bool" where
  "may_approve w actor db \<longleftrightarrow> w = ws_id (people db) \<and>
     (case membership_of actor (people db) of None \<Rightarrow> False | Some m \<Rightarrow> RUN_APPROVE \<in> permissions_for (m_role m))"

definition exact_target :: "seal \<Rightarrow> pytext \<Rightarrow> int \<Rightarrow> (consent_error, unit) result" where
  "exact_target s dg revision' =
     (if sl_manifest s = None then Inl LegacySeal
      else if dg \<noteq> sl_digest s \<or> revision' \<noteq> sl_revision s then Inl TargetDiffers
      else Inr ())"

text \<open>\<open>inspect\<close>: the approval issued for a seal.\<close>

definition issued_for :: "seal \<Rightarrow> approval_row \<Rightarrow> bool" where
  "issued_for s a \<longleftrightarrow> sl_authorization s = Some (ap_id a) \<and> sl_manifest s \<noteq> None \<and> ap_scope a = RUN_EFFECTS \<and>
     ap_target a = sl_id s \<and> ap_digest a = sl_digest s \<and> ap_revision a = sl_revision s"

definition inspect_approval :: "seal \<Rightarrow> consent_db \<Rightarrow> (consent_error, approval_row) result" where
  "inspect_approval s db = (case List.find (issued_for s) (approvals db) of None \<Rightarrow> Inl NoApproval | Some a \<Rightarrow> Inr a)"

definition note_consent :: "pytext \<Rightarrow> seal \<Rightarrow> pytext \<Rightarrow> consent_db \<Rightarrow> consent_db" where
  "note_consent actor s action' db = db\<lparr>consent_events := consent_events db @
     [\<lparr>de_actor = actor, de_action = action', de_target = column_text (sl_authorization s), de_detail = PDict []\<rparr>]\<rparr>"

definition issue_approval ::
  "(items \<Rightarrow> bool) \<Rightarrow> (pytext \<Rightarrow> timestamptz option) \<Rightarrow> pytext \<Rightarrow> pytext \<Rightarrow> pytext \<Rightarrow> int \<Rightarrow> pytext \<Rightarrow> timestamptz \<Rightarrow>
     consent_db \<Rightarrow> (consent_error, consent_db \<times> approval_row) result" where
  "issue_approval valid reads i actor dg revision' expires now db =
     bind_result (find_seal i db) (\<lambda>s.
     bind_result (exact_target s dg revision') (\<lambda>_.
     bind_result (assert_execution_seal_current valid i now db) (\<lambda>m.
     if \<not> may_approve (sl_workspace s) actor db then Inl ActorRefused
     else bind_result (expiry (written now) expires ExpiryRefused) (\<lambda>_.
       bind_result (map_error (\<lambda>_. BadTime) (is_after expires (as_text (item m ''expiresAt'')))) (\<lambda>late.
       if late then Inl ExpiryRefused
       else if row ap_id (column_text (sl_authorization s)) (approvals db) \<noteq> None then Inl ApprovalIssued
       else bind_result (record_approval reads (column_text (sl_authorization s)) (sl_workspace s) RUN_EFFECTS actor i dg
           revision' expires db) (\<lambda>db1.
         bind_result (inspect_approval s db1) (\<lambda>a.
         Inr (note_consent actor s (str ''RUN_EFFECTS_APPROVAL_ISSUED'') db1, a))))))))"

definition withdraw_approval ::
  "pytext \<Rightarrow> pytext \<Rightarrow> pytext \<Rightarrow> int \<Rightarrow> timestamptz \<Rightarrow> consent_db \<Rightarrow> (consent_error, consent_db) result" where
  "withdraw_approval i actor dg revision' now db =
     bind_result (find_seal i db) (\<lambda>s.
     bind_result (exact_target s dg revision') (\<lambda>_.
     if \<not> may_approve (sl_workspace s) actor db then Inl ActorRefused
     else bind_result (inspect_approval s db) (\<lambda>_.
       let (db1, changed) = revoke_approval (column_text (sl_authorization s)) now db
       in Inr (if changed then note_consent actor s (str ''RUN_EFFECTS_APPROVAL_REVOKED'') db1 else db1))))"

definition assert_authorized ::
  "(items \<Rightarrow> bool) \<Rightarrow> pytext \<Rightarrow> pytext \<Rightarrow> pytext \<Rightarrow> timestamptz \<Rightarrow> consent_db \<Rightarrow> (consent_error, items) result" where
  "assert_authorized valid i run w now db =
     bind_result (find_seal i db) (\<lambda>s.
     bind_result (assert_execution_seal_current valid i now db) (\<lambda>m.
     if item m ''runId'' \<noteq> PStr run \<or> item m ''workspaceId'' \<noteq> PStr w then Inl OtherRun
     else bind_result (load_for_check (as_text (item m ''authorizationId'')) db) (\<lambda>a.
       bind_result (map_error Unauthorized (approval_check a (written now) RUN_EFFECTS w i (sl_digest s) (sl_revision s))) (\<lambda>_.
       if \<not> may_approve w (actor_id a) db then Inl ActorRefused else Inr m))))"

section \<open>Histories\<close>

text \<open>The other callers of \<open>record_approval\<close> approve patches and publications.\<close>

inductive consent_step ::
  "(items \<Rightarrow> bool) \<Rightarrow> (pytext \<Rightarrow> timestamptz option) \<Rightarrow> consent_db \<Rightarrow> consent_db \<Rightarrow> bool" for valid reads where
  people_change: "workspace_step (people db) p \<Longrightarrow> consent_step valid reads db (db\<lparr>people := p\<rparr>)"
| environment_added: "register_environment reads fresh project e author db = Inr db' \<Longrightarrow> consent_step valid reads db db'"
| environment_replaced: "supersede_environment reads fresh old e author now db = Inr db' \<Longrightarrow> consent_step valid reads db db'"
| source_recorded: "record_source_snapshot fresh project commit tree dirty paths requested db = Inr db' \<Longrightarrow>
    consent_step valid reads db db'"
| build_recorded: "record_build_artifact fresh project snapshot dg observable db = Inr db' \<Longrightarrow> consent_step valid reads db db'"
| journey_published: "row jv_id (jv_id j) (journeys db) = None \<Longrightarrow>
    consent_step valid reads db (db\<lparr>journeys := journeys db @ [j]\<rparr>)"
| run_sealed: "seal_run valid rs fresh w project snapshot artifact en x run auth execution now db = Inr (db', s) \<Longrightarrow>
    consent_step valid reads db db'"
| approval_recorded: "sc \<noteq> RUN_EFFECTS \<Longrightarrow> record_approval reads i w sc actor target dg rv expires db = Inr db' \<Longrightarrow> consent_step valid reads db db'"
| approval_withdrawn: "consent_step valid reads db (fst (revoke_approval i now db))"
| consent_given: "issue_approval valid reads i actor dg rv expires now db = Inr (db', a) \<Longrightarrow> consent_step valid reads db db'"
| consent_withdrawn: "withdraw_approval i actor dg rv now db = Inr db' \<Longrightarrow> consent_step valid reads db db'"

definition empty_consents :: "consent_db \<Rightarrow> bool" where
  "empty_consents db \<longleftrightarrow> founded (people db) \<and> environments db = [] \<and> snapshots db = [] \<and> artifacts db = [] \<and>
     journeys db = [] \<and> seals db = [] \<and> approvals db = [] \<and> consent_events db = []"

end
