(* ===== verification/Membership.thy ===== *)
theory Membership
  imports Members
begin

text \<open>
  What a workspace may rely on about its members, over whole histories: it always has an owner, a
  person's standing changes only by an owner's recorded decision, and an invitation admits one person once.
\<close>

section \<open>What a decision does\<close>

definition standing :: "pytext \<Rightarrow> workspace_db \<Rightarrow> role option" where
  "standing u db = (case membership_of u db of None \<Rightarrow> None
     | Some m \<Rightarrow> if active_member m then Some (m_role m) else None)"

definition members_ok :: "workspace_db \<Rightarrow> bool" where
  "members_ok db \<longleftrightarrow> distinct (map m_user (members db)) \<and> distinct (map i_id (invitations db)) \<and>
     (\<exists>u. current_owner u db)"

text \<open>The rows of db' are those of db but that the target now stands as r.\<close>

definition decided_rows :: "pytext \<Rightarrow> role option \<Rightarrow> workspace_db \<Rightarrow> workspace_db \<Rightarrow> bool" where
  "decided_rows u r db db' \<longleftrightarrow> ws_id db' = ws_id db \<and> accounts db' = accounts db \<and> identities db' = identities db \<and>
     (membership_of u db = None \<and> (\<exists>x n. r = Some x \<and>
        members db' = members db @ [\<lparr>m_user = u, m_role = x, m_revoked = None, m_revision = n\<rparr>]) \<or>
      (\<exists>m n now. membership_of u db = Some m \<and>
        members db' = update_where (\<lambda>m. m_user m = u) (set_membership r n now) (members db) \<and>
        (active_member m \<and> m_role m = OWNER \<and> r \<noteq> Some OWNER \<longrightarrow> 2 \<le> length (owners db))))"

lemma change_membership_Inr:
  assumes "change_membership w actor target named expected reason now db = Inr (db', rv)"
  shows "decided_rows target (Option.bind named role_named) db db'" and "current_owner actor db" "enabled target db"
    and "invitations db' = invitations db" and "w = ws_id db"
    and "decisions db' = decisions db @ [\<lparr>de_actor = actor, de_action = str ''MEMBERSHIP_ADMINISTER'',
      de_target = target, de_detail = decision_detail target named rv reason\<rparr>]"
    and "expected = 0 \<Longrightarrow> (\<And>m. membership_of target db = Some m \<Longrightarrow> 0 < m_revision m) \<Longrightarrow> membership_of target db = None"
  using assms unfolding change_membership_def Let_def decided_rows_def
  by (auto split: if_splits option.splits) blast+

lemma set_membership_user [simp]: "m_user (set_membership r n now m) = m_user m"
  by (simp add: set_membership_def)

lemma membership_of_update:
  "members db' = update_where (\<lambda>m. m_user m = u) (set_membership r n now) (members db) \<Longrightarrow>
    membership_of v db' = (if v = u then map_option (set_membership r n now) else id) (membership_of v db)"
  by (cases "membership_of v db") (auto simp: membership_of_def row_update dest: row_SomeD)

lemma standing_set_membership [simp]:
  "(if active_member (set_membership r n now m) then Some (m_role (set_membership r n now m)) else None) = r"
  by (cases r) (simp_all add: set_membership_def active_member_def)

lemma membership_of_decided:
  assumes "decided_rows u r db db'"
  shows "v \<noteq> u \<Longrightarrow> membership_of v db' = membership_of v db" and "standing u db' = r"
proof -
  from assms consider x n where "membership_of u db = None" "r = Some x"
      "members db' = members db @ [\<lparr>m_user = u, m_role = x, m_revoked = None, m_revision = n\<rparr>]"
    | m n now where "membership_of u db = Some m"
      "members db' = update_where (\<lambda>m. m_user m = u) (set_membership r n now) (members db)"
    unfolding decided_rows_def by blast
  note cases = this
  show "membership_of v db' = membership_of v db" if "v \<noteq> u"
    using cases
  proof cases
    case 2
    show ?thesis using that by (simp add: membership_of_update [OF 2(2)])
  qed (use that in \<open>simp add: membership_of_def split: option.splits\<close>)
  show "standing u db' = r" using cases
  proof cases
    case 1
    then have "membership_of u db' = Some \<lparr>m_user = u, m_role = x, m_revoked = None, m_revision = n\<rparr>"
      by (simp add: membership_of_def)
    with 1 show ?thesis by (simp add: standing_def active_member_def)
  next
    case 2
    then have "membership_of u db' = Some (set_membership r n now m)" by (simp add: membership_of_update)
    then show ?thesis by (simp add: standing_def)
  qed
qed

lemma enabled_decided: "decided_rows u r db db' \<Longrightarrow> enabled v db' = enabled v db"
  by (simp add: decided_rows_def enabled_def)

lemma owners_set:
  "distinct (map m_user (members db)) \<Longrightarrow> set (owners db) = {u. current_owner u db}"
  by (auto simp: owners_def current_owner_def membership_of_def row_distinct distinct_map dest: inj_onD
      split: option.splits)

lemma current_owner_standing: "current_owner u db \<longleftrightarrow> standing u db = Some OWNER \<and> enabled u db"
  by (auto simp: current_owner_def standing_def split: option.splits)

lemma decided_ok:
  assumes "decided_rows u r db db'" and "members_ok db" and "invitations db' = invitations db"
  shows "members_ok db'"
proof -
  have d: "distinct (map m_user (members db))" using assms(2) by (simp add: members_ok_def)
  have "distinct (map m_user (members db'))"
    using assms(1) d by (auto simp: decided_rows_def map_key_update membership_of_def row_None_iff)
  moreover have "\<exists>v. current_owner v db'"
  proof (cases "standing u db = Some OWNER \<and> r \<noteq> Some OWNER")
    case True
    with assms(1) have two: "2 \<le> length (owners db)"
      by (auto simp: decided_rows_def standing_def split: option.splits if_splits)
    have "distinct (owners db)" using d by (simp add: owners_def distinct_map_filter)
    with two have "2 \<le> card (set (owners db))" by (simp add: distinct_card)
    then have "card (set (owners db) - {u}) \<noteq> 0" using card_Diff1_le [of "set (owners db)" u]
      by (cases "u \<in> set (owners db)") auto
    then obtain v where "v \<in> set (owners db)" "v \<noteq> u" by (metis card.empty all_not_in_conv Diff_iff singletonI)
    then have "current_owner v db'"
      using membership_of_decided(1) [OF assms(1), of v] enabled_decided [OF assms(1), of v]
      by (simp add: owners_set [OF d] current_owner_def)
    then show ?thesis ..
  next
    case False
    obtain v where v: "current_owner v db" using assms(2) by (auto simp: members_ok_def)
    show ?thesis
    proof (cases "v = u")
      case True
      with v False have "r = Some OWNER" by (simp add: current_owner_standing)
      with v True have "current_owner u db'"
        using membership_of_decided(2) [OF assms(1)] enabled_decided [OF assms(1), of u]
        by (simp add: current_owner_standing)
      then show ?thesis ..
    next
      case False
      with v have "current_owner v db'"
        using membership_of_decided(1) [OF assms(1), of v] enabled_decided [OF assms(1), of v]
        by (simp add: current_owner_def)
      then show ?thesis ..
    qed
  qed
  ultimately show ?thesis using assms(2,3) by (simp add: members_ok_def)
qed

section \<open>What an invitation does\<close>

lemma note_invitation_simps [simp]:
  "members (note_invitation a i x db) = members db" "accounts (note_invitation a i x db) = accounts db"
  "identities (note_invitation a i x db) = identities db" "invitations (note_invitation a i x db) = invitations db"
  "ws_id (note_invitation a i x db) = ws_id db"
  by (simp_all add: note_invitation_def)

lemma create_Inr:
  assumes "create_invitation w actor i subject named ttl reason clock db = Inr db'"
  shows "members db' = members db" "accounts db' = accounts db" "i \<notin> i_id ` set (invitations db)"
    and "\<exists>x. invitations db' = invitations db @ [x] \<and> i_id x = i"
  using assms by (auto simp: create_invitation_def row_None_iff split: if_splits option.splits)

lemma revoke_Inr:
  assumes "revoke_invitation w actor i expected clock db = Inr db'"
  shows "members db' = members db" "accounts db' = accounts db"
    and "invitations db' = update_where (\<lambda>x. i_id x = i \<and> pending 1 x)
      (\<lambda>x. x\<lparr>i_revoked := Some clock, i_revision := i_revision x + 1\<rparr>) (invitations db)"
  using assms by (auto simp: revoke_invitation_def split: if_splits)

lemma accept_Inr:
  assumes "accept_invitation w i user subject expected now clock db = Inr db'"
  obtains x rv db1 where "x \<in> set (invitations db)" "i_id x = i" "i_subject x = subject" "pending 1 x"
    "clock < i_expires x" "current_owner (i_creator x) db"
    "change_membership w (i_creator x) user (Some (role_value (i_role x))) 0 (i_reason x) now db = Inr (db1, rv)"
    "db' = note_invitation user i (str ''MEMBERSHIP_INVITATION_ACCEPTED'')
      (db1\<lparr>invitations := update_where (\<lambda>y. i_id y = i)
        (\<lambda>y. y\<lparr>i_accepted := Some clock, i_accepted_by := Some user, i_revision := 2\<rparr>) (invitations db1)\<rparr>)"
proof -
  from assms obtain x where x: "List.find (\<lambda>x. i_id x = i \<and> i_subject x = subject \<and> pending expected x) (invitations db) = Some x"
    and e: "expected = 1"
    by (auto simp: accept_invitation_def split: if_splits option.splits)
  then have "x \<in> set (invitations db)" "i_id x = i" "i_subject x = subject" "pending 1 x"
    by (auto simp: find_Some_iff)
  moreover from assms x e obtain db1 rv where "clock < i_expires x" "current_owner (i_creator x) db"
    "change_membership w (i_creator x) user (Some (role_value (i_role x))) 0 (i_reason x) now db = Inr (db1, rv)"
    "db' = note_invitation user i (str ''MEMBERSHIP_INVITATION_ACCEPTED'')
      (db1\<lparr>invitations := update_where (\<lambda>y. i_id y = i)
        (\<lambda>y. y\<lparr>i_accepted := Some clock, i_accepted_by := Some user, i_revision := 2\<rparr>) (invitations db1)\<rparr>)"
    by (auto simp: accept_invitation_def bind_result_Inr split: if_splits)
  ultimately show thesis by (rule that)
qed

section \<open>The invariant\<close>

lemma current_owner_eq:
  "accounts db' = accounts db \<Longrightarrow> members db' = members db \<Longrightarrow> current_owner u db' = current_owner u db"
  by (simp add: current_owner_def membership_of_def enabled_def)

lemma standing_eq: "members db' = members db \<Longrightarrow> standing u db' = standing u db"
  by (simp add: standing_def membership_of_def)

text \<open>Every step either leaves the memberships alone, or is an owner's decision about one person.\<close>

lemma workspace_step_cases:
  assumes "workspace_step db db'"
  obtains (kept) "members db' = members db" "\<And>u. enabled u db \<Longrightarrow> enabled u db'"
      "take (length (decisions db)) (decisions db') = decisions db"
      "distinct (map i_id (invitations db)) \<longrightarrow> distinct (map i_id (invitations db'))"
  | (decision) u actor named rv reason ds db1 where "decided_rows u (Option.bind named role_named) db db1"
      "current_owner actor db" "members db' = members db1" "accounts db' = accounts db1"
      "map i_id (invitations db') = map i_id (invitations db)"
      "decisions db' = decisions db @ \<lparr>de_actor = actor, de_action = str ''MEMBERSHIP_ADMINISTER'',
        de_target = u, de_detail = decision_detail u named rv reason\<rparr> # ds"
      "invitations db1 = invitations db"
  using assms
proof cases
  case (decided w actor target named expected reason now rv)
  from change_membership_Inr [OF this] show ?thesis by (intro decision [of target named db' actor rv reason "[]"]) simp_all
next
  case (joined w i user subject expected now clock)
  show ?thesis
  proof (rule accept_Inr [OF joined], goal_cases)
    case (1 x rv db1)
    note r = change_membership_Inr [OF 1(7)]
    show ?case by (rule decision [OF r(1,2)]) (simp_all add: 1(8) r(4,6) note_invitation_def map_key_update)
  qed
next
  case (invited w actor i subject named ttl reason clock)
  from create_Inr [OF this] invited show ?thesis
    by (intro kept) (auto simp: enabled_def create_invitation_def note_invitation_def split: if_splits option.splits)
next
  case (withdrawn w actor i expected clock)
  from revoke_Inr [OF this] withdrawn show ?thesis
    by (intro kept) (auto simp: enabled_def revoke_invitation_def note_invitation_def map_key_update split: if_splits)
qed (use kept in \<open>auto simp: enabled_def\<close>)

lemma members_ok_eq:
  "members_ok db \<Longrightarrow> members db' = members db \<Longrightarrow> (\<And>u. enabled u db \<Longrightarrow> enabled u db') \<Longrightarrow>
    distinct (map i_id (invitations db')) \<Longrightarrow> members_ok db'"
  unfolding members_ok_def current_owner_def membership_of_def by auto

interpretation workspace: invariant_system founded workspace_step members_ok
proof
  show "members_ok db" if "founded db" for db
    using that by (auto simp: founded_def members_ok_def current_owner_def membership_of_def row_def active_member_def enabled_def)
  show "members_ok db'" if "members_ok db" and "workspace_step db db'" for db db'
    using that(2)
  proof (cases rule: workspace_step_cases)
    case kept
    with that(1) show ?thesis by (intro members_ok_eq [of db db']) (auto simp: members_ok_def)
  next
    case (decision u actor named rv reason ds db1)
    from decided_ok [OF decision(1) that(1) decision(7)] have "members_ok db1" .
    then show ?thesis
      using decision by (intro members_ok_eq [of db1 db']) (simp_all add: enabled_def members_ok_def)
  qed
qed

text \<open>
  C12: a workspace always has an owner. Whatever its owners decide, however invitations are accepted, at
  every moment some account that is not disabled holds an active OWNER membership: the last one can
  neither leave nor be demoted.
\<close>

theorem workspace_keeps_an_owner:
  assumes "reachable founded workspace_step db"
  shows "\<exists>u m. membership_of u db = Some m \<and> m_role m = OWNER \<and> m_revoked m = None \<and> enabled u db"
  using workspace.invar_reachable [OF assms]
  by (auto simp: members_ok_def current_owner_def active_member_def split: option.splits)

section \<open>Decisions are recorded\<close>

lemma decisions_kept: "workspace_step db db' \<Longrightarrow> \<exists>ds. decisions db' = decisions db @ ds"
  by (erule workspace_step_cases) (metis append_take_drop_id, auto)

lemma decisions_run: "workspace_step\<^sup>*\<^sup>* db db' \<Longrightarrow> \<exists>ds. decisions db' = decisions db @ ds"
proof (induction rule: rtranclp_induct)
  case (step db1 db2)
  then show ?case using decisions_kept [OF step(2)] by (metis append_assoc)
qed simp

definition recorded :: "pytext \<Rightarrow> role option \<Rightarrow> decision_event \<Rightarrow> bool" where
  "recorded u r e \<longleftrightarrow> de_action e = str ''MEMBERSHIP_ADMINISTER'' \<and> de_target e = u \<and>
     (\<exists>named rv reason. de_detail e = decision_detail u named rv reason \<and> Option.bind named role_named = r)"

lemma standing_step:
  assumes "workspace_step db db'" and "standing u db' \<noteq> standing u db"
  shows "\<exists>e \<in> set (drop (length (decisions db)) (decisions db')). recorded u (standing u db') e \<and> current_owner (de_actor e) db"
  using assms(1)
proof (cases rule: workspace_step_cases)
  case kept
  with assms(2) show ?thesis by (simp add: standing_eq [OF kept(1)])
next
  case (decision v actor named rv reason ds db1)
  have s: "standing w db' = standing w db1" for w by (rule standing_eq) (rule decision(3))
  have "v = u"
  proof (rule ccontr)
    assume "v \<noteq> u"
    with membership_of_decided(1) [OF decision(1), of u] have "standing u db1 = standing u db" by (simp add: standing_def)
    with assms(2) show False by (simp add: s)
  qed
  with membership_of_decided(2) [OF decision(1)] have "standing u db' = Option.bind named role_named" by (simp add: s)
  with \<open>v = u\<close> decision(2,6) show ?thesis by (auto simp: recorded_def)
qed

text \<open>
  C13: a person's standing changes only by a recorded decision of an owner. If somebody is a member with
  another role, or no longer a member, at a later moment of a history, then in between a decision about
  that person was recorded that names exactly the standing they have, by someone who owned the workspace then.
\<close>

theorem standing_changes_are_owned:
  assumes "workspace_step\<^sup>*\<^sup>* db db'" and "standing u db' \<noteq> standing u db"
  shows "\<exists>e \<in> set (drop (length (decisions db)) (decisions db')). recorded u (standing u db') e \<and>
    (\<exists>db1. workspace_step\<^sup>*\<^sup>* db db1 \<and> workspace_step\<^sup>*\<^sup>* db1 db' \<and> current_owner (de_actor e) db1)"
  using assms
proof (induction rule: rtranclp_induct)
  case (step db1 db2)
  obtain ds es where d: "decisions db1 = decisions db @ ds" "decisions db2 = decisions db1 @ es"
    using decisions_run [OF step(1)] decisions_kept [OF step(2)] by blast
  show ?case
  proof (cases "standing u db2 = standing u db1")
    case True
    with step.IH step.prems obtain e db0 where "e \<in> set (drop (length (decisions db)) (decisions db1))"
      "recorded u (standing u db1) e" "workspace_step\<^sup>*\<^sup>* db db0" "workspace_step\<^sup>*\<^sup>* db0 db1" "current_owner (de_actor e) db0"
      by auto
    with d True step(2) show ?thesis
      by (intro bexI [of _ e] conjI exI [of _ db0]) (auto intro: rtranclp.rtrancl_into_rtrancl)
  next
    case False
    from standing_step [OF step(2) this] obtain e where "e \<in> set es" "recorded u (standing u db2) e" "current_owner (de_actor e) db1"
      by (auto simp: d(2))
    with d step(1,2) show ?thesis
      by (intro bexI [of _ e] conjI exI [of _ db1]) auto
  qed
qed simp

section \<open>Invitations\<close>

text \<open>An invitation that was used or withdrawn.\<close>

definition spent :: "pytext \<Rightarrow> workspace_db \<Rightarrow> bool" where
  "spent i db \<longleftrightarrow> (\<exists>x \<in> set (invitations db). i_id x = i) \<and>
     (\<forall>x \<in> set (invitations db). i_id x = i \<longrightarrow> i_accepted x \<noteq> None \<or> i_revoked x \<noteq> None)"

lemma spent_update:
  assumes "spent i db" and "invitations db' = update_where P f (invitations db)" and "\<And>x. i_id (f x) = i_id x"
    and "\<And>x. i_accepted (f x) = None \<Longrightarrow> i_accepted x = None" and "\<And>x. i_revoked (f x) = None \<Longrightarrow> i_revoked x = None"
  shows "spent i db'"
proof -
  have ids: "i_id (if P x then f x else x) = i_id x" for x by (simp add: assms(3))
  have "i_accepted (if P x then f x else x) \<noteq> None \<or> i_revoked (if P x then f x else x) \<noteq> None"
    if "i_accepted x \<noteq> None \<or> i_revoked x \<noteq> None" for x
    using that assms(4,5) by auto
  with assms(1) show ?thesis
    unfolding spent_def assms(2) update_where_def set_map bex_simps ball_simps ids by blast
qed

lemma spent_step:
  assumes "workspace_step db db'" and "spent i db"
  shows "spent i db'"
  using assms(1)
proof cases
  case (decided w actor target named expected reason now rv)
  from change_membership_Inr(4) [OF this] assms(2) show ?thesis by (simp add: spent_def)
next
  case (invited w actor j subject named ttl reason clock)
  from create_Inr [OF this] assms(2) show ?thesis by (auto simp: spent_def)
next
  case (withdrawn w actor j expected clock)
  from revoke_Inr(3) [OF this] show ?thesis by (rule spent_update [OF assms(2)]) simp_all
next
  case (joined w j user subject expected now clock)
  show ?thesis
  proof (rule accept_Inr [OF joined], goal_cases)
    case (1 x rv db1)
    from change_membership_Inr(4) [OF 1(7)] have "spent i db1" using assms(2) by (simp add: spent_def)
    then show ?case
      by (rule spent_update [where P = "\<lambda>y. i_id y = j" and
          f = "\<lambda>y. y\<lparr>i_accepted := Some clock, i_accepted_by := Some user, i_revision := 2\<rparr>"]) (simp_all add: 1(8))
  qed
qed (use assms(2) in \<open>simp_all add: spent_def\<close>)

lemma spent_refused:
  assumes "spent i db"
  shows "\<not> succeeds (accept_invitation w i user subject expected now clock db)"
proof
  assume "succeeds (accept_invitation w i user subject expected now clock db)"
  then obtain db' where "accept_invitation w i user subject expected now clock db = Inr db'" by (auto simp: succeeds_iff)
  then show False by (rule accept_Inr) (use assms in \<open>auto simp: spent_def pending_def\<close>)
qed

text \<open>Revisions of memberships are positive, so revision zero means that there was none.\<close>

lemma revisions_positive:
  assumes "reachable founded workspace_step db"
  shows "\<forall>m \<in> set (members db). 0 < m_revision m"
  using assms
proof (induction rule: reachable.induct)
  case (reach_init db)
  then show ?case by (auto simp: founded_def)
next
  case (reach_step db db')
  have rows: "\<forall>m \<in> set (members db1). 0 < m_revision m"
    if "change_membership w actor u named expected reason now db = Inr (db1, rv)" for w actor u named expected reason now db1 rv
    using that reach_step.IH unfolding change_membership_def Let_def
    by (auto simp: in_update_where set_membership_def membership_of_def dest: row_SomeD split: if_splits option.splits)
  from reach_step(2) show ?case
  proof cases
    case (decided w actor target named expected reason now rv)
    then show ?thesis by (rule rows)
  next
    case (joined w i user subject expected now clock)
    show ?thesis by (rule accept_Inr [OF joined]) (auto dest: rows)
  next
    case (invited w actor i subject named ttl reason clock)
    with create_Inr(1) [OF this] reach_step.IH show ?thesis by simp
  next
    case (withdrawn w actor i expected clock)
    with revoke_Inr(1) [OF this] reach_step.IH show ?thesis by simp
  qed (use reach_step.IH in simp_all)
qed

lemma role_named_value [simp]: "role_named (role_value r) = Some r"
  by (cases r) (simp_all add: role_named_def)

text \<open>
  C14: an invitation admits the person it was made for, once. When one is accepted, it was open and not out
  of time, the provider subject it names is the accepting one, whoever issued it still owns the workspace, and
  the person had no membership before, not even a revoked one; they now stand exactly in its role. No later
  call, by anybody, accepts it again.
\<close>

theorem invitation_admits_once:
  assumes "reachable founded workspace_step db"
    and "accept_invitation w i user subject expected now clock db = Inr db1" and "workspace_step\<^sup>*\<^sup>* db1 db2"
  shows "(\<exists>x \<in> set (invitations db). i_id x = i \<and> i_subject x = subject \<and> clock < i_expires x \<and>
      current_owner (i_creator x) db \<and> membership_of user db = None \<and> standing user db1 = Some (i_role x)) \<and>
    \<not> succeeds (accept_invitation w' i user' subject' expected' now' clock' db2)"
proof (rule accept_Inr [OF assms(2)], goal_cases)
  case (1 x rv dba)
  note c = change_membership_Inr [OF 1(7)]
  have "0 < m_revision m" if "membership_of user db = Some m" for m
    using revisions_positive [OF assms(1)] that by (auto simp: membership_of_def dest: row_SomeD)
  with c(7) have none: "membership_of user db = None" by simp
  have "standing user db1 = standing user dba" by (rule standing_eq) (simp add: 1(8))
  with membership_of_decided(2) [OF c(1)] have stands: "standing user db1 = Some (i_role x)" by simp
  have rows: "invitations db1 = map (\<lambda>y. if i_id y = i
      then y\<lparr>i_accepted := Some clock, i_accepted_by := Some user, i_revision := 2\<rparr> else y) (invitations db)"
    by (simp add: 1(8) c(4) update_where_def)
  have "spent i db1"
    unfolding spent_def rows set_map bex_simps ball_simps using 1(1,2) by auto
  with assms(3) have "spent i db2" by (induction rule: rtranclp_induct) (auto intro: spent_step)
  with 1(1-6) none stands show ?case by (auto dest: spent_refused)
qed

section \<open>A sample workspace\<close>

definition sample_id :: "code_point \<Rightarrow> pytext" where
  "sample_id c = replicate 8 c @ 45 # replicate 4 c @ 45 # replicate 4 c @ 45 # replicate 4 c @ 45 # replicate 12 c"

lemma sample_id_uuid: "canonical_uuid (sample_id 97)" "canonical_uuid (sample_id 98)" "canonical_uuid (sample_id 99)"
  "canonical_uuid (sample_id 100)"
  by code_simp+

lemma sample_id_inject [simp]: "sample_id b = sample_id c \<longleftrightarrow> b = c"
  by (auto simp: sample_id_def eval_nat_numeral)

definition owned_workspace :: workspace_db where
  "owned_workspace = \<lparr>ws_id = sample_id 100, accounts = [\<lparr>ac_id = sample_id 97, ac_disabled = None\<rparr>],
     members = [\<lparr>m_user = sample_id 97, m_role = OWNER, m_revoked = None, m_revision = 1\<rparr>],
     identities = [], invitations = [], decisions = []\<rparr>"

definition known_guest :: workspace_db where
  "known_guest = owned_workspace\<lparr>accounts := accounts owned_workspace @ [\<lparr>ac_id = sample_id 98, ac_disabled = None\<rparr>],
     identities := [\<lparr>gi_subject = 7, gi_user = sample_id 98, gi_revoked = None\<rparr>]\<rparr>"

definition invited_guest :: workspace_db where
  "invited_guest = note_invitation (sample_id 97) (sample_id 99) (str ''MEMBERSHIP_INVITATION_CREATED'')
     (known_guest\<lparr>invitations := [\<lparr>i_id = sample_id 99, i_subject = 7, i_role = MAINTAINER, i_creator = sample_id 97,
        i_reason = [120], i_created = 5, i_expires = 5 + seconds 60, i_revision = 1, i_revoked = None,
        i_accepted = None, i_accepted_by = None\<rparr>]\<rparr>)"

lemma known_guest_reachable: "reachable founded workspace_step known_guest"
proof -
  let ?one = "owned_workspace\<lparr>accounts := accounts owned_workspace @ [\<lparr>ac_id = sample_id 98, ac_disabled = None\<rparr>]\<rparr>"
  have "founded owned_workspace" by (simp add: founded_def owned_workspace_def)
  then have "reachable founded workspace_step owned_workspace" by (rule reach_init)
  moreover have "workspace_step owned_workspace ?one"
    by (rule account_created) (simp add: owned_workspace_def)
  ultimately have "reachable founded workspace_step ?one" by (rule reach_step)
  moreover have "workspace_step ?one (?one\<lparr>identities := identities ?one @
      [\<lparr>gi_subject = 7, gi_user = sample_id 98, gi_revoked = None\<rparr>]\<rparr>)"
    by (rule identity_bound) (simp add: owned_workspace_def)
  ultimately have "reachable founded workspace_step (?one\<lparr>identities := identities ?one @
      [\<lparr>gi_subject = 7, gi_user = sample_id 98, gi_revoked = None\<rparr>]\<rparr>)" by (rule reach_step)
  then show ?thesis by (simp add: known_guest_def owned_workspace_def)
qed

lemmas sample_workspace_eval = known_guest_def owned_workspace_def current_owner_def membership_of_def enabled_def
  active_member_def sample_id_uuid reason_given_def blank_def py_space_def strip_def seconds_def subject_ok_def

lemma guest_invited:
  "create_invitation (sample_id 100) (sample_id 97) (sample_id 99) 7 (str ''MAINTAINER'') 60 [120] 5 known_guest =
     Inr invited_guest"
  using role_named_value [of MAINTAINER]
  by (simp add: create_invitation_def invited_guest_def sample_workspace_eval)

lemma invited_guest_reachable: "reachable founded workspace_step invited_guest"
proof -
  have "workspace_step known_guest invited_guest" by (rule invited [OF guest_invited])
  with known_guest_reachable show ?thesis by (rule reach_step)
qed

lemma guest_joins:
  "succeeds (accept_invitation (sample_id 100) (sample_id 99) (sample_id 98) 7 1 5 6 invited_guest)"
  using role_named_value [of MAINTAINER]
  by (simp add: accept_invitation_def change_membership_def invited_guest_def sample_workspace_eval pending_def
      note_invitation_def Let_def)

theorem workspace_keeps_an_owner_witness:
  "\<exists>u m. membership_of u invited_guest = Some m \<and> m_role m = OWNER \<and> m_revoked m = None \<and> enabled u invited_guest"
  by (rule workspace_keeps_an_owner [OF invited_guest_reachable])

theorem invitation_admits_once_witness:
  "\<exists>db1. accept_invitation (sample_id 100) (sample_id 99) (sample_id 98) 7 1 5 6 invited_guest = Inr db1 \<and>
     standing (sample_id 98) db1 = Some MAINTAINER \<and>
     \<not> succeeds (accept_invitation (sample_id 100) (sample_id 99) (sample_id 98) 7 1 5 6 db1)"
proof -
  from guest_joins obtain db1 where
    a: "accept_invitation (sample_id 100) (sample_id 99) (sample_id 98) 7 1 5 6 invited_guest = Inr db1"
    by (auto simp: succeeds_iff)
  from invitation_admits_once [OF invited_guest_reachable a rtranclp.rtrancl_refl] a show ?thesis
    by (auto simp: invited_guest_def)
qed

theorem standing_changes_are_owned_witness:
  "\<exists>(db1 :: workspace_db) (e :: decision_event). accept_invitation (sample_id 100) (sample_id 99) (sample_id 98) 7 1 5 6 invited_guest = Inr db1 \<and>
     e \<in> set (decisions db1) \<and> recorded (sample_id 98) (Some MAINTAINER) e"
proof -
  from guest_joins obtain db1 where
    a: "accept_invitation (sample_id 100) (sample_id 99) (sample_id 98) 7 1 5 6 invited_guest = Inr db1"
    by (auto simp: succeeds_iff)
  have "workspace_step invited_guest db1" by (rule joined [OF a])
  then have run: "workspace_step\<^sup>*\<^sup>* invited_guest db1" by blast
  have before: "standing (sample_id 98) invited_guest = None"
    by (simp add: standing_def invited_guest_def sample_workspace_eval note_invitation_def)
  have "standing (sample_id 98) db1 = Some MAINTAINER"
    using a role_named_value [of MAINTAINER]
    by (simp add: accept_invitation_def change_membership_def invited_guest_def sample_workspace_eval pending_def
      note_invitation_def Let_def standing_def) (auto simp: row_def active_member_def)
  with standing_changes_are_owned [OF run, of "sample_id 98"] before a show ?thesis
    by (auto dest: in_set_dropD)
qed

end
