(* ===== verification/Consent.thy ===== *)
theory Consent
  imports Consents Membership Portable Run_Journal Preflight
begin

text \<open>
  What execution consent is worth over whole histories: whose decision it rests on, that withdrawing it is
  final, when a seal stops being current, and what the approver's removal from the workspace does not change.
\<close>

section \<open>Times of rows and texts\<close>

lemma of_instant_le_iff:
  "valid_instant i \<Longrightarrow> valid_instant j \<Longrightarrow> of_instant i \<le> of_instant j \<longleftrightarrow> i \<le> j"
  by (metis linorder_not_less of_instant_mono order_le_less)

lemma expired_moment:
  assumes "calendar_moment now"
  shows "is_expired (written now) x = Inr b \<longleftrightarrow> (\<exists>t. moment_of x = Inr t \<and> b = (t \<le> now))"
  using calendar_text [OF assms] parse_valid
  by (auto simp: is_expired_Inr moment_of_def bind_result_Inr of_instant_le_iff simp flip: of_instant_le_iff)

lemma moment_written: "calendar_moment t \<Longrightarrow> moment_of (written t) = Inr t"
  using calendar_text [of t] by (simp add: moment_of_def)

lemma expiry_Inr: "expiry now x e = Inr u \<longleftrightarrow> is_expired now x = Inr False"
  by (auto simp: expiry_def bind_result_Inr split: if_splits)

lemma expiry_cases:
  assumes "calendar_moment now" and "moment_of x = Inr t"
  shows "expiry (written now) x e = (if t \<le> now then Inl e else Inr ())"
proof -
  have "is_expired (written now) x = Inr (t \<le> now)" using assms by (simp add: expired_moment)
  then show ?thesis by (simp add: expiry_def)
qed

section \<open>What a step changes\<close>

definition approvals_kept :: "consent_db \<Rightarrow> consent_db \<Rightarrow> bool" where
  "approvals_kept db db' \<longleftrightarrow> (\<forall>k a. row ap_id k (approvals db) = Some a \<longrightarrow>
     (\<exists>b. row ap_id k (approvals db') = Some b \<and> (ap_revoked_at a \<noteq> None \<longrightarrow> ap_revoked_at b = ap_revoked_at a)))"

lemma approvals_kept_refl: "approvals db' = approvals db \<Longrightarrow> approvals_kept db db'"
  by (simp add: approvals_kept_def)

lemma approvals_kept_append: "approvals db' = approvals db @ as \<Longrightarrow> approvals_kept db db'"
  by (simp add: approvals_kept_def)

lemma approvals_kept_trans: "approvals_kept db1 db2 \<Longrightarrow> approvals_kept db2 db3 \<Longrightarrow> approvals_kept db1 db3"
  unfolding approvals_kept_def by (metis (no_types, lifting))

lemma approvals_kept_revoke: "approvals_kept db (fst (revoke_approval i now db))"
  unfolding approvals_kept_def revoke_approval_def by (auto simp: row_update)

lemma record_approval_Inr:
  assumes "record_approval reading i w sc actor target dg rv expires db = Inr db'"
  obtains a where "db' = db\<lparr>approvals := approvals db @ [a]\<rparr>" "ap_id a = i" "ap_scope a = sc" "ap_actor a = actor"
    "ap_target a = target" "ap_digest a = dg" "ap_revision a = rv" "ap_revoked_at a = None" "ap_workspace a = w"
    "row ap_id i (approvals db) = None" "reading expires = Some (ap_expires a)"
  using assms that by (fastforce simp: record_approval_def Let_def split: option.splits if_splits)

lemma issue_approval_Inr:
  assumes "issue_approval valid reading i actor dg rv expires now db = Inr (db', a)"
  obtains s m db1 where "row sl_id i (seals db) = Some s" "sl_manifest s \<noteq> None" "dg = sl_digest s" "rv = sl_revision s"
    "assert_execution_seal_current valid i now db = Inr m" "may_approve (sl_workspace s) actor db"
    "row ap_id (column_text (sl_authorization s)) (approvals db) = None"
    "record_approval reading (column_text (sl_authorization s)) (sl_workspace s) RUN_EFFECTS actor i dg rv expires db = Inr db1"
    "inspect_approval s db1 = Inr a" "db' = note_consent actor s (str ''RUN_EFFECTS_APPROVAL_ISSUED'') db1"
  using assms that
  by (auto simp: issue_approval_def find_seal_def exact_target_def bind_result_Inr split: option.splits if_splits)

lemma withdraw_approval_Inr:
  assumes "withdraw_approval i actor dg rv now db = Inr db'"
  obtains s a where "row sl_id i (seals db) = Some s" "List.find (issued_for s) (approvals db) = Some a"
    "may_approve (sl_workspace s) actor db"
    "approvals db' = approvals (fst (revoke_approval (column_text (sl_authorization s)) now db))"
    "seals db' = seals db" "people db' = people db" "environments db' = environments db"
  using assms that
  by (auto simp: withdraw_approval_def find_seal_def exact_target_def inspect_approval_def bind_result_Inr Let_def
      revoke_approval_def note_consent_def split: option.splits if_splits prod.splits)

lemma seal_run_Inr:
  assumes "seal_run valid rs fresh w project snapshot artifact en x run auth execution now db = Inr (db', s)"
  shows "db' = db\<lparr>seals := seals db @ [s]\<rparr>" "row sl_id (sl_id s) (seals db) = None"
  using assms
  by (auto simp: seal_run_def bind_result_Inr Let_def seal_refused_def row_None_iff list_ex_iff
      split: option.splits if_splits)

lemma register_Inr:
  assumes "register_environment reading fresh project e author db = Inr db'"
  obtains r where "db' = db\<lparr>environments := environments db @ [r]\<rparr>" "en_id r = fresh" "en_revoked r = None"
    "en_superseded r = None" "reading (es_expires e) = Some (en_expires r)" "row en_id fresh (environments db) = None"
  using assms that by (fastforce simp: register_environment_def bind_result_Inr split: option.splits if_splits)

lemma consent_step_kept:
  assumes "consent_step valid reading db db'"
  shows "(seals db' = seals db \<or> (\<exists>s. seals db' = seals db @ [s] \<and> row sl_id (sl_id s) (seals db) = None)) \<and> approvals_kept db db'"
  using assms
proof cases
  case (run_sealed rs fresh w project snapshot artifact en x run auth execution now s)
  then show ?thesis using seal_run_Inr [OF run_sealed] by (auto intro: approvals_kept_refl)
next
  case (approval_recorded sc i w actor target dg rv expires)
  from approval_recorded(2) show ?thesis by (rule record_approval_Inr) (auto intro: approvals_kept_append)
next
  case (approval_withdrawn i now)
  then show ?thesis using approvals_kept_revoke by (auto simp: revoke_approval_def)
next
  case (consent_given i actor dg rv expires now a)
  then show ?thesis
  proof (rule issue_approval_Inr, goal_cases)
    case (1 s m db1)
    from 1(8) show ?case by (rule record_approval_Inr) (auto simp: 1(10) note_consent_def intro: approvals_kept_append)
  qed
next
  case (consent_withdrawn i actor dg rv now)
  then show ?thesis
  proof (rule withdraw_approval_Inr, goal_cases)
    case (1 s a)
    then show ?case
      using approvals_kept_revoke [of db "column_text (sl_authorization s)" now]
      by (simp add: approvals_kept_def)
  qed
next
  case (environment_added fresh project e author)
  then show ?thesis by (rule register_Inr) (auto intro: approvals_kept_refl)
next
  case (environment_replaced fresh old e author now)
  then show ?thesis
    by (auto simp: supersede_environment_def bind_result_Inr intro!: approvals_kept_refl elim!: register_Inr split: option.splits)
qed (auto simp: record_source_snapshot_def record_build_artifact_def intro: approvals_kept_refl split: if_splits)

lemma consent_run_kept:
  "(consent_step valid reading)\<^sup>*\<^sup>* db db' \<Longrightarrow> (\<exists>ss. seals db' = seals db @ ss) \<and> approvals_kept db db'"
proof (induction rule: rtranclp_induct)
  case base
  then show ?case by (auto intro: approvals_kept_refl)
next
  case (step db1 db2)
  then show ?case using consent_step_kept [OF step(2)] by (auto intro: approvals_kept_trans)
qed

lemma seals_distinct:
  "(consent_step valid reading)\<^sup>*\<^sup>* db0 db \<Longrightarrow> empty_consents db0 \<Longrightarrow> distinct (map sl_id (seals db))"
proof (induction rule: rtranclp_induct)
  case base
  then show ?case by (simp add: empty_consents_def)
next
  case (step db1 db2)
  then show ?case using consent_step_kept [OF step(2)] by (auto simp: row_None_iff)
qed

section \<open>Withdrawal\<close>

lemma revoked_refused:
  assumes "row sl_id i (seals db) = Some s" and "row ap_id (column_text (sl_authorization s)) (approvals db) = Some a"
  shows "ap_revoked_at a \<noteq> None \<Longrightarrow> \<not> succeeds (assert_authorized valid i run w now db)"
    and "\<not> succeeds (issue_approval valid reading i actor dg rv expires now db)"
proof -
  have auth: "as_text (item m ''authorizationId'') = column_text (sl_authorization s)"
    if "assert_execution_seal_current valid i now db = Inr m" for m
    using that assms(1)
    by (auto simp: assert_execution_seal_current_def bind_result_Inr names_seal_def split: option.splits if_splits)
  show "\<not> succeeds (assert_authorized valid i run w now db)" if "ap_revoked_at a \<noteq> None"
    using assms that
    by (auto simp: succeeds_iff assert_authorized_def find_seal_def bind_result_Inr auth load_for_check_def
        approval_check_def construct_approval_def split: option.splits if_splits)
  show "\<not> succeeds (issue_approval valid reading i actor dg rv expires now db)"
    using assms by (auto simp: succeeds_iff elim!: issue_approval_Inr)
qed

text \<open>
  C11: consent withdrawn is withdrawn for good. Once the approval of a sealed execution has been revoked, no
  later state of any history authorizes that seal again, for whichever run and workspace it is asked, and
  consent for it cannot be issued anew: the reserved identifier is spent.
\<close>

theorem withdrawn_consent_stays_withdrawn:
  assumes "withdraw_approval i actor dg rv now db = Inr db1" and "(consent_step valid reading)\<^sup>*\<^sup>* db1 db2"
  shows "\<not> succeeds (assert_authorized valid i run w later db2) \<and>
    \<not> succeeds (issue_approval valid reading i actor' dg' rv' expires later db2)"
  using assms(1)
proof (rule withdraw_approval_Inr, goal_cases)
  case (1 s a)
  let ?k = "column_text (sl_authorization s)"
  obtain b where b: "row ap_id ?k (approvals db) = Some b"
    using 1(2) by (cases "row ap_id ?k (approvals db)") (auto simp: row_None_iff find_Some_iff issued_for_def column_text_def)
  have "row ap_id ?k (approvals db1) = Some (if ap_revoked_at b = None then b\<lparr>ap_revoked_at := Some now\<rparr> else b)"
    using row_SomeD [OF b] by (simp add: 1(4) revoke_approval_def row_update b)
  then obtain c where "row ap_id ?k (approvals db1) = Some c" "ap_revoked_at c \<noteq> None" by (auto split: if_splits)
  with consent_run_kept [OF assms(2)] obtain d where "row ap_id ?k (approvals db2) = Some d" "ap_revoked_at d \<noteq> None"
    by (fastforce simp: approvals_kept_def)
  moreover from consent_run_kept [OF assms(2)] 1(1,5) have "row sl_id i (seals db2) = Some s" by auto
  ultimately show ?case using revoked_refused by blast
qed

section \<open>Provenance\<close>

definition same_consent :: "approval_row \<Rightarrow> approval_row \<Rightarrow> bool" where
  "same_consent a b \<longleftrightarrow> ap_id b = ap_id a \<and> ap_scope b = ap_scope a \<and> ap_actor b = ap_actor a \<and>
     ap_target b = ap_target a \<and> ap_digest b = ap_digest a"

lemma same_consent_refl [simp]: "same_consent a a"
  by (simp add: same_consent_def)

lemma revoked_rows: "b \<in> set (approvals (fst (revoke_approval i now db))) \<Longrightarrow> \<exists>a \<in> set (approvals db). same_consent a b"
  by (auto simp: revoke_approval_def in_update_where same_consent_def split: if_splits)

lemma new_run_effects:
  assumes "consent_step valid reading db db'" and "b \<in> set (approvals db')" and "ap_scope b = RUN_EFFECTS"
  shows "(\<exists>a \<in> set (approvals db). same_consent a b) \<or>
    (\<exists>rv expires t a. issue_approval valid reading (ap_target b) (ap_actor b) (ap_digest b) rv expires t db = Inr (db', a))"
proof -
  have old: ?thesis if "b \<in> set (approvals db)" using that by (intro disjI1 bexI [of _ b]) simp_all
  have kept: ?thesis if "approvals db' = approvals db" using assms(2) that by (intro disjI1 bexI [of _ b]) simp_all
  from assms(1) show ?thesis
  proof cases
    case (approval_recorded sc i w actor target dg rv expires)
    from approval_recorded(2) show ?thesis
      by (rule record_approval_Inr) (use assms(2,3) approval_recorded(1) old in auto)
  next
    case (approval_withdrawn i now)
    then show ?thesis using revoked_rows [of b i now db] assms(2) by blast
  next
    case (consent_withdrawn i actor dg rv now)
    then show ?thesis
    proof (rule withdraw_approval_Inr, goal_cases)
      case (1 s a)
      then show ?case using revoked_rows [of b "column_text (sl_authorization s)" now db] assms(2) by auto
    qed
  next
    case given: (consent_given i actor dg rv expires now a)
    then show ?thesis
    proof (rule issue_approval_Inr, goal_cases)
      case (1 s m db1)
      from 1(8) show ?case
      proof (rule record_approval_Inr, goal_cases)
        case (1 n)
        have "approvals db' = approvals db @ [n]"
          by (simp add: \<open>db' = note_consent actor s (str ''RUN_EFFECTS_APPROVAL_ISSUED'') db1\<close> note_consent_def 1(1))
        with assms(2) consider "b \<in> set (approvals db)" | "b = n" by auto
        then show ?case
        proof cases
          case 2
          with 1 given show ?thesis by blast
        qed (rule old)
      qed
    qed
  next
    case (environment_added fresh project e author)
    then have "approvals db' = approvals db" by (rule register_Inr) simp
    then show ?thesis by (rule kept)
  next
    case (environment_replaced fresh old e author now)
    then have "approvals db' = approvals db"
      by (auto simp: supersede_environment_def bind_result_Inr elim!: register_Inr split: option.splits)
    then show ?thesis by (rule kept)
  next
    case (run_sealed rs fresh w project snapshot artifact en x run auth execution now s)
    then have "approvals db' = approvals db" by (auto dest!: seal_run_Inr(1))
    then show ?thesis by (rule kept)
  qed (rule kept, simp add: record_source_snapshot_def record_build_artifact_def split: if_splits; fastforce)+
qed

lemma run_effects_issued:
  assumes "(consent_step valid reading)\<^sup>*\<^sup>* db0 db" and "approvals db0 = []" and "b \<in> set (approvals db)" and "ap_scope b = RUN_EFFECTS"
  shows "\<exists>rv expires t db1 db2 a. (consent_step valid reading)\<^sup>*\<^sup>* db0 db1 \<and>
    issue_approval valid reading (ap_target b) (ap_actor b) (ap_digest b) rv expires t db1 = Inr (db2, a) \<and>
    (consent_step valid reading)\<^sup>*\<^sup>* db2 db"
  using assms
proof (induction arbitrary: b rule: rtranclp_induct)
  case (step dbx dby)
  from new_run_effects [OF step(2) step.prems(2,3)] show ?case
  proof
    assume "\<exists>a \<in> set (approvals dbx). same_consent a b"
    then obtain a where a: "a \<in> set (approvals dbx)" "same_consent a b" by blast
    then have "ap_scope a = RUN_EFFECTS" using step.prems(3) by (simp add: same_consent_def)
    from step.IH [OF step.prems(1) a(1) this] a(2) step(2) show ?thesis
      unfolding same_consent_def by (metis rtranclp.rtrancl_into_rtrancl)
  next
    assume "\<exists>rv expires t a. issue_approval valid reading (ap_target b) (ap_actor b) (ap_digest b) rv expires t dbx = Inr (dby, a)"
    with step(1) show ?thesis by blast
  qed
qed simp

lemma assert_authorized_Inr:
  assumes "assert_authorized valid i run w now db = Inr m"
  obtains s a where "row sl_id i (seals db) = Some s" "sl_manifest s = Some m" "digest (PDict m) = Inr (sl_digest s)"
    "item m ''runId'' = PStr run" "item m ''workspaceId'' = PStr w"
    "assert_execution_seal_current valid i now db = Inr m"
    "row ap_id (as_text (item m ''authorizationId'')) (approvals db) = Some a" "ap_revoked_at a = None"
    "is_expired (written now) (written (ap_expires a)) = Inr False" "ap_scope a = RUN_EFFECTS" "ap_target a = i"
    "ap_digest a = sl_digest s" "may_approve w (ap_actor a) db"
proof -
  from assms obtain s where s: "row sl_id i (seals db) = Some s"
    and c: "assert_execution_seal_current valid i now db = Inr m"
    by (auto simp: assert_authorized_def find_seal_def bind_result_Inr split: option.splits if_splits)
  then have m: "sl_manifest s = Some m" "digest (PDict m) = Inr (sl_digest s)"
    by (auto simp: assert_execution_seal_current_def bind_result_Inr split: option.splits if_splits)
  from assms s c obtain a where "row ap_id (as_text (item m ''authorizationId'')) (approvals db) = Some a" "ap_revoked_at a = None"
    "is_expired (written now) (written (ap_expires a)) = Inr False" "ap_scope a = RUN_EFFECTS" "ap_target a = i"
    "ap_digest a = sl_digest s" "may_approve w (ap_actor a) db"
    "item m ''runId'' = PStr run" "item m ''workspaceId'' = PStr w"
    by (auto simp: assert_authorized_def find_seal_def bind_result_Inr load_for_check_def construct_approval_def
        approval_check_def split: option.splits if_splits)
  with s c m show thesis by (intro that)
qed

lemma authorized_provenance:
  assumes "empty_consents db0" and "(consent_step valid reading)\<^sup>*\<^sup>* db0 db"
    and "assert_authorized valid i run w now db = Inr m"
  shows "\<exists>dg actor rv expires t db1 db2 a. digest (PDict m) = Inr dg \<and> item m ''runId'' = PStr run \<and> item m ''workspaceId'' = PStr w \<and>
    (consent_step valid reading)\<^sup>*\<^sup>* db0 db1 \<and> issue_approval valid reading i actor dg rv expires t db1 = Inr (db2, a) \<and>
    (consent_step valid reading)\<^sup>*\<^sup>* db2 db \<and> may_approve w actor db1 \<and>
    (\<exists>b. row ap_id (as_text (item m ''authorizationId'')) (approvals db) = Some b \<and> ap_actor b = actor \<and>
      ap_revoked_at b = None \<and> is_expired (written now) (written (ap_expires b)) = Inr False)"
proof (rule assert_authorized_Inr [OF assms(3)], goal_cases)
  case (1 s b)
  have "approvals db0 = []" using assms(1) by (simp add: empty_consents_def)
  moreover have "b \<in> set (approvals db)" using 1(7) by (auto dest: row_SomeD)
  ultimately obtain rv expires t db1 db2 a where r: "(consent_step valid reading)\<^sup>*\<^sup>* db0 db1"
    "issue_approval valid reading i (ap_actor b) (sl_digest s) rv expires t db1 = Inr (db2, a)"
    "(consent_step valid reading)\<^sup>*\<^sup>* db2 db"
    using run_effects_issued [OF assms(2), of b] 1(10-12) by auto
  have "may_approve w (ap_actor b) db1"
  proof (rule issue_approval_Inr [OF r(2)], goal_cases)
    case (1 s1 m1 dbi)
    from r(2) have "consent_step valid reading db1 db2" by (rule consent_given)
    with r(3) consent_run_kept [of valid reading db1 db] obtain ss where "seals db = seals db1 @ ss"
      by (meson converse_rtranclp_into_rtranclp)
    with 1(1) \<open>row sl_id i (seals db) = Some s\<close> have "s1 = s" by simp
    moreover have "sl_workspace s = w"
      using \<open>item m ''workspaceId'' = PStr w\<close> \<open>row sl_id i (seals db) = Some s\<close>
        \<open>assert_execution_seal_current valid i now db = Inr m\<close>
      by (auto simp: assert_execution_seal_current_def bind_result_Inr names_seal_def split: option.splits if_splits)
    ultimately show ?case using 1(6) by simp
  qed
  with r 1 show ?case by blast
qed


section \<open>How long a seal is current\<close>

lemma is_after_moments:
  assumes "moment_of x = Inr s" and "calendar_moment t"
  shows "is_after x (written t) = Inr (t < s)"
proof -
  from assms(1) obtain i where i: "parse_rfc3339_utc x = Inr i" "of_instant i = s"
    by (auto simp: moment_of_def bind_result_Inr)
  note c = calendar_text [OF assms(2)]
  have "to_instant t < i \<longleftrightarrow> t < s"
    using of_instant_le_iff [OF parse_valid [OF i(1)] c(3)] c(2) i(2) by (simp add: linorder_not_le [symmetric])
  with c i show ?thesis by (simp add: is_after_def)
qed

definition environments_ok :: "environment_row list \<Rightarrow> bool" where
  "environments_ok es \<longleftrightarrow> (\<forall>e \<in> set es. calendar_moment (en_expires e) \<and> (en_revoked e = None \<longleftrightarrow> en_superseded e = None))"

definition within_environment :: "environment_row list \<Rightarrow> pytext \<Rightarrow> timestamptz \<Rightarrow> bool" where
  "within_environment es k t \<longleftrightarrow> (\<exists>e. row en_id k es = Some e \<and> t \<le> en_expires e)"

definition seal_coherent :: "(items \<Rightarrow> bool) \<Rightarrow> environment_row list \<Rightarrow> seal \<Rightarrow> bool" where
  "seal_coherent valid es s \<longleftrightarrow> (\<forall>m. sl_manifest s = Some m \<longrightarrow> valid m \<and> digest (PDict m) = Inr (sl_digest s) \<and> names_seal m s \<and>
     (\<exists>t. moment_of (as_text (item m ''expiresAt'')) = Inr t \<and> within_environment es (sl_environment s) t))"

definition consents_ok :: "(items \<Rightarrow> bool) \<Rightarrow> consent_db \<Rightarrow> bool" where
  "consents_ok valid db \<longleftrightarrow> environments_ok (environments db) \<and> (\<forall>s \<in> set (seals db). seal_coherent valid (environments db) s)"

lemma within_append: "within_environment es k t \<Longrightarrow> within_environment (es @ fs) k t"
  by (auto simp: within_environment_def)

lemma seal_coherent_append: "seal_coherent valid es s \<Longrightarrow> seal_coherent valid (es @ fs) s"
  unfolding seal_coherent_def using within_append by blast

lemma scope_items:
  "item (sealed_inputs w project sn ba en x @ execution_scope r a e) ''workspaceId'' = PStr w"
  "item (sealed_inputs w project sn ba en x @ execution_scope r a e) ''projectId'' = PStr project"
  "item (sealed_inputs w project sn ba en x @ execution_scope r a e) ''runId'' = PStr r"
  "item (sealed_inputs w project sn ba en x @ execution_scope r a e) ''authorizationId'' = PStr a"
  "item (sealed_inputs w project sn ba en x @ execution_scope r a e) ''environmentConfigDigest'' = PStr (en_digest en)"
  "item (sealed_inputs w project sn ba en x @ execution_scope r a e) ''expiresAt'' = PStr (ei_expires e)"
  by (simp_all add: item_def get_item_def sealed_inputs_def execution_scope_def str_def)

lemma check_execution_Inr:
  assumes "check_execution valid rs project sn ba en snapshot base run auth x e now db = Inr m"
  obtains r a where "run = Some r" "auth = Some a" "m = base @ execution_scope r a e" "valid m"
    "is_expired (written now) (ei_expires e) = Inr False" "is_after (ei_expires e) (written (en_expires en)) = Inr False"
  using assms that by (auto simp: check_execution_def Let_def bind_result_Inr expiry_Inr split: option.splits if_splits)

lemma seal_run_coherent:
  assumes "seal_run valid rs fresh w project snapshot artifact k x run auth execution now db = Inr (db', s)"
    and "environments_ok (environments db)"
  shows "seal_coherent valid (environments db) s"
  unfolding seal_coherent_def
proof (intro allI impI, goal_cases)
  case (1 m)
  from assms(1) 1 obtain en sn ba e where en: "row en_id k (environments db) = Some en"
    and c: "check_execution valid rs project sn ba en snapshot (sealed_inputs w project sn ba en x) run auth x e now db = Inr m"
    and s: "digest (PDict m) = Inr (sl_digest s)" "sl_workspace s = w" "sl_project s = project" "sl_run s = run"
      "sl_authorization s = auth" "sl_environment s = k" "sl_environment_digest s = en_digest en"
    by (auto simp: seal_run_def bind_result_Inr Let_def split: option.splits if_splits)
  from c show ?case
  proof (rule check_execution_Inr, goal_cases)
    case (1 r a)
    from 1(5) obtain t where t: "moment_of (ei_expires e) = Inr t"
      by (auto simp: is_expired_Inr moment_of_def)
    have "calendar_moment (en_expires en)" using assms(2) en by (auto simp: environments_ok_def dest: row_SomeD)
    from is_after_moments [OF t this] 1(6) have "t \<le> en_expires en" by simp
    with en t s 1 show ?case by (simp add: names_seal_def scope_items column_text_def within_environment_def)
  qed
qed

lemma read_moment_calendar: "read_moment x = Some t \<Longrightarrow> calendar_moment t"
  by (rule moments.reads_calendar)

lemma register_ok:
  assumes "register_environment read_moment fresh project e author db = Inr db'" and "consents_ok valid db"
  shows "consents_ok valid db'"
  using assms(1)
  by (rule register_Inr)
    (use assms(2) read_moment_calendar seal_coherent_append in \<open>auto simp: consents_ok_def environments_ok_def\<close>)

lemma superseded_ok:
  assumes "consents_ok valid db"
  shows "consents_ok valid (db\<lparr>environments := update_where (\<lambda>q. en_id q = k)
    (\<lambda>q. q\<lparr>en_superseded := Some fresh, en_revoked := Some now\<rparr>) (environments db)\<rparr>)"
proof -
  let ?es = "update_where (\<lambda>q. en_id q = k) (\<lambda>q. q\<lparr>en_superseded := Some fresh, en_revoked := Some now\<rparr>) (environments db)"
  have "within_environment ?es j t" if "within_environment (environments db) j t" for j t
  proof -
    from that obtain e where "row en_id j (environments db) = Some e" "t \<le> en_expires e" by (auto simp: within_environment_def)
    then show ?thesis
      unfolding within_environment_def
      by (intro exI [of _ "if en_id e = k then e\<lparr>en_superseded := Some fresh, en_revoked := Some now\<rparr> else e"])
        (simp add: row_update)
  qed
  then have "seal_coherent valid ?es s" if "seal_coherent valid (environments db) s" for s
    using that unfolding seal_coherent_def by blast
  moreover have "environments_ok ?es"
    using assms by (auto simp: consents_ok_def environments_ok_def in_update_where)
  ultimately show ?thesis using assms by (simp add: consents_ok_def)
qed

lemma consents_ok_frame:
  "consents_ok valid db \<Longrightarrow> environments db' = environments db \<Longrightarrow> seals db' = seals db \<Longrightarrow> consents_ok valid db'"
  by (simp add: consents_ok_def)

lemma consents_ok_step:
  assumes "consent_step valid read_moment db db'" and ok: "consents_ok valid db"
  shows "consents_ok valid db'"
  using assms(1)
proof cases
  case (environment_added fresh project e author)
  then show ?thesis using register_ok ok by blast
next
  case (environment_replaced fresh old e author now)
  then show ?thesis
    by (auto simp: supersede_environment_def bind_result_Inr intro!: superseded_ok intro: register_ok [OF _ ok] split: option.splits)
next
  case (run_sealed rs fresh w project snapshot artifact en x run auth execution now s)
  with seal_run_Inr(1) [OF run_sealed] seal_run_coherent [OF run_sealed] ok show ?thesis
    by (auto simp: consents_ok_def)
next
  case (approval_recorded sc i w actor target dg rv expires)
  from approval_recorded(2) show ?thesis by (rule record_approval_Inr) (use ok in \<open>auto intro: consents_ok_frame\<close>)
next
  case (consent_given i actor dg rv expires now a)
  then show ?thesis
  proof (rule issue_approval_Inr, goal_cases)
    case (1 s m db1)
    from 1(8) show ?case by (rule record_approval_Inr) (use ok in \<open>auto simp: 1(10) note_consent_def intro: consents_ok_frame\<close>)
  qed
next
  case (consent_withdrawn i actor dg rv now)
  then show ?thesis
  proof (rule withdraw_approval_Inr, goal_cases)
    case (1 s a)
    then show ?case using ok consents_ok_frame by blast
  qed
qed (use ok in \<open>auto simp: record_source_snapshot_def record_build_artifact_def revoke_approval_def
    intro: consents_ok_frame split: if_splits\<close>)

lemma consents_ok_run:
  "(consent_step valid read_moment)\<^sup>*\<^sup>* db0 db \<Longrightarrow> empty_consents db0 \<Longrightarrow> consents_ok valid db"
proof (induction rule: rtranclp_induct)
  case base
  then show ?case by (simp add: empty_consents_def consents_ok_def environments_ok_def)
next
  case (step db1 db2)
  then show ?case by (blast intro: consents_ok_step)
qed

text \<open>
  C15: exactly how long a canonical seal is current. In every reachable state the check of a sealed execution
  comes down to two comparisons: it answers with the sealed manifest until the manifest's own expiry, unless
  the environment has been superseded by then. The other refusals of the check never occur for such a seal:
  an environment is superseded whenever it is revoked, and never expires before a manifest sealed for it.
\<close>

theorem seal_current_until:
  assumes "empty_consents db0" and "(consent_step valid read_moment)\<^sup>*\<^sup>* db0 db"
    and "row sl_id i (seals db) = Some s" and "sl_manifest s = Some m" and "calendar_moment now"
  shows "\<exists>t e. moment_of (as_text (item m ''expiresAt'')) = Inr t \<and> row en_id (sl_environment s) (environments db) = Some e \<and>
    assert_execution_seal_current valid i now db =
      (if t \<le> now then Inl SealExpired else if en_superseded e \<noteq> None then Inl EnvironmentSuperseded else Inr m)"
proof -
  have ok: "consents_ok valid db" using consents_ok_run assms(1,2) by blast
  then have c: "seal_coherent valid (environments db) s" using assms(3) by (auto simp: consents_ok_def dest: row_SomeD)
  then obtain t e where t: "moment_of (as_text (item m ''expiresAt'')) = Inr t"
    and e: "row en_id (sl_environment s) (environments db) = Some e" "t \<le> en_expires e"
    using assms(4) by (auto simp: seal_coherent_def within_environment_def)
  have v: "valid m" "digest (PDict m) = Inr (sl_digest s)" "names_seal m s"
    using c assms(4) by (simp_all add: seal_coherent_def)
  have "calendar_moment (en_expires e)" "en_revoked e = None \<longleftrightarrow> en_superseded e = None"
    using ok e by (auto simp: consents_ok_def environments_ok_def dest: row_SomeD)
  then have "assert_environment_usable (sl_environment s) now db =
      (if en_superseded e \<noteq> None then Inl EnvironmentSuperseded
       else if en_expires e \<le> now then Inl EnvironmentExpired else Inr ())"
    using e expiry_cases [OF assms(5) moment_written] by (simp add: assert_environment_usable_def)
  with assms(3,4) v t e expiry_cases [OF assms(5) t]
  have "assert_execution_seal_current valid i now db =
      (if t \<le> now then Inl SealExpired else if en_superseded e \<noteq> None then Inl EnvironmentSuperseded else Inr m)"
    by (simp add: assert_execution_seal_current_def)
  with t e show ?thesis by blast
qed

section \<open>Removal of the approver\<close>

lemma people_frame:
  "find_seal i (db\<lparr>people := p\<rparr>) = find_seal i db"
  "load_for_check k (db\<lparr>people := p\<rparr>) = load_for_check k db"
  "assert_environment_usable e now (db\<lparr>people := p\<rparr>) = assert_environment_usable e now db"
  by (simp_all add: find_seal_def load_for_check_def assert_environment_usable_def)

lemma people_frame_seal:
  "assert_execution_seal_current valid i now (db\<lparr>people := p\<rparr>) = assert_execution_seal_current valid i now db"
  unfolding assert_execution_seal_current_def people_frame by simp

text \<open>
  C39: removing the approver does not stop the execution. The check asks whether the actor still holds
  RUN_APPROVE in the workspace, but reading the membership row without its revocation: whatever is authorized
  stays authorized after an owner has removed its approver, who is then no member at all.
\<close>

theorem removed_member_still_authorizes:
  assumes "assert_authorized valid i run w now db = Inr m"
    and "row ap_id (as_text (item m ''authorizationId'')) (approvals db) = Some a"
    and "change_membership w' owner (ap_actor a) None expected reason t (people db) = Inr (p, rv)"
  shows "standing (ap_actor a) p = None \<and> consent_step valid reading db (db\<lparr>people := p\<rparr>) \<and>
    assert_authorized valid i run w now (db\<lparr>people := p\<rparr>) = Inr m"
proof -
  note c = change_membership_Inr [OF assms(3)]
  have rows: "decided_rows (ap_actor a) None (people db) p" using c(1) by simp
  from rows obtain mb n t' where "membership_of (ap_actor a) (people db) = Some mb"
    "members p = update_where (\<lambda>m. m_user m = ap_actor a) (set_membership None n t') (members (people db))"
    by (auto simp: decided_rows_def)
  then have "membership_of (ap_actor a) (people db) = Some mb"
    "membership_of (ap_actor a) p = Some (set_membership None n t' mb)"
    by (simp_all add: membership_of_update)
  then have may: "may_approve w (ap_actor a) (db\<lparr>people := p\<rparr>) = may_approve w (ap_actor a) db"
    using rows by (simp add: may_approve_def decided_rows_def set_membership_def)
  from assms(1) obtain s b where parts: "find_seal i db = Inr s" "assert_execution_seal_current valid i now db = Inr m"
    "item m ''runId'' = PStr run" "item m ''workspaceId'' = PStr w"
    "load_for_check (as_text (item m ''authorizationId'')) db = Inr b"
    "approval_check b (written now) RUN_EFFECTS w i (sl_digest s) (sl_revision s) = Inr ()" "may_approve w (actor_id b) db"
    by (auto simp: assert_authorized_def bind_result_Inr split: if_splits)
  have "actor_id b = ap_actor a"
    using parts(5) assms(2) by (auto simp: load_for_check_def construct_approval_def split: if_splits)
  with may parts(7) have "may_approve w (actor_id b) (db\<lparr>people := p\<rparr>)" by simp
  with parts have "assert_authorized valid i run w now (db\<lparr>people := p\<rparr>) = Inr m"
    by (simp add: assert_authorized_def people_frame people_frame_seal)
  moreover have "consent_step valid reading db (db\<lparr>people := p\<rparr>)"
    by (rule people_change) (rule decided [OF assms(3)])
  moreover have "standing (ap_actor a) p = None" using membership_of_decided(2) [OF rows] .
  ultimately show ?thesis by blast
qed

section \<open>A sample execution\<close>

text \<open>A second of the year 1, and what the comparisons say of its written moments.\<close>

lemma calendar_micros: "t < 1000000 \<Longrightarrow> calendar_moment (int t)"
proof -
  assume t: "t < 1000000"
  let ?i = "Instant 1 1 1 0 0 0 t"
  have "valid_instant ?i \<and> of_instant ?i = int t"
    using t by (simp add: valid_instant_def days_in_month_def of_instant_def day_number_def days_before_year_def days_before_month_def)
  then show ?thesis unfolding calendar_moment_def by blast
qed

lemma late_4 [simp]: "is_after (written 4) (written 4) = Inr False" "expiry (written 3) (written 4) e = Inr ()"
  "is_expired (written 3) (written 4) = Inr False" "readable (written 4)"
  using is_after_moments [of "written 4" 4 4] expiry_cases [of 3 "written 4" 4 e] calendar_micros [of 3] calendar_micros [of 4]
    calendar_text [of 4] moment_written [of 4]
  by (simp_all add: expired_moment readable_def)

definition digest_of :: "pyval \<Rightarrow> pytext" where
  "digest_of v = (case digest v of Inl _ \<Rightarrow> [] | Inr d \<Rightarrow> d)"

lemma digest_of: "portable v \<Longrightarrow> digest v = Inr (digest_of v)" "portable v \<Longrightarrow> is_sha256_hex (digest_of v)"
proof -
  assume "portable v"
  then have "succeeds (digest v)" by (simp add: digest_portable)
  then show d: "digest v = Inr (digest_of v)" by (auto simp: succeeds_iff digest_of_def)
  then obtain m where "hex (sha256 m) = digest_of v" by (auto simp: digest_message bind_result_Inr)
  then show "is_sha256_hex (digest_of v)" using is_sha256_hex_sha256 [of m] by simp
qed

definition zeros :: pytext where
  "zeros = replicate 64 48"

lemma zeros_hex [simp]: "is_sha256_hex zeros" "list_all scalar zeros"
  by (simp_all add: zeros_def is_sha256_hex_def is_lower_hex_def scalar_def list_all_iff high_surrogate_def low_surrogate_def)

definition sample_spec :: environment_spec where
  "sample_spec = \<lparr>es_name = str ''e'', es_origins = {}, es_reset_strategy = str ''r'', es_observer_ref = str ''a'',
     es_reset_ref = str ''b'', es_effects = {}, es_expires = written 4\<rparr>\<lparr>es_origins := {str ''o''}\<rparr>"

definition sample_environment :: environment_row where
  "sample_environment = \<lparr>en_id = str ''en'', en_project = str ''p'', en_spec = sample_spec, en_authorized_by = sample_id 97,
     en_digest = digest_of (PDict
       [(key ''name'', PStr (es_name sample_spec)), (key ''allowedOrigins'', text_set (es_origins sample_spec)),
        (key ''fixtureResetStrategy'', PStr (es_reset_strategy sample_spec)),
        (key ''observerCredentialRef'', PStr (es_observer_ref sample_spec)),
        (key ''resetCredentialRef'', PStr (es_reset_ref sample_spec)),
        (key ''permittedEffects'', text_set (es_effects sample_spec))]),
     en_expires = 4, en_revoked = None, en_superseded = None\<rparr>"

definition sample_snapshot :: snapshot_row where
  "sample_snapshot = \<lparr>sn_id = str ''sn'', sn_project = str ''p'', sn_commit = replicate 40 48, sn_tree = zeros,
     sn_dirty = False, sn_dirty_paths = 0, sn_requested = str ''main''\<rparr>"

definition sample_artifact :: artifact_row where
  "sample_artifact = \<lparr>ba_id = str ''ba'', ba_project = str ''p'', ba_snapshot = str ''sn'', ba_digest = zeros, ba_observable = True\<rparr>"

lemma profile_portable: "portable (profile_document sample_profile)"
  by (simp add: profile_document_def sample_profile_def scalar_def high_surrogate_def low_surrogate_def)

lemma profile_hex [simp]: "is_sha256_hex (digest_of (profile_document sample_profile))"
  "list_all scalar (digest_of (profile_document sample_profile))"
  using digest_of [OF profile_portable] by (simp_all add: digest_scalar)

definition sample_inputs :: seal_inputs where
  "sample_inputs = \<lparr>si_journey = zeros, si_assertions = zeros, si_fixture = zeros,
     si_runner_profile = digest_of (profile_document sample_profile), si_navigator_policy = zeros, si_evaluator_version = str ''1'', si_model_config = zeros\<rparr>"

definition sample_journey :: journey_row where
  "sample_journey = \<lparr>jv_id = str ''j'', jv_project = str ''p'', jv_journey = zeros, jv_assertions = zeros, jv_fixture = zeros,
     jv_navigator_policy = zeros, jv_policy = PDict []\<rparr>"

definition sample_execution :: execution_inputs where
  "sample_execution = \<lparr>ei_journey_version = str ''j'', ei_expires = written 4, ei_action_budget = 1, ei_wall_time = 1, ei_effects = {}\<rparr>"

definition sample_manifest :: items where
  "sample_manifest = sealed_inputs (sample_id 100) (str ''p'') sample_snapshot sample_artifact sample_environment sample_inputs @
     execution_scope (str ''run'') (sample_id 99) sample_execution"

definition sample_seal :: seal where
  "sample_seal = \<lparr>sl_id = str ''s'', sl_workspace = sample_id 100, sl_project = str ''p'', sl_run = Some (str ''run''),
     sl_snapshot = str ''sn'', sl_artifact = str ''ba'', sl_environment = str ''en'',
     sl_environment_digest = en_digest sample_environment, sl_inputs = sample_inputs,
     sl_digest = digest_of (PDict sample_manifest), sl_authorization = Some (sample_id 99), sl_revision = 0,
     sl_manifest = Some sample_manifest, sl_sealed = 3\<rparr>"

definition sample_approval_row :: approval_row where
  "sample_approval_row = \<lparr>ap_id = sample_id 99, ap_scope = RUN_EFFECTS, ap_actor = sample_id 97, ap_workspace = sample_id 100,
     ap_target = str ''s'', ap_digest = sl_digest sample_seal, ap_revision = 0, ap_expires = 4, ap_revoked_at = None\<rparr>"

text \<open>The states of the sample: what exists before the seal, the seal, and the consent to it.\<close>

definition no_consents :: "workspace_db \<Rightarrow> consent_db" where
  "no_consents p = \<lparr>people = p, environments = [], snapshots = [], artifacts = [], journeys = [], seals = [],
     approvals = [], consent_events = []\<rparr>"

definition ready_consents :: "workspace_db \<Rightarrow> consent_db" where
  "ready_consents p = (no_consents p)\<lparr>environments := [sample_environment], snapshots := [sample_snapshot],
     artifacts := [sample_artifact], journeys := [sample_journey]\<rparr>"

definition sealed_consents :: "workspace_db \<Rightarrow> consent_db" where
  "sealed_consents p = (ready_consents p)\<lparr>seals := [sample_seal]\<rparr>"

definition given_consents :: "workspace_db \<Rightarrow> consent_db" where
  "given_consents p = note_consent (sample_id 97) sample_seal (str ''RUN_EFFECTS_APPROVAL_ISSUED'')
     ((sealed_consents p)\<lparr>approvals := [sample_approval_row]\<rparr>)"

abbreviation "any_manifest \<equiv> (\<lambda>_ :: items. True)"

lemma read_4 [simp]: "read_moment (written 4) = Some 4"
  using moments.reads_back calendar_micros [of 4] by simp

lemmas sample_consent_defs = no_consents_def ready_consents_def sealed_consents_def given_consents_def
lemmas sample_row_defs = sample_environment_def sample_snapshot_def sample_artifact_def sample_inputs_def sample_journey_def
  sample_execution_def sample_seal_def sample_approval_row_def sample_spec_def

lemma sample_id_scalar [simp]: "c < 0xD800 \<Longrightarrow> list_all scalar (sample_id c)"
  by (simp add: sample_id_def list_all_iff scalar_def high_surrogate_def low_surrogate_def)

lemma pad_scalar: "c \<in> set (pad k n) \<Longrightarrow> scalar c"
  by (induction k n rule: pad.induct) (auto simp: scalar_def high_surrogate_def low_surrogate_def)

lemma written_scalar [simp]: "list_all scalar (written t)"
  by (auto simp: written_def isoformat_utc_def list_all_iff scalar_def high_surrogate_def low_surrogate_def
      dest!: pad_scalar)

lemma environment_portable: "portable (PDict
       [(key ''name'', PStr (es_name sample_spec)), (key ''allowedOrigins'', text_set (es_origins sample_spec)),
        (key ''fixtureResetStrategy'', PStr (es_reset_strategy sample_spec)),
        (key ''observerCredentialRef'', PStr (es_observer_ref sample_spec)),
        (key ''resetCredentialRef'', PStr (es_reset_ref sample_spec)),
        (key ''permittedEffects'', text_set (es_effects sample_spec))])"
  by (simp add: sample_spec_def text_set_def list_all_iff)

lemma sample_registered: "register_environment read_moment (str ''en'') (str ''p'') sample_spec (sample_id 97) (no_consents p) =
    Inr ((no_consents p)\<lparr>environments := [sample_environment]\<rparr>)"
proof -
  have "config_digest sample_spec = Inr (en_digest sample_environment)"
    using digest_of(1) [OF environment_portable] by (simp add: config_digest_def sample_environment_def)
  moreover have "es_observer_ref sample_spec \<noteq> es_reset_ref sample_spec" "es_origins sample_spec \<noteq> {}" "es_expires sample_spec = written 4"
    by (simp_all add: sample_spec_def str_def)
  ultimately show ?thesis
    by (simp add: register_environment_def no_consents_def) (simp add: sample_environment_def)
qed

lemma environment_digest: "is_sha256_hex (en_digest sample_environment)" "list_all scalar (en_digest sample_environment)"
  using digest_of [OF environment_portable] by (simp_all add: sample_environment_def digest_scalar)

lemma sample_manifest_portable: "portable (PDict sample_manifest)"
proof -
  have n: "list_all scalar (replicate 40 (48 :: code_point))"
    by (simp add: list_all_iff scalar_def high_surrogate_def low_surrogate_def)
  have z: "list_all scalar zeros" "list_all scalar (sample_id 99)" "list_all scalar (sample_id 100)"
    by (simp_all add: scalar_def high_surrogate_def low_surrogate_def)
  show ?thesis
    unfolding sample_manifest_def sealed_inputs_def execution_scope_def
    using n z environment_digest(2)
    by (simp add: sample_snapshot_def sample_artifact_def sample_inputs_def sample_execution_def text_set_def
      MIN_SAFE_INTEGER_def MAX_SAFE_INTEGER_def)
qed

lemma sample_items:
  "item sample_manifest ''workspaceId'' = PStr (sample_id 100)" "item sample_manifest ''projectId'' = PStr (str ''p'')"
  "item sample_manifest ''runId'' = PStr (str ''run'')" "item sample_manifest ''authorizationId'' = PStr (sample_id 99)"
  "item sample_manifest ''environmentConfigDigest'' = PStr (en_digest sample_environment)"
  "item sample_manifest ''expiresAt'' = PStr (written 4)"
  by (simp_all add: item_def get_item_def sample_manifest_def sealed_inputs_def execution_scope_def str_def sample_execution_def)

lemma sample_sealed: "seal_run any_manifest no_runs (str ''s'') (sample_id 100) (str ''p'') (str ''sn'') (str ''ba'') (str ''en'') sample_inputs
    (Some (str ''run'')) (Some (sample_id 99)) (Some sample_execution) 3 (ready_consents owned_workspace) =
    Inr (sealed_consents owned_workspace, sample_seal)"
proof -
  have usable: "assert_environment_usable (str ''en'') 3 (ready_consents owned_workspace) = Inr ()"
    by (simp add: assert_environment_usable_def sample_consent_defs sample_environment_def)
  have rows: "row en_id (str ''en'') (environments (ready_consents owned_workspace)) = Some sample_environment"
    "row sn_id (str ''sn'') (snapshots (ready_consents owned_workspace)) = Some sample_snapshot"
    "row ba_id (str ''ba'') (artifacts (ready_consents owned_workspace)) = Some sample_artifact"
    "row jv_id (str ''j'') (journeys (ready_consents owned_workspace)) = Some sample_journey"
    by (simp_all add: sample_consent_defs sample_environment_def sample_snapshot_def sample_artifact_def sample_journey_def)
  have check: "check_execution any_manifest no_runs (str ''p'') sample_snapshot sample_artifact sample_environment (str ''sn'')
      (sealed_inputs (sample_id 100) (str ''p'') sample_snapshot sample_artifact sample_environment sample_inputs)
      (Some (str ''run'')) (Some (sample_id 99)) sample_inputs sample_execution 3 (ready_consents owned_workspace) = Inr sample_manifest"
    by (simp add: check_execution_def sample_manifest_def rows sample_execution_def no_runs_def
        sample_journey_def sample_inputs_def sample_snapshot_def sample_artifact_def)
      (simp add: sample_environment_def sample_spec_def)
  note dg = digest_of [OF sample_manifest_portable]
  show ?thesis
    by (simp add: seal_run_def usable rows check dg Let_def seal_refused_def environment_digest)
      (simp add: sample_consent_defs sample_seal_def dg environment_digest sample_inputs_def owned_workspace_def)
qed

lemma sample_current: "seals db = [sample_seal] \<Longrightarrow> environments db = [sample_environment] \<Longrightarrow>
    assert_execution_seal_current any_manifest (str ''s'') 3 db = Inr sample_manifest"
  using digest_of [OF sample_manifest_portable]
  by (simp add: assert_execution_seal_current_def sample_seal_def names_seal_def sample_items column_text_def
      assert_environment_usable_def) (simp add: sample_environment_def)

lemma sample_may_approve: "people db = owned_workspace \<Longrightarrow> may_approve (sample_id 100) (sample_id 97) db"
  by (simp add: may_approve_def owned_workspace_def membership_of_def permissions_for_def all_permissions_def)

lemma sample_given: "issue_approval any_manifest read_moment (str ''s'') (sample_id 97) (sl_digest sample_seal) 0 (written 4) 3
    (sealed_consents owned_workspace) = Inr (given_consents owned_workspace, sample_approval_row)"
proof -
  let ?db = "sealed_consents owned_workspace"
  have seal: "row sl_id (str ''s'') (seals ?db) = Some sample_seal" "sl_manifest sample_seal = Some sample_manifest"
    "sl_revision sample_seal = 0" "sl_workspace sample_seal = sample_id 100" "sl_authorization sample_seal = Some (sample_id 99)"
    by (simp_all add: sample_consent_defs sample_seal_def)
  have current: "assert_execution_seal_current any_manifest (str ''s'') 3 ?db = Inr sample_manifest"
    by (rule sample_current) (simp_all add: sample_consent_defs)
  have may: "may_approve (sample_id 100) (sample_id 97) ?db"
    by (rule sample_may_approve) (simp add: sample_consent_defs)
  have hex: "is_sha256_hex (sl_digest sample_seal)"
    using digest_of(2) [OF sample_manifest_portable] by (simp add: sample_seal_def)
  have recorded: "record_approval read_moment (sample_id 99) (sample_id 100) RUN_EFFECTS (sample_id 97) (str ''s'')
      (sl_digest sample_seal) 0 (written 4) ?db = Inr (?db\<lparr>approvals := [sample_approval_row]\<rparr>)"
    using hex by (simp add: record_approval_def Let_def sample_consent_defs owned_workspace_def matches_seal_def
        sample_approval_row_def) (simp add: sample_seal_def sample_items)
  have "inspect_approval sample_seal (?db\<lparr>approvals := [sample_approval_row]\<rparr>) = Inr sample_approval_row"
    by (simp add: inspect_approval_def issued_for_def sample_approval_row_def seal) (simp add: sample_seal_def)
  moreover have "approvals ?db = []" by (simp add: sample_consent_defs)
  ultimately show ?thesis
    by (simp add: issue_approval_def find_seal_def exact_target_def seal current may sample_items column_text_def recorded)
      (simp add: given_consents_def)
qed

lemma sample_authorized:
  assumes "seals db = [sample_seal]" and "environments db = [sample_environment]" and "approvals db = [sample_approval_row]"
    and "may_approve (sample_id 100) (sample_id 97) db"
  shows "assert_authorized any_manifest (str ''s'') (str ''run'') (sample_id 100) 3 db = Inr sample_manifest"
  using assms sample_current [OF assms(1,2)]
  by (simp add: assert_authorized_def find_seal_def sample_items load_for_check_def construct_approval_def approval_check_def
     sample_approval_row_def) (simp add: sample_seal_def)

text \<open>The history: environment, source, build, journey, seal, consent.\<close>

lemma sample_empty: "empty_consents (no_consents owned_workspace)"
  by (simp add: empty_consents_def no_consents_def founded_def owned_workspace_def)

lemma sample_history: "(consent_step any_manifest read_moment)\<^sup>*\<^sup>* (no_consents owned_workspace) (sealed_consents owned_workspace)"
  "(consent_step any_manifest read_moment)\<^sup>*\<^sup>* (no_consents owned_workspace) (given_consents owned_workspace)"
proof -
  let ?step = "consent_step any_manifest read_moment"
  define a where "a = (no_consents owned_workspace)\<lparr>environments := [sample_environment]\<rparr>"
  define b where "b = a\<lparr>snapshots := [sample_snapshot]\<rparr>"
  define c where "c = b\<lparr>artifacts := [sample_artifact]\<rparr>"
  define d where "d = c\<lparr>journeys := [sample_journey]\<rparr>"
  have 1: "?step (no_consents owned_workspace) a"
    unfolding a_def by (rule environment_added [OF sample_registered])
  have 2: "record_source_snapshot (str ''sn'') (str ''p'') (replicate 40 48) zeros False 0 (str ''main'') a = Inr b"
    by (simp add: record_source_snapshot_def a_def b_def no_consents_def is_lower_hex_def list_all_iff) (simp add: sample_snapshot_def)
  have 3: "record_build_artifact (str ''ba'') (str ''p'') (str ''sn'') zeros True b = Inr c"
    by (simp add: record_build_artifact_def a_def b_def c_def no_consents_def) (simp add: sample_snapshot_def sample_artifact_def)
  have "?step c (c\<lparr>journeys := journeys c @ [sample_journey]\<rparr>)"
    by (rule journey_published) (simp add: c_def b_def a_def no_consents_def)
  then have 4: "?step c d" by (simp add: c_def b_def a_def d_def no_consents_def)
  have "d = ready_consents owned_workspace" by (simp add: ready_consents_def a_def b_def c_def d_def no_consents_def)
  with sample_sealed have 5: "?step d (sealed_consents owned_workspace)" by (auto intro: run_sealed)
  show s: "?step\<^sup>*\<^sup>* (no_consents owned_workspace) (sealed_consents owned_workspace)"
    by (rule converse_rtranclp_into_rtranclp [OF 1 converse_rtranclp_into_rtranclp [OF source_recorded [OF 2]
          converse_rtranclp_into_rtranclp [OF build_recorded [OF 3] converse_rtranclp_into_rtranclp [OF 4 r_into_rtranclp [of ?step, OF 5]]]]])
  have "?step (sealed_consents owned_workspace) (given_consents owned_workspace)" by (rule consent_given [OF sample_given])
  with s show "?step\<^sup>*\<^sup>* (no_consents owned_workspace) (given_consents owned_workspace)" by (rule rtranclp.rtrancl_into_rtrancl)
qed

lemma given_authorized: "assert_authorized any_manifest (str ''s'') (str ''run'') (sample_id 100) 3 (given_consents owned_workspace) =
    Inr sample_manifest"
proof (rule sample_authorized)
  show "may_approve (sample_id 100) (sample_id 97) (given_consents owned_workspace)"
    by (rule sample_may_approve) (simp add: sample_consent_defs note_consent_def)
qed (simp_all add: sample_consent_defs note_consent_def)

theorem seal_current_until_witness:
  "assert_execution_seal_current any_manifest (str ''s'') 3 (sealed_consents owned_workspace) = Inr sample_manifest"
proof -
  have r: "row sl_id (str ''s'') (seals (sealed_consents owned_workspace)) = Some sample_seal" "sl_manifest sample_seal = Some sample_manifest"
    "sl_environment sample_seal = str ''en''" "environments (sealed_consents owned_workspace) = [sample_environment]"
    by (simp_all add: sample_consent_defs sample_seal_def)
  have "calendar_moment 3" using calendar_micros [of 3] by simp
  from seal_current_until [OF sample_empty sample_history(1) r(1,2) this] obtain t e where
    t: "moment_of (written 4) = Inr t" and e: "row en_id (str ''en'') [sample_environment] = Some e"
    and c: "assert_execution_seal_current any_manifest (str ''s'') 3 (sealed_consents owned_workspace) =
      (if t \<le> 3 then Inl SealExpired else if en_superseded e \<noteq> None then Inl EnvironmentSuperseded else Inr sample_manifest)"
    by (auto simp: sample_items r)
  have "t = 4" using t moment_written [of 4] calendar_micros [of 4] by simp
  moreover have "en_superseded e = None" using e by (auto simp: row_def sample_environment_def split: if_splits)
  ultimately show ?thesis using c by simp
qed


lemma sample_withdrawn: "succeeds (withdraw_approval (str ''s'') (sample_id 97) (sl_digest sample_seal) 0 3 (given_consents owned_workspace))"
proof -
  have "may_approve (sample_id 100) (sample_id 97) (given_consents owned_workspace)"
    by (rule sample_may_approve) (simp add: sample_consent_defs note_consent_def)
  moreover have "inspect_approval sample_seal (given_consents owned_workspace) = Inr sample_approval_row"
    by (simp add: inspect_approval_def sample_consent_defs note_consent_def issued_for_def sample_approval_row_def)
      (simp add: sample_seal_def)
  moreover have "row sl_id (str ''s'') (seals (given_consents owned_workspace)) = Some sample_seal" "sl_manifest sample_seal \<noteq> None"
    "sl_revision sample_seal = 0" "sl_workspace sample_seal = sample_id 100"
    by (simp_all add: sample_consent_defs note_consent_def sample_seal_def)
  ultimately show ?thesis by (simp add: withdraw_approval_def find_seal_def exact_target_def split: prod.splits)
qed

theorem withdrawn_consent_stays_withdrawn_witness:
  "\<exists>db1. withdraw_approval (str ''s'') (sample_id 97) (sl_digest sample_seal) 0 3 (given_consents owned_workspace) = Inr db1 \<and>
     \<not> succeeds (assert_authorized any_manifest (str ''s'') (str ''run'') (sample_id 100) 3 db1)"
proof -
  from sample_withdrawn obtain db1 where
    w: "withdraw_approval (str ''s'') (sample_id 97) (sl_digest sample_seal) 0 3 (given_consents owned_workspace) = Inr db1"
    by (auto simp: succeeds_iff)
  with withdrawn_consent_stays_withdrawn [OF w rtranclp.rtrancl_refl] show ?thesis by blast
qed

definition two_owners :: workspace_db where
  "two_owners = owned_workspace\<lparr>accounts := accounts owned_workspace @ [\<lparr>ac_id = sample_id 98, ac_disabled = None\<rparr>],
     members := members owned_workspace @ [\<lparr>m_user = sample_id 98, m_role = OWNER, m_revoked = None, m_revision = 1\<rparr>]\<rparr>"

theorem removed_member_still_authorizes_witness:
  "\<exists>p. standing (sample_id 97) p = None \<and> assert_authorized any_manifest (str ''s'') (str ''run'') (sample_id 100) 3
     ((given_consents two_owners)\<lparr>people := p\<rparr>) = Inr sample_manifest"
proof -
  have "succeeds (change_membership (sample_id 100) (sample_id 98) (sample_id 97) None 1 [120] 5 two_owners)"
    by (simp add: change_membership_def two_owners_def sample_workspace_eval owners_def Let_def row_def)
  then obtain p rv where
    c: "change_membership (sample_id 100) (sample_id 98) (sample_id 97) None 1 [120] 5 two_owners = Inr (p, rv)"
    by (auto simp: succeeds_iff)
  have may: "may_approve (sample_id 100) (sample_id 97) (given_consents two_owners)"
    by (simp add: may_approve_def two_owners_def owned_workspace_def membership_of_def permissions_for_def all_permissions_def
        sample_consent_defs note_consent_def row_def)
  have au: "assert_authorized any_manifest (str ''s'') (str ''run'') (sample_id 100) 3 (given_consents two_owners) = Inr sample_manifest"
    by (rule sample_authorized [OF _ _ _ may]) (simp_all add: sample_consent_defs note_consent_def)
  have r: "row ap_id (as_text (item sample_manifest ''authorizationId'')) (approvals (given_consents two_owners)) = Some sample_approval_row"
    by (simp add: sample_items sample_consent_defs note_consent_def sample_approval_row_def)
  have p: "people (given_consents two_owners) = two_owners" by (simp add: sample_consent_defs note_consent_def)
  have a: "ap_actor sample_approval_row = sample_id 97" by (simp add: sample_approval_row_def)
  from removed_member_still_authorizes [OF au r, unfolded a p, OF c] show ?thesis by blast
qed

end
