(* ===== verification/Dispatch.thy ===== *)
theory Dispatch
  imports Desktop_Exclusion Consents
begin

text \<open>
  Who may start work on a desktop (\<open>persistence/runners.py\<close> from \<open>DispatchRefused\<close> on,
  \<open>supervisor_dispatch.py\<close>, \<open>orchestrator/manual_dispatch.py\<close>, the tickets of migration 0035 and the run
  identity trigger of migration 0033): the checks rerun before a dispatch, the commitment of a run to one
  attempt, the ticket its receiver consumes, and what happens when the handoff stays unanswered. The
  transport between controller and receiver is not modelled: it answers or it does not.
\<close>

section \<open>Tables\<close>

text \<open>\<open>DispatchReference\<close>; the workspace is the one the session is scoped to.\<close>

record manual_ref =
  mr_workspace :: pytext
  mr_run :: pytext
  mr_attempt :: pytext
  mr_runner :: pytext
  mr_lease :: pytext
  mr_epoch :: int

record dispatch_ticket =
  tk_id :: pytext
  tk_reference :: manual_ref
  tk_digest :: pytext
  tk_created :: timestamptz
  tk_expires :: timestamptz
  tk_accepted :: "timestamptz option"
  tk_revoked :: "timestamptz option"

record control_db =
  desk :: fleet
  consents :: consent_db
  tickets :: "dispatch_ticket list"

datatype dispatch_error =
    RunAbsent | NotSealed | ConsentRefused consent_error | AuthorizationDiffers | AuthorityRefused authority_error
  | NotRunEffects | NoBudget | BindingRefused | RunnerAbsent | RunnerRetired | RunnerQuarantined | ProfileChanged
  | LeaseAbsent | LeaseEpochDiffers | LeaseGone | LeaseCancelled | LeaseSuperseded | LeaseTimeMalformed
  | RunNotEligible | NoPreflight | PreflightRefused | PreflightStale | PreflightManifest | PreflightEnvironment
  | PreflightProfile | NotCommitted | RevisionChanged | AttemptForeign | DispatchExpired | TicketConflict
  | TicketUnbound | TicketUnavailable | RecoveryMismatch | NotRecoverable | FleetRefused fleet_error
  | IdentityFixed

type_synonym 'a dispatch_result = "(dispatch_error, 'a) result"

section \<open>Readiness\<close>

text \<open>\<open>ORDER BY recorded_at DESC, id DESC LIMIT 1\<close>\<close>

definition latest_preflight :: "pytext \<Rightarrow> fleet \<Rightarrow> preflight_row option" where
  "latest_preflight i db =
     (case sort_key pf_recorded (sort_key pf_id (filter (\<lambda>p. pf_runner p = i) (preflights db))) of
        [] \<Rightarrow> None | p # ps \<Rightarrow> Some (last (p # ps)))"

definition assert_preflight :: "pytext \<Rightarrow> int \<Rightarrow> pytext \<Rightarrow> pytext \<Rightarrow> pytext \<Rightarrow> fleet \<Rightarrow> unit dispatch_result" where
  "assert_preflight i epoch profile env manifest' db =
     (case latest_preflight i db of
        None \<Rightarrow> Inl NoPreflight
      | Some p \<Rightarrow>
          if \<not> pf_successful p then Inl PreflightRefused
          else if pf_epoch p < epoch - 1 then Inl PreflightStale
          else if preflight_manifest_digest (pf_result p) \<noteq> manifest' then Inl PreflightManifest
          else if environment_config_digest (pf_result p) \<noteq> env then Inl PreflightEnvironment
          else if runner_profile_digest (pf_result p) \<noteq> profile then Inl PreflightProfile
          else Inr ())"

definition assert_dispatch_ready ::
  "run_gates \<Rightarrow> pytext \<Rightarrow> pytext \<Rightarrow> pytext \<Rightarrow> int \<Rightarrow> pytext \<Rightarrow> pytext \<Rightarrow> pytext \<Rightarrow> pytext \<Rightarrow> run_status \<Rightarrow>
     timestamptz \<Rightarrow> fleet \<Rightarrow> unit dispatch_result" where
  "assert_dispatch_ready gates w i lease epoch run profile env manifest' phase now db =
     (if \<not> lease_asserted gates run lease epoch then Inl BindingRefused
      else case find_runner i db of
        None \<Rightarrow> Inl RunnerAbsent
      | Some r \<Rightarrow>
          if revoked r then Inl RunnerRetired
          else if rn_status r = QUARANTINED then Inl RunnerQuarantined
          else if rn_profile_digest r \<noteq> profile then Inl ProfileChanged
          else (case List.find (\<lambda>l. l_id l = lease \<and> l_runner l = i \<and> l_run l = run) (leases db) of
            None \<Rightarrow> Inl LeaseAbsent
          | Some l \<Rightarrow>
              if l_epoch l \<noteq> epoch then Inl LeaseEpochDiffers
              else if \<not> active l then Inl LeaseGone
              else if l_cancel_at l \<noteq> None then Inl LeaseCancelled
              else if rn_epoch r \<noteq> epoch then Inl LeaseSuperseded
              else bind_result (map_error (\<lambda>_. LeaseTimeMalformed) (is_expired (written now) (written (l_deadline l)))) (\<lambda>late.
                if late then Inl LeaseSuperseded
                else case find_run w run (store db) of
                  None \<Rightarrow> Inl RunNotEligible
                | Some q \<Rightarrow>
                    if c_status q \<noteq> phase \<or> c_lease_epoch q \<noteq> epoch \<or> c_cancel_requested_at q \<noteq> None \<or>
                      c_quarantined q then Inl RunNotEligible
                    else assert_preflight i epoch profile env manifest' db)))"

text \<open>The gate of a run under a standing grant.\<close>

definition assert_dispatch_authorized ::
  "run_gates \<Rightarrow> pytext \<Rightarrow> pytext \<Rightarrow> int \<Rightarrow> child_authorization \<Rightarrow> execution_grant \<Rightarrow> pytext \<Rightarrow> pytext \<Rightarrow> pytext \<Rightarrow>
     pytext \<Rightarrow> pytext \<Rightarrow> timestamptz \<Rightarrow> fleet \<Rightarrow> unit dispatch_result" where
  "assert_dispatch_authorized gates i lease epoch child parent w run profile env manifest' now db =
     bind_result (map_error AuthorityRefused (check_child_at_dispatch child parent (written now) w run)) (\<lambda>_.
     if ch_scope child \<noteq> RUN_EFFECTS then Inl NotRunEffects
     else if action_budget child < 1 \<or> wall_time_budget_seconds child < 1 then Inl NoBudget
     else assert_dispatch_ready gates w i lease epoch run profile env manifest' LEASED now db)"

section \<open>Manual dispatch\<close>

definition manual_authorized ::
  "(items \<Rightarrow> bool) \<Rightarrow> run_gates \<Rightarrow> manual_ref \<Rightarrow> run_status \<Rightarrow> timestamptz \<Rightarrow> control_db \<Rightarrow> items dispatch_result" where
  "manual_authorized valid gates ref phase now db =
     (case find_run (mr_workspace ref) (mr_run ref) (store (desk db)) of
        None \<Rightarrow> Inl RunAbsent
      | Some q \<Rightarrow>
          (case find_sealed_manifest (c_manifest_digest q) (consents db) of
            None \<Rightarrow> Inl NotSealed
          | Some s \<Rightarrow>
              bind_result (map_error ConsentRefused
                (assert_authorized valid (sl_id s) (mr_run ref) (mr_workspace ref) now (consents db))) (\<lambda>m.
              if item m ''authorizationId'' \<noteq> PStr (column_text (c_authorization q)) then Inl AuthorizationDiffers
              else bind_result (assert_dispatch_ready gates (mr_workspace ref) (mr_runner ref) (mr_lease ref) (mr_epoch ref)
                  (mr_run ref) (as_text (item m ''runnerProfileDigest'')) (as_text (item m ''environmentConfigDigest''))
                  (sl_digest s) phase now (desk db)) (\<lambda>_. Inr m))))"

text \<open>\<open>asdict(reference)\<close>: what the audit row of the commitment carries.\<close>

definition ref_context :: "manual_ref \<Rightarrow> pyval" where
  "ref_context ref = PDict
     [(key ''workspace_id'', PStr (mr_workspace ref)), (key ''run_id'', PStr (mr_run ref)),
      (key ''attempt_id'', PStr (mr_attempt ref)), (key ''runner_id'', PStr (mr_runner ref)),
      (key ''lease_id'', PStr (mr_lease ref)), (key ''epoch'', PInt (mr_epoch ref))]"

definition is_claim :: "audit_event \<Rightarrow> bool" where
  "is_claim e \<longleftrightarrow> audit_action e = str ''MANUAL_DISPATCH_CLAIMED'' \<and>
     actor_service e = Some (str ''manual-run-controller'')"

definition claim_of :: "manual_ref \<Rightarrow> audit_event \<Rightarrow> bool" where
  "claim_of ref e \<longleftrightarrow> is_claim e \<and> audit_workspace e = mr_workspace ref \<and> audit_target e = mr_run ref \<and>
     (case audit_detail e of PDict d \<Rightarrow> get_item d ''context'' = Some (ref_context ref) | _ \<Rightarrow> False)"

definition committed :: "manual_ref \<Rightarrow> fleet \<Rightarrow> bool" where
  "committed ref db \<longleftrightarrow> list_ex (claim_of ref) (audit (store db))"

text \<open>The lease row joined with the attempt it names.\<close>

definition paired :: "manual_ref \<Rightarrow> fleet \<Rightarrow> bool" where
  "paired ref db \<longleftrightarrow> list_ex (\<lambda>l. l_id l = mr_lease ref \<and> l_attempt l = mr_attempt ref) (leases db) \<and>
     list_ex (\<lambda>a. attempt_id a = mr_attempt ref \<and> attempt_workspace a = mr_workspace ref \<and>
       attempt_run a = mr_run ref \<and> attempt_epoch a = mr_epoch ref) (attempts (store db))"

definition manual_attempt_authorized ::
  "(items \<Rightarrow> bool) \<Rightarrow> run_gates \<Rightarrow> manual_ref \<Rightarrow> timestamptz \<Rightarrow> control_db \<Rightarrow> items dispatch_result" where
  "manual_attempt_authorized valid gates ref now db =
     bind_result (manual_authorized valid gates ref RUNNING now db) (\<lambda>m.
     if \<not> paired ref (desk db) \<or> \<not> committed ref (desk db) then Inl NotCommitted else Inr m)"

section \<open>Tickets\<close>

text \<open>The row of the lease that the ticket's trigger looks for.\<close>

definition exactly_leased :: "manual_ref \<Rightarrow> fleet \<Rightarrow> bool" where
  "exactly_leased ref db \<longleftrightarrow> list_ex (\<lambda>l. l_id l = mr_lease ref \<and> l_run l = mr_run ref \<and> l_runner l = mr_runner ref \<and>
     l_attempt l = mr_attempt ref \<and> l_epoch l = mr_epoch ref) (leases db) \<and> paired ref db"

text \<open>The deadline of the lease and the expiry of the approval its run names.\<close>

definition dispatch_bounds :: "pytext \<Rightarrow> pytext \<Rightarrow> control_db \<Rightarrow> (timestamptz \<times> timestamptz) option" where
  "dispatch_bounds w lease db =
     (case find_lease lease (desk db) of
        None \<Rightarrow> None
      | Some l \<Rightarrow> (case find_run w (l_run l) (store (desk db)) of
            None \<Rightarrow> None
          | Some q \<Rightarrow> (case List.find (\<lambda>a. c_authorization q = Some (ap_id a)) (approvals (consents db)) of
                None \<Rightarrow> None
              | Some a \<Rightarrow> Some (l_deadline l, ap_expires a))))"

definition issue_ticket ::
  "(items \<Rightarrow> bool) \<Rightarrow> run_gates \<Rightarrow> pytext \<Rightarrow> pytext \<Rightarrow> manual_ref \<Rightarrow> timestamptz \<Rightarrow> control_db \<Rightarrow>
     control_db dispatch_result" where
  "issue_ticket valid gates fresh secret ref now db =
     bind_result (manual_attempt_authorized valid gates ref now db) (\<lambda>m.
     case dispatch_bounds (mr_workspace ref) (mr_lease ref) db of
       None \<Rightarrow> Inl DispatchExpired
     | Some (deadline, approved) \<Rightarrow>
         bind_result (map_error (\<lambda>_. LeaseTimeMalformed) (moment_of (as_text (item m ''expiresAt'')))) (\<lambda>sealed.
         let expires = min (now + seconds 30) (min deadline (min approved sealed))
         in if expires \<le> now then Inl DispatchExpired
            else bind_result (map_error FleetRefused (digest_token secret)) (\<lambda>dg.
              if list_ex (\<lambda>t. tk_id t = fresh \<or> tk_digest t = dg \<or> mr_run (tk_reference t) = mr_run ref) (tickets db) \<or>
                mr_epoch ref \<le> 0 then Inl TicketConflict
              else if \<not> exactly_leased ref (desk db) then Inl TicketUnbound
              else Inr (db\<lparr>tickets := tickets db @
                [\<lparr>tk_id = fresh, tk_reference = ref, tk_digest = dg, tk_created = now, tk_expires = expires,
                  tk_accepted = None, tk_revoked = None\<rparr>]\<rparr>))))"

definition acceptance_event :: "dispatch_ticket \<Rightarrow> timestamptz \<Rightarrow> audit_event" where
  "acceptance_event t clock =
     \<lparr>audit_workspace = mr_workspace (tk_reference t), actor_user = None,
      actor_service = Some (str ''supervisor-dispatch-receiver''), audit_action = str ''SUPERVISOR_DISPATCH_ACCEPTED'',
      audit_target = mr_run (tk_reference t), occurred_at = clock,
      audit_detail = PDict [(key ''ticketId'', PStr (tk_id t)), (key ''attemptId'', PStr (mr_attempt (tk_reference t))),
        (key ''leaseId'', PStr (mr_lease (tk_reference t))), (key ''epoch'', PInt (mr_epoch (tk_reference t)))]\<rparr>"

definition note_event :: "audit_event \<Rightarrow> fleet \<Rightarrow> fleet" where
  "note_event e db = db\<lparr>store := (store db)\<lparr>audit := audit (store db) @ [e]\<rparr>\<rparr>"

text \<open>\<open>now\<close> is the process's clock, \<open>clock\<close> the database's when the row is written.\<close>

definition accept_ticket ::
  "(items \<Rightarrow> bool) \<Rightarrow> run_gates \<Rightarrow> pytext \<Rightarrow> pytext \<Rightarrow> pytext \<Rightarrow> timestamptz \<Rightarrow> timestamptz \<Rightarrow> control_db \<Rightarrow>
     (control_db \<times> manual_ref) dispatch_result" where
  "accept_ticket valid gates w i secret now clock db =
     (if length secret \<noteq> 43 \<or> \<not> list_all (\<lambda>c. c < 128) secret then Inl TicketUnavailable
      else case row tk_id i (tickets db) of
        None \<Rightarrow> Inl TicketUnavailable
      | Some t \<Rightarrow>
          if mr_workspace (tk_reference t) \<noteq> w \<or> digest_token secret \<noteq> Inr (tk_digest t) then Inl TicketUnavailable
          else if tk_accepted t \<noteq> None \<or> tk_revoked t \<noteq> None \<or> tk_expires t \<le> now then Inl TicketUnavailable
          else bind_result (map_error (\<lambda>_. TicketUnavailable) (manual_attempt_authorized valid gates (tk_reference t) now db)) (\<lambda>_.
            if tk_expires t \<le> clock then Inl TicketUnavailable
            else Inr (db\<lparr>tickets := update_where (\<lambda>q. tk_id q = i) (\<lambda>q. q\<lparr>tk_accepted := Some clock\<rparr>) (tickets db),
                desk := note_event (acceptance_event t clock) (desk db)\<rparr>, tk_reference t)))"

section \<open>Commitment and recovery\<close>

text \<open>
  Migration 0033: a run that a canonical seal names, or that carries a canonical seal's digest, keeps the
  identity the seal reserved. The trigger sees the rows a statement writes.
\<close>

definition identity_kept :: "stored_run \<Rightarrow> seal \<Rightarrow> bool" where
  "identity_kept r s \<longleftrightarrow> (sl_manifest s \<noteq> None \<and> (sl_run s = Some (c_id r) \<or> sl_digest s = c_manifest_digest r) \<longrightarrow>
     sl_run s = Some (c_id r) \<and> sl_workspace s = c_workspace r \<and> c_project r = Some (sl_project s) \<and>
     c_manifest_digest r = sl_digest s \<and> c_authorization r = sl_authorization s)"

definition identities_kept :: "seal list \<Rightarrow> run_store \<Rightarrow> run_store \<Rightarrow> bool" where
  "identities_kept ss before after \<longleftrightarrow>
     list_all (\<lambda>r. r \<in> set (runs before) \<or> list_all (identity_kept r) ss) (runs after)"

definition claim_cause :: "pytext \<Rightarrow> manual_ref \<Rightarrow> cause" where
  "claim_cause op ref =
     (service_cause op (str ''run.running'') (str ''manual-run-controller'') (str ''MANUAL_DISPATCH_CLAIMED''))
       \<lparr>cause_context := Some (ref_context ref)\<rparr>"

text \<open>The transaction of \<open>ManualRunController.dispatch\<close>.\<close>

definition commit_dispatch ::
  "(items \<Rightarrow> bool) \<Rightarrow> run_gates \<Rightarrow> (pytext \<Rightarrow> timestamptz option) \<Rightarrow> pytext \<Rightarrow> pytext \<Rightarrow> pytext \<Rightarrow> manual_ref \<Rightarrow> int \<Rightarrow>
     timestamptz \<Rightarrow> control_db \<Rightarrow> control_db dispatch_result" where
  "commit_dispatch valid gates reads op fresh secret ref expected now db =
     (case find_run (mr_workspace ref) (mr_run ref) (store (desk db)) of
        None \<Rightarrow> Inl (FleetRefused (RefusedRun NoSuchRun))
      | Some q \<Rightarrow>
          if c_revision q \<noteq> expected then Inl RevisionChanged
          else bind_result (manual_authorized valid gates ref LEASED now db) (\<lambda>_.
            if \<not> paired ref (desk db) then Inl AttemptForeign
            else if (case find_lease (mr_lease ref) (desk db) of None \<Rightarrow> True | Some l \<Rightarrow> l_deadline l \<le> now)
            then Inl DispatchExpired
            else bind_result (map_error FleetRefused (move_run reads (mr_workspace ref) (mr_run ref) (\<lambda>s. progress s None)
                (claim_cause op ref) (Some expected) now (desk db))) (\<lambda>d.
              if \<not> identities_kept (seals (consents db)) (store (desk db)) (store d) then Inl IdentityFixed
              else issue_ticket valid gates fresh secret ref now (db\<lparr>desk := d\<rparr>))))"

definition interrupt_manual_handoff ::
  "(pytext \<Rightarrow> timestamptz option) \<Rightarrow> pytext \<Rightarrow> manual_ref \<Rightarrow> timestamptz \<Rightarrow> control_db \<Rightarrow> control_db dispatch_result" where
  "interrupt_manual_handoff reads op ref now db =
     (case find_run (mr_workspace ref) (mr_run ref) (store (desk db)) of
        None \<Rightarrow> Inl (FleetRefused (RefusedRun NoSuchRun))
      | Some q \<Rightarrow>
          if map_option rn_epoch (find_runner (mr_runner ref) (desk db)) \<noteq> Some (mr_epoch ref) \<or>
            \<not> exactly_leased ref (desk db) \<or> c_lease_epoch q \<noteq> mr_epoch ref then Inl RecoveryMismatch
          else if c_status q = INTERRUPTED then Inr db
          else if c_status q \<noteq> RUNNING \<or> \<not> committed ref (desk db) then Inl NotRecoverable
          else map_error FleetRefused
            (bind_result (change_lease (\<lambda>l. l_id l = mr_lease ref) (release_lease RELEASED_AMBIGUOUS now) (desk db)) (\<lambda>d1.
             bind_result (quarantine (mr_runner ref) AMBIGUOUS_ACTION now d1) (\<lambda>d2.
             bind_result (move_run reads (mr_workspace ref) (mr_run ref) (\<lambda>s. interrupt s (str ''MANUAL_HANDOFF_UNKNOWN'') None)
               (service_cause op (str ''run.interrupted'') (str ''manual-run-controller'')
                 (str ''RUN_INTERRUPTED_MANUAL_HANDOFF_UNKNOWN'')) (Some (c_revision q)) now d2) (\<lambda>d3.
             if \<not> identities_kept (seals (consents db)) (store (desk db)) (store d3) then Inl (RefusedRun ImmutableRow)
             else Inr (db\<lparr>desk := d3, tickets := update_where (\<lambda>t. mr_run (tk_reference t) = mr_run ref \<and> tk_revoked t = None)
               (\<lambda>t. t\<lparr>tk_revoked := Some now\<rparr>) (tickets db)\<rparr>))))))"

section \<open>Histories\<close>

text \<open>
  What happens around a dispatch: the fleet and the consents move as they do, except that the commitment's
  audit rows are written by \<open>commit_dispatch\<close> alone, the desktop journal by the sessions of its receiver,
  and that a run row must pass the identity trigger.
\<close>

definition claims :: "fleet \<Rightarrow> audit_event list" where
  "claims db = filter is_claim (audit (store db))"

inductive dispatch_step ::
  "(items \<Rightarrow> bool) \<Rightarrow> run_gates \<Rightarrow> (pytext \<Rightarrow> timestamptz option) \<Rightarrow> pytext \<Rightarrow> control_db \<Rightarrow> control_db \<Rightarrow> bool"
  for valid gates reads w where
  fleet_moved: "fleet_step gates reads w (desk db) d \<Longrightarrow> journal d = journal (desk db) \<Longrightarrow> claims d = claims (desk db) \<Longrightarrow>
    identities_kept (seals (consents db)) (store (desk db)) (store d) \<Longrightarrow> dispatch_step valid gates reads w db (db\<lparr>desk := d\<rparr>)"
| consent_moved: "consent_step valid reads (consents db) c \<Longrightarrow> dispatch_step valid gates reads w db (db\<lparr>consents := c\<rparr>)"
| attempt_started: "start_attempt w fresh run w epoch (store (desk db)) = Inr s \<Longrightarrow>
    dispatch_step valid gates reads w db (db\<lparr>desk := (desk db)\<lparr>store := s\<rparr>\<rparr>)"
| run_committed: "mr_workspace ref = w \<Longrightarrow> commit_dispatch valid gates reads op fresh secret ref expected now db = Inr db' \<Longrightarrow>
    dispatch_step valid gates reads w db db'"
| ticket_accepted: "accept_ticket valid gates w i secret now clock db = Inr (db', ref) \<Longrightarrow> dispatch_step valid gates reads w db db'"
| handoff_lost: "mr_workspace ref = w \<Longrightarrow> interrupt_manual_handoff reads op ref now db = Inr db' \<Longrightarrow>
    dispatch_step valid gates reads w db db'"

end
