(* ===== verification/Handoffs.thy ===== *)
theory Handoffs
  imports Dispatch Consent Desktop_Guarantees
begin

text \<open>
  What the dispatch protocol guarantees over whole histories: a receiver starts work only where everything
  the checks name holds at once and a person's consent is behind it; a run is started at most once; and a
  handoff that was given up is never taken up again.
\<close>

section \<open>Seals found by their digest\<close>

lemma found_in: "find_sealed_manifest dg c = Some s \<Longrightarrow> s \<in> set (seals c) \<and> sl_digest s = dg"
proof -
  assume f: "find_sealed_manifest dg c = Some s"
  define ss where "ss = sort_key sl_sealed (sort_key sl_id (filter (\<lambda>s. sl_digest s = dg) (seals c)))"
  have "s \<in> set ss" using f by (auto simp: find_sealed_manifest_def ss_def [symmetric] split: list.splits)
  then show ?thesis by (simp add: ss_def)
qed

lemma found_manifest: "find_sealed_manifest dg c = Some s \<Longrightarrow> sl_digest s = dg"
  using found_in by blast

lemma authorized_digest:
  assumes "assert_authorized valid i run w now c = Inr m" and "row sl_id i (seals c) = Some s"
  shows "digest (PDict m) = Inr (sl_digest s)"
  using assms(1)
proof (rule assert_authorized_Inr, goal_cases)
  case (1 s' a)
  with assms(2) show ?case by simp
qed

section \<open>Commitments and their audit rows\<close>

lemma claim_of_claims: "claim_of ref e \<Longrightarrow> e \<in> set (audit (store d)) \<Longrightarrow> e \<in> set (claims d)"
  by (simp add: claims_def claim_of_def)

lemma committed_claims: "committed ref d \<longleftrightarrow> (\<exists>e \<in> set (claims d). claim_of ref e)"
  by (auto simp: committed_def list_ex_iff claims_def claim_of_def)

lemma move_run_audit:
  assumes "fleet_inv d" and "move_run rd w run reducer why expected now d = Inr d'"
  obtains q after where "find_run w run (store d) = Some q" "q \<in> set (runs (store d))" "c_id q = run" "c_workspace q = w"
    "reducer (row_to_state q) = Inr after" "\<not> is_terminal (c_status q)"
    "audit (store d') = audit (store d) @ [audit_row w why (row_to_state q) after now]" "attempts (store d') = attempts (store d)"
    "d' = d\<lparr>store := store d'\<rparr>" "expected = None \<or> expected = Some (c_revision q)"
proof -
  from assms(2) obtain s after where a: "apply_transition rd w run reducer why expected now (store d) = Inr (s, after)"
    and d': "d' = d\<lparr>store := s\<rparr>" by (auto simp: move_run_def bind_result_Inr map_error_Inr)
  have "distinct (map c_id (runs (store d)))" using assms(1) by (simp add: fleet_inv_def store_inv_def)
  from apply_transition_Inr [OF a this] obtain q where q: "find_run w run (store d) = Some q" "q \<in> set (runs (store d))"
    "c_id q = run" "reducer (row_to_state q) = Inr after" "\<not> is_terminal (c_status q)"
    "audit s = audit (store d) @ [audit_row (c_workspace q) why (row_to_state q) after now]" "attempts s = attempts (store d)"
    "expected = None \<or> expected = Some (c_revision q)" by blast
  moreover have "c_workspace q = w" using q(1) by (auto simp: find_run_def dest: row_SomeD)
  ultimately show ?thesis using d' by (intro that [of q after]) simp_all
qed

lemma claim_row:
  "claim_of ref' (audit_row (mr_workspace ref) (claim_cause op ref) before after now) \<longleftrightarrow>
     mr_workspace ref' = mr_workspace ref \<and> mr_run ref' = Reducers.run_id before \<and> ref_context ref' = ref_context ref"
  by (auto simp: claim_of_def is_claim_def audit_row_def claim_cause_def service_cause_def str_eq_iff get_item_def)

lemma ref_context_inject: "ref_context r = ref_context s \<longleftrightarrow> r = s"
  by (cases r; cases s) (auto simp: ref_context_def)

section \<open>What a check found\<close>

lemma latest_preflight_in:
  assumes "latest_preflight i d = Some p"
  shows "p \<in> set (preflights d) \<and> pf_runner p = i"
proof -
  define ps where "ps = sort_key pf_recorded (sort_key pf_id (filter (\<lambda>p. pf_runner p = i) (preflights d)))"
  have "ps \<noteq> []" "p = last ps"
    using assms by (simp_all add: latest_preflight_def ps_def [symmetric] split: list.splits)
  then have "p \<in> set ps" by simp
  then show ?thesis by (simp add: ps_def)
qed

lemma ready_Inr:
  assumes "assert_dispatch_ready gates w i lease epoch run profile env manifest' phase now d = Inr u"
  obtains r l q p where "find_runner i d = Some r" "\<not> revoked r" "rn_status r \<noteq> QUARANTINED" "rn_profile_digest r = profile"
    "l \<in> set (leases d)" "l_id l = lease" "l_runner l = i" "l_run l = run" "l_epoch l = epoch" "active l" "l_cancel_at l = None"
    "rn_epoch r = epoch" "is_expired (written now) (written (l_deadline l)) = Inr False"
    "find_run w run (store d) = Some q" "c_status q = phase" "c_lease_epoch q = epoch" "c_cancel_requested_at q = None"
    "\<not> c_quarantined q" "latest_preflight i d = Some p" "pf_successful p" "epoch - 1 \<le> pf_epoch p"
    "preflight_manifest_digest (pf_result p) = manifest'" "environment_config_digest (pf_result p) = env"
    "runner_profile_digest (pf_result p) = profile"
proof -
  from assms obtain r where r: "find_runner i d = Some r" "\<not> revoked r" "rn_status r \<noteq> QUARANTINED" "rn_profile_digest r = profile"
    by (auto simp: assert_dispatch_ready_def split: option.splits if_splits)
  with assms obtain l where f: "List.find (\<lambda>l. l_id l = lease \<and> l_runner l = i \<and> l_run l = run) (leases d) = Some l"
    by (auto simp: assert_dispatch_ready_def split: option.splits if_splits)
  with assms r have l: "l_epoch l = epoch" "active l" "l_cancel_at l = None" "rn_epoch r = epoch"
    "is_expired (written now) (written (l_deadline l)) = Inr False"
    by (auto simp: assert_dispatch_ready_def bind_result_Inr split: if_splits)
  from assms r f l obtain q where q: "find_run w run (store d) = Some q"
    by (auto simp: assert_dispatch_ready_def split: option.splits if_splits)
  with assms r f l have c: "c_status q = phase" "c_lease_epoch q = epoch" "c_cancel_requested_at q = None"
    "\<not> c_quarantined q" and a: "assert_preflight i epoch profile env manifest' d = Inr ()"
    by (auto simp: assert_dispatch_ready_def split: if_splits)
  from a obtain p where p: "latest_preflight i d = Some p" "pf_successful p" "epoch - 1 \<le> pf_epoch p"
    "preflight_manifest_digest (pf_result p) = manifest'" "environment_config_digest (pf_result p) = env"
    "runner_profile_digest (pf_result p) = profile"
    by (auto simp: assert_preflight_def split: option.splits if_splits)
  from f have "l \<in> set (leases d)" "l_id l = lease" "l_runner l = i" "l_run l = run"
    by (auto simp: find_Some_iff)
  with r l q c p show thesis by (intro that)
qed

lemma manual_Inr:
  assumes "manual_authorized valid gates ref phase now db = Inr m"
  obtains q s where "find_run (mr_workspace ref) (mr_run ref) (store (desk db)) = Some q"
    "find_sealed_manifest (c_manifest_digest q) (consents db) = Some s"
    "assert_authorized valid (sl_id s) (mr_run ref) (mr_workspace ref) now (consents db) = Inr m"
    "item m ''authorizationId'' = PStr (column_text (c_authorization q))"
    "assert_dispatch_ready gates (mr_workspace ref) (mr_runner ref) (mr_lease ref) (mr_epoch ref) (mr_run ref)
       (as_text (item m ''runnerProfileDigest'')) (as_text (item m ''environmentConfigDigest'')) (sl_digest s) phase now (desk db) = Inr ()"
  using assms that by (auto simp: manual_authorized_def bind_result_Inr split: option.splits if_splits)

lemma attempt_Inr:
  "manual_attempt_authorized valid gates ref now db = Inr m \<longleftrightarrow>
     manual_authorized valid gates ref RUNNING now db = Inr m \<and> paired ref (desk db) \<and> committed ref (desk db)"
  by (auto simp: manual_attempt_authorized_def bind_result_Inr split: if_splits)

lemma issue_ticket_Inr:
  assumes "issue_ticket valid gates fresh secret ref now db = Inr db'"
  obtains m dg e where "manual_attempt_authorized valid gates ref now db = Inr m" "digest_token secret = Inr dg" "now < e"
    "db' = db\<lparr>tickets := tickets db @ [\<lparr>tk_id = fresh, tk_reference = ref, tk_digest = dg, tk_created = now, tk_expires = e,
       tk_accepted = None, tk_revoked = None\<rparr>]\<rparr>"
    "\<forall>t \<in> set (tickets db). tk_id t \<noteq> fresh \<and> mr_run (tk_reference t) \<noteq> mr_run ref" "exactly_leased ref (desk db)"
proof -
  from assms obtain m deadline approved sealed where m: "manual_attempt_authorized valid gates ref now db = Inr m"
    and b: "dispatch_bounds (mr_workspace ref) (mr_lease ref) db = Some (deadline, approved)"
    and s: "moment_of (as_text (item m ''expiresAt'')) = Inr sealed"
    by (auto simp: issue_ticket_def bind_result_Inr split: option.splits)
  define e where "e = min (now + seconds 30) (min deadline (min approved sealed))"
  from assms m b s have e: "now < e" by (simp add: issue_ticket_def Let_def e_def [symmetric] split: if_splits)
  with assms m b s obtain dg where dg: "digest_token secret = Inr dg"
    by (auto simp: issue_ticket_def Let_def e_def [symmetric] bind_result_Inr)
  from assms m b s e dg have "\<not> list_ex (\<lambda>t. tk_id t = fresh \<or> tk_digest t = dg \<or> mr_run (tk_reference t) = mr_run ref) (tickets db)"
    and x: "exactly_leased ref (desk db)"
    and db': "db' = db\<lparr>tickets := tickets db @ [\<lparr>tk_id = fresh, tk_reference = ref, tk_digest = dg, tk_created = now, tk_expires = e,
       tk_accepted = None, tk_revoked = None\<rparr>]\<rparr>"
    by (simp_all add: issue_ticket_def Let_def e_def [symmetric] split: if_splits)
  then have "\<forall>t \<in> set (tickets db). tk_id t \<noteq> fresh \<and> mr_run (tk_reference t) \<noteq> mr_run ref" by (auto simp: list_ex_iff)
  with m dg e db' x show thesis by (intro that)
qed

lemma accept_ticket_Inr:
  assumes "accept_ticket valid gates w i secret now clock db = Inr (db', ref)"
  obtains t m where "row tk_id i (tickets db) = Some t" "tk_reference t = ref" "mr_workspace ref = w" "tk_accepted t = None"
    "tk_revoked t = None" "now < tk_expires t" "digest_token secret = Inr (tk_digest t)"
    "manual_attempt_authorized valid gates ref now db = Inr m" "clock < tk_expires t"
    "db' = db\<lparr>tickets := update_where (\<lambda>q. tk_id q = i) (\<lambda>q. q\<lparr>tk_accepted := Some clock\<rparr>) (tickets db),
       desk := note_event (acceptance_event t clock) (desk db)\<rparr>"
  using assms that
  by (auto simp: accept_ticket_def bind_result_Inr map_error_Inr split: option.splits if_splits)

lemma commit_Inr:
  assumes "commit_dispatch valid gates rd op fresh secret ref expected now db = Inr db'"
  obtains m d q where "manual_authorized valid gates ref LEASED now db = Inr m" "paired ref (desk db)"
    "find_run (mr_workspace ref) (mr_run ref) (store (desk db)) = Some q" "c_revision q = expected"
    "move_run rd (mr_workspace ref) (mr_run ref) (\<lambda>s. progress s None) (claim_cause op ref) (Some expected) now (desk db) = Inr d"
    "identities_kept (seals (consents db)) (store (desk db)) (store d)"
    "issue_ticket valid gates fresh secret ref now (db\<lparr>desk := d\<rparr>) = Inr db'"
  using assms that
  by (auto simp: commit_dispatch_def bind_result_Inr map_error_Inr split: option.splits if_splits)

text \<open>The recovery of a handoff that was committed and is not over yet.\<close>

lemma interrupt_handoff_Inr:
  assumes "interrupt_manual_handoff rd op ref now db = Inr db'"
    and "find_run (mr_workspace ref) (mr_run ref) (store (desk db)) = Some q" and "c_status q \<noteq> INTERRUPTED"
  obtains d1 d2 d3 where "c_status q = RUNNING" "committed ref (desk db)" "exactly_leased ref (desk db)"
    "change_lease (\<lambda>l. l_id l = mr_lease ref) (release_lease RELEASED_AMBIGUOUS now) (desk db) = Inr d1"
    "quarantine (mr_runner ref) AMBIGUOUS_ACTION now d1 = Inr d2"
    "move_run rd (mr_workspace ref) (mr_run ref) (\<lambda>s. interrupt s (str ''MANUAL_HANDOFF_UNKNOWN'') None)
       (service_cause op (str ''run.interrupted'') (str ''manual-run-controller'')
         (str ''RUN_INTERRUPTED_MANUAL_HANDOFF_UNKNOWN'')) (Some (c_revision q)) now d2 = Inr d3"
    "db' = db\<lparr>desk := d3, tickets := update_where (\<lambda>t. mr_run (tk_reference t) = mr_run ref \<and> tk_revoked t = None)
       (\<lambda>t. t\<lparr>tk_revoked := Some now\<rparr>) (tickets db)\<rparr>"
    "map_option rn_epoch (find_runner (mr_runner ref) (desk db)) = Some (mr_epoch ref)"
proof -
  from assms have c: "c_status q = RUNNING" "committed ref (desk db)" "exactly_leased ref (desk db)"
    "map_option rn_epoch (find_runner (mr_runner ref) (desk db)) = Some (mr_epoch ref)" "c_lease_epoch q = mr_epoch ref"
    by (simp_all add: interrupt_manual_handoff_def split: if_splits)
  with assms obtain d1 where 1: "change_lease (\<lambda>l. l_id l = mr_lease ref) (release_lease RELEASED_AMBIGUOUS now) (desk db) = Inr d1"
    by (auto simp: interrupt_manual_handoff_def bind_result_Inr)
  with assms c obtain d2 where 2: "quarantine (mr_runner ref) AMBIGUOUS_ACTION now d1 = Inr d2"
    by (auto simp: interrupt_manual_handoff_def bind_result_Inr)
  with assms c 1 obtain d3 where 3: "move_run rd (mr_workspace ref) (mr_run ref) (\<lambda>s. interrupt s (str ''MANUAL_HANDOFF_UNKNOWN'') None)
       (service_cause op (str ''run.interrupted'') (str ''manual-run-controller'')
         (str ''RUN_INTERRUPTED_MANUAL_HANDOFF_UNKNOWN'')) (Some (c_revision q)) now d2 = Inr d3"
    by (auto simp: interrupt_manual_handoff_def bind_result_Inr)
  from assms c 1 2 3 have "db' = db\<lparr>desk := d3, tickets := update_where (\<lambda>t. mr_run (tk_reference t) = mr_run ref \<and> tk_revoked t = None)
       (\<lambda>t. t\<lparr>tk_revoked := Some now\<rparr>) (tickets db)\<rparr>"
    by (simp add: interrupt_manual_handoff_def split: if_splits)
  with c 1 2 3 show thesis by (intro that)
qed

lemma interrupt_handoff_over:
  "interrupt_manual_handoff rd op ref now db = Inr db' \<Longrightarrow>
   \<exists>q. find_run (mr_workspace ref) (mr_run ref) (store (desk db)) = Some q \<and> (c_status q = INTERRUPTED \<longrightarrow> db' = db)"
  by (auto simp: interrupt_manual_handoff_def split: option.splits if_splits)

section \<open>The invariant\<close>

text \<open>
  Every ticket was issued by the commitment whose audit row stands beside it, in the same order, and no two
  are for one run.
\<close>

definition tickets_ok :: "pytext \<Rightarrow> control_db \<Rightarrow> bool" where
  "tickets_ok w db \<longleftrightarrow> distinct (map tk_id (tickets db)) \<and> distinct (map (mr_run \<circ> tk_reference) (tickets db)) \<and>
     (\<forall>t \<in> set (tickets db). mr_workspace (tk_reference t) = w) \<and>
     list_all2 (\<lambda>t e. claim_of (tk_reference t) e) (tickets db) (claims (desk db))"

definition control_inv :: "pytext \<Rightarrow> control_db \<Rightarrow> bool" where
  "control_inv w db \<longleftrightarrow> fleet_inv (desk db) \<and> tickets_ok w db"

definition no_control :: "control_db \<Rightarrow> bool" where
  "no_control db \<longleftrightarrow> empty_fleet (desk db) \<and> empty_consents (consents db) \<and> tickets db = []"

lemma tickets_ok_frame:
  "tickets_ok w db \<Longrightarrow> tickets db' = tickets db \<Longrightarrow> claims (desk db') = claims (desk db) \<Longrightarrow> tickets_ok w db'"
  by (simp add: tickets_ok_def)

lemma tickets_ok_update:
  assumes "tickets_ok w db" and "tickets db' = update_where P f (tickets db)" and "claims (desk db') = claims (desk db)"
    and "\<And>t. tk_id (f t) = tk_id t \<and> tk_reference (f t) = tk_reference t"
  shows "tickets_ok w db'"
proof -
  have "map tk_id (tickets db') = map tk_id (tickets db)"
    "map (mr_run \<circ> tk_reference) (tickets db') = map (mr_run \<circ> tk_reference) (tickets db)"
    using assms(2,4) by (simp_all add: map_key_update)
  moreover have "\<forall>t \<in> set (tickets db'). mr_workspace (tk_reference t) = w"
    using assms(1,2,4) by (auto simp: tickets_ok_def in_update_where)
  moreover have "list_all2 (\<lambda>t e. claim_of (tk_reference t) e) (tickets db') (claims (desk db'))"
    using assms unfolding tickets_ok_def update_where_def
    by (simp add: list_all2_map1 list_all2_conv_all_nth)
  ultimately show ?thesis using assms(1) by (simp add: tickets_ok_def)
qed

lemma claims_start: "start_attempt w fresh run w' epoch s = Inr s' \<Longrightarrow> audit s' = audit s \<and> runs s' = runs s \<and> queue s' = queue s"
  by (auto simp: start_attempt_def split: if_splits)

lemma fleet_inv_store:
  assumes "fleet_inv d" and "runs s = runs (store d)" and "queue s = queue (store d)"
  shows "fleet_inv (d\<lparr>store := s\<rparr>)"
  using assms
  by (simp add: fleet_inv_def store_inv_def announced_ok_def desktops_ok_def epochs_ok_def runs_ok_def stops_ok_def settled_def
      held_def cancellations_ok_def)

lemma note_event_frame [simp]:
  "fleet_inv (note_event e d) = fleet_inv d" "leases (note_event e d) = leases d" "registry (note_event e d) = registry d"
  "runs (store (note_event e d)) = runs (store d)" "preflights (note_event e d) = preflights d" "journal (note_event e d) = journal d"
  "audit (store (note_event e d)) = audit (store d) @ [e]"
  by (simp_all add: note_event_def fleet_inv_def store_inv_def announced_ok_def desktops_ok_def epochs_ok_def runs_ok_def
      stops_ok_def settled_def held_def cancellations_ok_def)

lemma acceptance_no_claim: "\<not> is_claim (acceptance_event t clock)"
  by (simp add: is_claim_def acceptance_event_def str_eq_iff)

lemma progress_not_cancelling: "not_cancelling (\<lambda>s. progress s None)"
  by (auto simp: not_cancelling_def lawful_def intro: tranclp.r_into_trancl run_step.progressed dest: accepted)

lemma commit_fleet:
  assumes "control_inv w db" and "mr_workspace ref = w"
    and "move_run rd (mr_workspace ref) (mr_run ref) (\<lambda>s. progress s None) (claim_cause op ref) (Some expected) now (desk db) = Inr d"
  shows "fleet_inv d" and "\<exists>e. claims d = claims (desk db) @ [e] \<and> claim_of ref e"
proof -
  have inv: "fleet_inv (desk db)" using assms(1) by (simp add: control_inv_def)
  have "fleet_step gates rd (mr_workspace ref) (desk db) d" for gates
    by (rule fleet_step.run_moved [OF progress_not_cancelling assms(3)])
  with inv show "fleet_inv d" by (rule fleet_inv_step)
  from inv assms(3) show "\<exists>e. claims d = claims (desk db) @ [e] \<and> claim_of ref e"
  proof (rule move_run_audit, goal_cases)
    case (1 q after)
    let ?e = "audit_row (mr_workspace ref) (claim_cause op ref) (row_to_state q) after now"
    have "claim_of ref ?e" using 1(3) by (simp add: claim_row row_to_state_def)
    moreover then have "is_claim ?e" by (simp add: claim_of_def)
    ultimately show ?case using 1(7) by (auto simp: claims_def)
  qed
qed

lemma control_inv_commit:
  assumes "control_inv w db" and "mr_workspace ref = w"
    and "commit_dispatch valid gates rd op fresh secret ref expected now db = Inr db'"
  shows "control_inv w db'"
  using assms(3)
proof (rule commit_Inr, goal_cases)
  case (1 m d q)
  note c = commit_fleet [OF assms(1,2) 1(5)]
  from c(2) obtain e where e: "claims d = claims (desk db) @ [e]" "claim_of ref e" by blast
  from 1(7) show ?case
  proof (rule issue_ticket_Inr, goal_cases)
    case (1 m' dg x)
    with assms(1,2) c(1) e show ?case
      by (simp add: control_inv_def tickets_ok_def list_all2_appendI) (auto simp: image_iff)
  qed
qed

lemma interrupt_fleet:
  assumes "fleet_inv (desk db)" and "interrupt_manual_handoff rd op ref now db = Inr db'"
  shows "fleet_inv (desk db') \<and> claims (desk db') = claims (desk db)"
proof -
  obtain q where q: "find_run (mr_workspace ref) (mr_run ref) (store (desk db)) = Some q" "c_status q = INTERRUPTED \<longrightarrow> db' = db"
    using interrupt_handoff_over [OF assms(2)] by blast
  show ?thesis
  proof (cases "c_status q = INTERRUPTED")
    case True
    with q assms(1) show ?thesis by simp
  next
    case False
    from assms(2) q(1) False show ?thesis
    proof (rule interrupt_handoff_Inr, goal_cases)
      case (1 d1 d2 d3)
      have "fleet_inv d1" by (rule change_lease_inv [OF assms(1) 1(4)]) simp
      then have i2: "fleet_inv d2" using quarantine_inv 1(5) by blast
      have "store d2 = store (desk db)" using 1(4,5)
        by (auto simp: change_lease_def quarantine_def change_runner_def split: if_splits)
      moreover have "fleet_inv d3" by (rule move_run_inv [OF i2 _ 1(6)]) (auto intro: lawful_interrupt_any dest: accepted)
      moreover from i2 1(6) have "\<exists>e. audit (store d3) = audit (store d2) @ [e] \<and> \<not> is_claim e"
      proof (rule move_run_audit, goal_cases)
        case (1 q after)
        then show ?case by (auto simp: is_claim_def audit_row_def service_cause_def str_eq_iff)
      qed
      ultimately show ?case by (auto simp: 1(7) claims_def)
    qed
  qed
qed

lemma interrupt_tickets:
  assumes "interrupt_manual_handoff rd op ref now db = Inr db'"
  shows "tickets db' = tickets db \<or> tickets db' = update_where (\<lambda>t. mr_run (tk_reference t) = mr_run ref \<and> tk_revoked t = None)
       (\<lambda>t. t\<lparr>tk_revoked := Some now\<rparr>) (tickets db)" and "consents db' = consents db"
  using assms
  by (auto simp: interrupt_manual_handoff_def bind_result_Inr split: option.splits if_splits)

lemma control_inv_step:
  assumes inv: "control_inv w db" and step: "dispatch_step valid gates rd w db db'"
  shows "control_inv w db'"
  using step
proof cases
  case (fleet_moved d)
  moreover have "fleet_inv d" using fleet_inv_step [OF _ fleet_moved(2)] inv by (simp add: control_inv_def)
  ultimately show ?thesis using inv by (simp add: control_inv_def tickets_ok_def)
next
  case (consent_moved c)
  with inv show ?thesis by (simp add: control_inv_def tickets_ok_def)
next
  case (attempt_started fresh run epoch s)
  then show ?thesis
    using inv fleet_inv_store [of "desk db" s] claims_start [OF attempt_started(2)]
    by (simp add: control_inv_def tickets_ok_def claims_def)
next
  case (run_committed ref op fresh secret expected now)
  with inv show ?thesis by (blast intro: control_inv_commit)
next
  case (ticket_accepted i secret now clock ref)
  then show ?thesis
  proof (rule accept_ticket_Inr, goal_cases)
    case (1 t m)
    have "claims (desk db') = claims (desk db)" by (simp add: 1(10) claims_def acceptance_no_claim)
    moreover have "fleet_inv (desk db')" using inv by (simp add: 1(10) control_inv_def)
    moreover have "tickets_ok w db'"
      by (rule tickets_ok_update [where db = db and P = "\<lambda>q. tk_id q = i" and f = "\<lambda>q. q\<lparr>tk_accepted := Some clock\<rparr>"]) (use inv calculation 1(10) in \<open>simp_all add: control_inv_def\<close>)
    ultimately show ?case by (simp add: control_inv_def)
  qed
next
  case (handoff_lost ref op now)
  have f: "fleet_inv (desk db')" "claims (desk db') = claims (desk db)"
    using interrupt_fleet [OF _ handoff_lost(2)] inv by (simp_all add: control_inv_def)
  from interrupt_tickets [OF handoff_lost(2)] have "tickets_ok w db'"
    using inv f(2) by (auto simp: control_inv_def intro: tickets_ok_frame tickets_ok_update)
  with f show ?thesis by (simp add: control_inv_def)
qed

interpretation control: invariant_system no_control "dispatch_step valid gates rd w" "control_inv w"
proof
  show "no_control db \<Longrightarrow> control_inv w db" for db
    using fleet.invar_init by (auto simp: no_control_def control_inv_def tickets_ok_def empty_fleet_def claims_def empty_store_def)
qed (rule control_inv_step)

section \<open>Consents behind a dispatch\<close>

lemma dispatch_consents:
  assumes "dispatch_step valid gates rd w db db'"
  shows "consents db' = consents db \<or> consent_step valid rd (consents db) (consents db')"
  using assms
proof cases
  case (run_committed ref op fresh secret expected now)
  from run_committed(2) show ?thesis
  proof (rule commit_Inr, goal_cases)
    case (1 m d q)
    from 1(7) show ?case by (rule issue_ticket_Inr) simp
  qed
next
  case (ticket_accepted i secret now clock ref)
  then show ?thesis by (rule accept_ticket_Inr) simp
next
  case (handoff_lost ref op now)
  then show ?thesis using interrupt_tickets(2) by blast
qed simp_all

lemma dispatch_consents_reach:
  "reachable no_control (dispatch_step valid gates rd w) db \<Longrightarrow> \<exists>c. empty_consents c \<and> (consent_step valid rd)\<^sup>*\<^sup>* c (consents db)"
proof (induction rule: reachable.induct)
  case (reach_init db)
  then show ?case by (auto simp: no_control_def)
next
  case (reach_step db db')
  then show ?case using dispatch_consents [of valid gates rd w db db'] by (metis rtranclp.rtrancl_into_rtrancl)
qed

section \<open>Guarantees\<close>


section \<open>Tickets over time\<close>

definition spent_ticket :: "pytext \<Rightarrow> control_db \<Rightarrow> bool" where
  "spent_ticket run db \<longleftrightarrow> (\<exists>t \<in> set (tickets db). mr_run (tk_reference t) = run \<and> (tk_accepted t \<noteq> None \<or> tk_revoked t \<noteq> None))"

lemma spent_mono:
  assumes "spent_ticket run db" and "tickets db' = update_where P f (tickets db) @ ts"
    and "\<And>t. tk_reference (f t) = tk_reference t \<and> (tk_accepted t \<noteq> None \<longrightarrow> tk_accepted (f t) \<noteq> None) \<and>
      (tk_revoked t \<noteq> None \<longrightarrow> tk_revoked (f t) \<noteq> None)"
  shows "spent_ticket run db'"
proof -
  from assms(1) obtain t where t: "t \<in> set (tickets db)" "mr_run (tk_reference t) = run" "tk_accepted t \<noteq> None \<or> tk_revoked t \<noteq> None"
    by (auto simp: spent_ticket_def)
  then have "(if P t then f t else t) \<in> set (tickets db')" by (auto simp: assms(2) update_where_def)
  moreover have "mr_run (tk_reference (if P t then f t else t)) = run"
    "tk_accepted (if P t then f t else t) \<noteq> None \<or> tk_revoked (if P t then f t else t) \<noteq> None"
    using t(2,3) assms(3) [of t] by auto
  ultimately show ?thesis unfolding spent_ticket_def by blast
qed

lemma spent_same: "spent_ticket run db \<Longrightarrow> tickets db' = tickets db \<Longrightarrow> spent_ticket run db'"
  by (simp add: spent_ticket_def)

lemma spent_ticket_step:
  assumes spent: "spent_ticket run db" and "dispatch_step valid gates rd w db db'"
  shows "spent_ticket run db'"
  using assms(2)
proof cases
  case (run_committed ref op fresh secret expected now)
  from run_committed(2) show ?thesis
  proof (rule commit_Inr, goal_cases)
    case (1 m d q)
    from 1(7) show ?case by (rule issue_ticket_Inr) (use spent in \<open>auto simp: spent_ticket_def\<close>)
  qed
next
  case (ticket_accepted i secret now clock ref)
  then show ?thesis
  proof (rule accept_ticket_Inr, goal_cases)
    case (1 t m)
    show ?case
      by (rule spent_mono [OF spent, where P = "\<lambda>q. tk_id q = i" and f = "\<lambda>q. q\<lparr>tk_accepted := Some clock\<rparr>" and ts = "[]"])
        (simp_all add: 1(10))
  qed
next
  case (handoff_lost ref op now)
  from interrupt_tickets(1) [OF handoff_lost(2)] show ?thesis
  proof
    assume u: "tickets db' = update_where (\<lambda>t. mr_run (tk_reference t) = mr_run ref \<and> tk_revoked t = None)
      (\<lambda>t. t\<lparr>tk_revoked := Some now\<rparr>) (tickets db)"
    show ?thesis
      by (rule spent_mono [OF spent, where ts = "[]" and f = "\<lambda>t. t\<lparr>tk_revoked := Some now\<rparr>"
            and P = "\<lambda>t. mr_run (tk_reference t) = mr_run ref \<and> tk_revoked t = None"]) (simp_all add: u)
  qed (rule spent_same [OF spent])
qed (use spent in \<open>auto intro: spent_same\<close>)

lemma spent_run: "(dispatch_step valid gates rd w)\<^sup>*\<^sup>* db db' \<Longrightarrow> spent_ticket run db \<Longrightarrow> spent_ticket run db'"
  by (induction rule: rtranclp_induct) (auto intro: spent_ticket_step)

text \<open>A run with a spent ticket is neither started nor committed to again.\<close>

lemma spent_ticket_refused:
  assumes "control_inv w db" and "spent_ticket run db"
  shows "accept_ticket valid gates w i secret now clock db = Inr (db', ref) \<Longrightarrow> mr_run ref \<noteq> run"
    and "mr_run ref' = run \<Longrightarrow> \<not> succeeds (commit_dispatch valid gates rd op fresh secret ref' expected now db)"
proof -
  obtain u where u: "u \<in> set (tickets db)" "mr_run (tk_reference u) = run" "tk_accepted u \<noteq> None \<or> tk_revoked u \<noteq> None"
    using assms(2) by (auto simp: spent_ticket_def)
  show "mr_run ref \<noteq> run" if "accept_ticket valid gates w i secret now clock db = Inr (db', ref)"
    using that
  proof (rule accept_ticket_Inr, goal_cases)
    case (1 t m)
    have "distinct (map (mr_run \<circ> tk_reference) (tickets db))" using assms(1) by (simp add: control_inv_def tickets_ok_def)
    moreover have "t \<in> set (tickets db)" using 1(1) by (auto dest: row_SomeD)
    ultimately have "mr_run (tk_reference t) = run \<Longrightarrow> t = u" using u(1,2) distinct_rows by fastforce
    with 1(2,4,5) u(3) show ?case by auto
  qed
  show "\<not> succeeds (commit_dispatch valid gates rd op fresh secret ref' expected now db)" if "mr_run ref' = run"
  proof
    assume "succeeds (commit_dispatch valid gates rd op fresh secret ref' expected now db)"
    then obtain db' where "commit_dispatch valid gates rd op fresh secret ref' expected now db = Inr db'" by (auto simp: succeeds_iff)
    then show False
    proof (rule commit_Inr, goal_cases)
      case (1 m d q)
      from 1(7) show ?case by (rule issue_ticket_Inr) (use u that in auto)
    qed
  qed
qed

text \<open>
  C8: a run is started at most once. Once a receiver has consumed a run's ticket, no later state of any
  history lets a receiver start that run again, by this ticket or any other, and no controller can commit it
  to another attempt: a lost answer is never repaired by a second start.
\<close>

theorem run_is_started_once:
  assumes "reachable no_control (dispatch_step valid gates rd w) db"
    and "accept_ticket valid gates w i secret now clock db = Inr (db1, ref)"
    and "(dispatch_step valid gates rd w)\<^sup>*\<^sup>* db1 db2"
  shows "(\<forall>j secret' now' clock' db3 ref'. accept_ticket valid gates w j secret' now' clock' db2 = Inr (db3, ref') \<longrightarrow>
      mr_run ref' \<noteq> mr_run ref) \<and>
    (\<forall>op fresh secret' ref' expected now'. mr_run ref' = mr_run ref \<longrightarrow>
      \<not> succeeds (commit_dispatch valid gates rd op fresh secret' ref' expected now' db2))"
proof -
  have inv: "control_inv w db" by (rule control.invar_reachable [OF assms(1)])
  have step: "dispatch_step valid gates rd w db db1" by (rule ticket_accepted [OF assms(2)])
  then have inv2: "control_inv w db2" using control_inv_step [OF inv] control.invar_run [OF assms(3)] by blast
  from assms(2) have "spent_ticket (mr_run ref) db1"
  proof (rule accept_ticket_Inr, goal_cases)
    case (1 t m)
    then have "t \<in> set (tickets db)" "tk_id t = i" by (auto dest: row_SomeD)
    then have "t\<lparr>tk_accepted := Some clock\<rparr> \<in> set (tickets db1)" by (auto simp: 1(10) in_update_where intro!: bexI [of _ t])
    moreover have "mr_run (tk_reference (t\<lparr>tk_accepted := Some clock\<rparr>)) = mr_run ref" using 1(2) by simp
    ultimately show ?case unfolding spent_ticket_def by (metis dispatch_ticket.select_convs(6) dispatch_ticket.update_convs(6) dispatch_ticket.surjective option.distinct(1))
  qed
  then have "spent_ticket (mr_run ref) db2" by (rule spent_run [OF assms(3)])
  from spent_ticket_refused [OF inv2 this] show ?thesis by blast
qed

section \<open>A handoff given up\<close>

lemma commitment_ticket:
  assumes "tickets_ok w db" and "committed ref (desk db)"
  shows "\<exists>t \<in> set (tickets db). tk_reference t = ref"
proof -
  from assms(2) obtain e where e: "e \<in> set (claims (desk db))" "claim_of ref e" by (auto simp: committed_claims)
  with assms(1) obtain t where t: "t \<in> set (tickets db)" "claim_of (tk_reference t) e"
    unfolding tickets_ok_def by (meson list_all2_partner(2))
  from e(2) t(2) have "ref_context (tk_reference t) = ref_context ref" by (auto simp: claim_of_def split: pyval.splits)
  with t(1) show ?thesis by (auto simp: ref_context_inject)
qed

text \<open>
  C9: a handoff given up is never taken up again. Recovery of a committed handoff leaves the lease released,
  the desktop quarantined and the run INTERRUPTED and INCONCLUSIVE, never a verdict; and in no later state of
  any history is the run started or committed to anew, even if the ticket had not been consumed.
\<close>

theorem lost_handoff_is_final:
  assumes "reachable no_control (dispatch_step valid gates rd w) db" and "mr_workspace ref = w"
    and "interrupt_manual_handoff rd op ref now db = Inr db1"
    and "find_run w (mr_run ref) (store (desk db)) = Some q" and "c_status q \<noteq> INTERRUPTED"
    and "(dispatch_step valid gates rd w)\<^sup>*\<^sup>* db1 db2"
  shows "(\<forall>l \<in> set (leases (desk db1)). l_id l = mr_lease ref \<longrightarrow> \<not> active l) \<and>
    (\<exists>r. find_runner (mr_runner ref) (desk db1) = Some r \<and> rn_status r = QUARANTINED) \<and>
    (\<exists>q'. q' \<in> set (runs (store (desk db1))) \<and> c_id q' = mr_run ref \<and> c_status q' = INTERRUPTED \<and> c_outcome q' = INCONCLUSIVE) \<and>
    (\<forall>j secret now' clock db3 ref'. accept_ticket valid gates w j secret now' clock db2 = Inr (db3, ref') \<longrightarrow> mr_run ref' \<noteq> mr_run ref) \<and>
    (\<forall>op' fresh secret ref' expected now'. mr_run ref' = mr_run ref \<longrightarrow>
      \<not> succeeds (commit_dispatch valid gates rd op' fresh secret ref' expected now' db2))"
proof -
  have inv: "control_inv w db" by (rule control.invar_reachable [OF assms(1)])
  then have fi: "fleet_inv (desk db)" and tok: "tickets_ok w db" by (simp_all add: control_inv_def)
  have "dispatch_step valid gates rd w db db1" by (rule handoff_lost [OF assms(2,3)])
  then have inv2: "control_inv w db2" using control_inv_step [OF inv] control.invar_run [OF assms(6)] by blast
  from assms(3) assms(4) [folded assms(2)] assms(5) show ?thesis
  proof (rule interrupt_handoff_Inr, goal_cases)
    case (1 d1 d2 d3)
    obtain t where t: "t \<in> set (tickets db)" "tk_reference t = ref" using commitment_ticket [OF tok 1(2)] by blast
    have "spent_ticket (mr_run ref) db1"
      unfolding spent_ticket_def
      by (rule bexI [of _ "if tk_revoked t = None then t\<lparr>tk_revoked := Some now\<rparr> else t"])
        (use t in \<open>auto simp: 1(7) in_update_where intro!: bexI [of _ t]\<close>)
    then have "spent_ticket (mr_run ref) db2" by (rule spent_run [OF assms(6)])
    note never = spent_ticket_refused [OF inv2 this]
    note db1 = 1(7)
    have i1: "fleet_inv d1" by (rule change_lease_inv [OF fi 1(4)]) simp
    then have i2: "fleet_inv d2" using quarantine_inv 1(5) by blast
    have leases: "leases d1 = update_where (\<lambda>l. l_id l = mr_lease ref) (release_lease RELEASED_AMBIGUOUS now) (leases (desk db))"
      "registry d1 = registry (desk db)" using 1(4) by (auto simp: change_lease_def split: if_splits)
    obtain r where r: "find_runner (mr_runner ref) (desk db) = Some r" using 1(8) by auto
    have d2: "leases d2 = leases d1" "registry d2 = update_where (\<lambda>r. rn_id r = mr_runner ref)
      (\<lambda>r. (set_status QUARANTINED now r)\<lparr>rn_quarantine := Some AMBIGUOUS_ACTION, rn_quarantined_at := Some now\<rparr>) (registry d1)"
      using 1(5) by (auto simp: quarantine_def change_runner_def split: if_splits)
    have "store_inv (store d2)" using i2 by (simp add: fleet_inv_def)
    from this lawful_interrupt_any 1(6) show ?case
    proof (rule move_run_row, goal_cases)
      case (1 p p' after)
      have same: "leases d3 = leases d2" "registry d3 = registry d2"
        using 1(1) by (metis fleet.select_convs fleet.surjective fleet.update_convs(1))+
      have "status after = INTERRUPTED" "run_outcome after = INCONCLUSIVE"
        using interrupt_Inr [OF 1(7)] by simp_all
      then have "c_status p' = INTERRUPTED" using 1(9) by simp
      moreover have p': "p' \<in> set (runs (store d3))" using 1(3) by (auto simp: 1(10))
      moreover have "c_outcome p' = INCONCLUSIVE"
        using calculation 1(2) by (auto simp: store_inv_def row_inv_def outcome_ok_def row_to_state_def)
      moreover have "\<forall>l \<in> set (leases d3). l_id l = mr_lease ref \<longrightarrow> \<not> active l"
        by (auto simp: same d2 leases in_update_where split: if_splits) (metis release_inactive)
      moreover have "\<exists>r. find_runner (mr_runner ref) d3 = Some r \<and> rn_status r = QUARANTINED"
      proof -
        have "row rn_id (mr_runner ref) (registry d1) = Some r" using r unfolding find_runner_def leases(2) .
        moreover then have "rn_id r = mr_runner ref" by (blast dest: row_SomeD)
        ultimately have "row rn_id (mr_runner ref) (registry d2) =
            Some ((set_status QUARANTINED now r)\<lparr>rn_quarantine := Some AMBIGUOUS_ACTION, rn_quarantined_at := Some now\<rparr>)"
          unfolding d2(2) by (subst row_update) simp_all
        then show ?thesis unfolding find_runner_def same(2) by simp
      qed
      ultimately show ?case using never 1(5) by (auto simp: db1)
    qed
  qed
qed

section \<open>A sample dispatch\<close>

text \<open>
  The consents of the sample execution, and a desktop made ready for it: enrolled, preflighted against its
  seal, leased to its run, committed to, and accepted.
\<close>

definition bound_preflight :: preflight_result where
  "bound_preflight = good_preflight\<lparr>runner_profile_digest := digest_of (profile_document sample_profile),
     environment_config_digest := en_digest sample_environment, preflight_manifest_digest := sl_digest sample_seal\<rparr>"

definition enrolled_runner :: registered_runner where
  "enrolled_runner = new_runner [82] [110] (digest_of (session_document sample_session))
     (digest_of (profile_document sample_profile)) sample_session sample_profile 1"

definition ready_runner :: registered_runner where
  "ready_runner = clear_quarantine (set_status READY 2 enrolled_runner)"

definition sealed_run :: stored_run where
  "sealed_run = \<lparr>c_id = str ''run'', c_workspace = sample_id 100, c_project = Some (str ''p''), c_manifest_digest = sl_digest sample_seal,
     c_authorization = Some (sample_id 99), c_retry_of = None, c_status = QUEUED, c_outcome = NOT_EVALUATED, c_revision = 0,
     c_lease_epoch = 0, c_execution_began = False, c_unresolved_action = False, c_cancel_requested_at = None,
     c_cancellation_revision = None, c_stop_acknowledged_at = None, c_stop_acknowledged_epoch = None,
     c_ambiguity_reason = None, c_quarantined = False, c_updated_at = 0\<rparr>"

definition used_token :: enrollment_token where
  "used_token = sample_token\<lparr>token_redeemed := Some 1, token_runner := Some [82]\<rparr>"

definition enrolled_fleet :: fleet where
  "enrolled_fleet = no_fleet\<lparr>registry := [enrolled_runner], tokens := [used_token]\<rparr>"

definition ready_fleet :: fleet where
  "ready_fleet = no_fleet\<lparr>registry := [ready_runner], tokens := [used_token],
     preflights := [preflight_entry [112] enrolled_runner bound_preflight 2]\<rparr>"

abbreviation control_sample :: "control_db \<Rightarrow> control_db \<Rightarrow> bool" where
  "control_sample \<equiv> dispatch_step any_manifest open_gates read_moment (sample_id 100)"

definition at_desk :: "fleet \<Rightarrow> control_db" where
  "at_desk d = \<lparr>desk = d, consents = given_consents owned_workspace, tickets = []\<rparr>"

lemma session_portable: "portable (session_document sample_session)"
  by (simp add: session_document_def sample_session_def scalar_def high_surrogate_def low_surrogate_def)

lemma sample_digests:
  "session_key sample_session = Inr (digest_of (session_document sample_session))" "is_sha256_hex (digest_of (session_document sample_session))"
  "profile_digest sample_profile = Inr (digest_of (profile_document sample_profile))"
  "is_sha256_hex (sl_digest sample_seal)" "is_sha256_hex (en_digest sample_environment)"
  using digest_of [OF session_portable] digest_of [OF profile_portable] digest_of [OF sample_manifest_portable] environment_digest
  by (simp_all add: session_key_def profile_digest_def sample_seal_def)

lemma desk_enrolled: "enroll_runner [82] [97] [110] sample_session sample_profile 1 (no_fleet\<lparr>tokens := [sample_token]\<rparr>) = Inr enrolled_fleet"
  by (simp add: enroll_runner_def sample_token_digest sample_digests enrolled_fleet_def no_fleet_def enrolled_runner_def
      used_token_def redeemable_def sample_token_def seconds_def)
    (simp add: sample_profile_def sample_session_def)

lemma bound_successful: "is_successful bound_preflight" "profile_drift sample_profile bound_preflight = []"
  by (auto simp: is_successful_def missing_checks_def failed_checks_def unknown_checks_def profile_drift_def sample_profile_def
      reported_def bound_preflight_def good_preflight_def REQUIRED_PREFLIGHT_CHECKS_def)

lemma desk_ready: "record_preflight [112] [82] bound_preflight 2 enrolled_fleet = Inr (ready_fleet, True)"
proof -
  have v: "fst (preflight_verdict enrolled_runner bound_preflight)"
    using bound_successful by (simp add: preflight_verdict_def enrolled_runner_def new_runner_def bound_preflight_def)
  have f: "find_runner [82] enrolled_fleet = Some enrolled_runner"
    by (simp add: find_runner_def enrolled_fleet_def row_def enrolled_runner_def new_runner_def)
  have t: "assert_runner_transition (rn_status enrolled_runner) READY (Some bound_preflight) = Inr ()"
    by (simp add: assert_runner_transition_def enrolled_runner_def new_runner_def bound_successful)
  have "runner_checks ((clear_quarantine \<circ> set_status READY 2) enrolled_runner)"
    by (simp add: runner_checks_def enrolled_runner_def new_runner_def clear_quarantine_def set_status_def)
  then have c: "change_runner [82] (clear_quarantine \<circ> set_status READY 2)
      (enrolled_fleet\<lparr>preflights := [preflight_entry [112] enrolled_runner bound_preflight 2]\<rparr>) = Inr ready_fleet"
    by (simp add: change_runner_def enrolled_fleet_def ready_fleet_def ready_runner_def enrolled_runner_def new_runner_def no_fleet_def)
  have d: "is_sha256_hex (runner_profile_digest bound_preflight)" "is_sha256_hex (environment_config_digest bound_preflight)"
    "is_sha256_hex (preflight_manifest_digest bound_preflight)" by (simp_all add: bound_preflight_def sample_digests)
  have "\<not> revoked enrolled_runner" "preflights enrolled_fleet = []"
    by (simp_all add: revoked_def enrolled_runner_def new_runner_def enrolled_fleet_def no_fleet_def)
  with v f t c d show ?thesis by (simp add: record_preflight_def Let_def)
qed

lemma desk_run_created: "create_run (sample_id 100) (str ''run'') (sample_id 100) (sl_digest sample_seal) (Some (str ''p''))
    (Some (sample_id 99)) None 0 (store ready_fleet) = Inr (no_runs\<lparr>runs := [sealed_run]\<rparr>)"
  by (simp add: create_run_def ready_fleet_def no_fleet_def no_runs_def sealed_run_def sample_digests)

lemma seals_given: "seals (given_consents owned_workspace) = [sample_seal]"
  by (simp add: sample_consent_defs note_consent_def)

lemma sealed_identity:
  "c_id r = str ''run'' \<Longrightarrow> c_workspace r = sample_id 100 \<Longrightarrow> c_project r = Some (str ''p'') \<Longrightarrow>
   c_manifest_digest r = sl_digest sample_seal \<Longrightarrow> c_authorization r = Some (sample_id 99) \<Longrightarrow>
   runs s' = [r] \<Longrightarrow> identities_kept (seals (given_consents owned_workspace)) s s'"
  by (simp add: identities_kept_def seals_given identity_kept_def) (simp add: sample_seal_def)

lemma consents_given: "reachable no_control control_sample (at_desk no_fleet)"
proof -
  have "no_control \<lparr>desk = no_fleet, consents = no_consents owned_workspace, tickets = []\<rparr>"
    using sample_empty by (simp add: no_control_def no_fleet_def empty_fleet_def empty_store_def no_runs_def)
  then have base: "reachable no_control control_sample \<lparr>desk = no_fleet, consents = no_consents owned_workspace, tickets = []\<rparr>"
    by (rule reach_init)
  have "reachable no_control control_sample \<lparr>desk = no_fleet, consents = c, tickets = []\<rparr>"
    if "(consent_step any_manifest read_moment)\<^sup>*\<^sup>* (no_consents owned_workspace) c" for c
    using that
  proof (induction rule: rtranclp_induct)
    case (step c c')
    have "control_sample \<lparr>desk = no_fleet, consents = c, tickets = []\<rparr>
        (\<lparr>desk = no_fleet, consents = c, tickets = []\<rparr>\<lparr>consents := c'\<rparr>)"
      by (rule consent_moved) (simp add: step(2))
    with step(3) have "reachable no_control control_sample (\<lparr>desk = no_fleet, consents = c, tickets = []\<rparr>\<lparr>consents := c'\<rparr>)"
      by (rule reach_step)
    then show ?case by simp
  qed (rule base)
  from this [OF sample_history(2)] show ?thesis by (simp add: at_desk_def)
qed

lemma desk_step:
  assumes "reachable no_control control_sample (at_desk d)" and "fleet_step open_gates read_moment (sample_id 100) d d'"
    and "journal d' = journal d" and "claims d' = claims d" and "identities_kept (seals (given_consents owned_workspace)) (store d) (store d')"
  shows "reachable no_control control_sample (at_desk d')"
proof -
  have "control_sample (at_desk d) ((at_desk d)\<lparr>desk := d'\<rparr>)"
    by (rule fleet_moved) (use assms in \<open>simp_all add: at_desk_def\<close>)
  with assms(1) have "reachable no_control control_sample ((at_desk d)\<lparr>desk := d'\<rparr>)" by (rule reach_step)
  then show ?thesis by (simp add: at_desk_def)
qed

definition queued_fleet :: fleet where
  "queued_fleet = ready_fleet\<lparr>store := no_runs\<lparr>runs := [sealed_run]\<rparr>\<rparr>"

lemma desk_queued: "reachable no_control control_sample (at_desk queued_fleet)"
proof -
  have "reachable no_control control_sample (at_desk (no_fleet\<lparr>tokens := [sample_token]\<rparr>))"
    by (rule desk_step [OF consents_given fleet_step.token [OF sample_issued]])
      (simp_all add: no_fleet_def claims_def identities_kept_def no_runs_def)
  then have "reachable no_control control_sample (at_desk enrolled_fleet)"
    by (rule desk_step [OF _ fleet_step.enrolled [OF desk_enrolled]])
      (simp_all add: enrolled_fleet_def no_fleet_def claims_def identities_kept_def no_runs_def)
  then have "reachable no_control control_sample (at_desk ready_fleet)"
    by (rule desk_step [OF _ fleet_step.preflighted [OF desk_ready]])
      (simp_all add: ready_fleet_def enrolled_fleet_def no_fleet_def claims_def identities_kept_def no_runs_def)
  then show ?thesis
    unfolding queued_fleet_def
  proof (rule desk_step [OF _ fleet_step.run_created [OF desk_run_created]])
    show "identities_kept (seals (given_consents owned_workspace)) (store ready_fleet)
        (store (ready_fleet\<lparr>store := no_runs\<lparr>runs := [sealed_run]\<rparr>\<rparr>))"
      by (rule sealed_identity [where r = sealed_run]) (simp_all add: sealed_run_def)
  qed (simp_all add: ready_fleet_def no_fleet_def claims_def no_runs_def)
qed

text \<open>Leased, with its attempt, and committed to.\<close>

definition leased_run :: stored_run where
  "leased_run = sealed_run\<lparr>c_status := LEASED, c_lease_epoch := 1, c_revision := 1, c_updated_at := 3\<rparr>"

definition running_run :: stored_run where
  "running_run = leased_run\<lparr>c_status := RUNNING, c_execution_began := True, c_revision := 2\<rparr>"

definition sample_lease :: desktop_lease where
  "sample_lease = new_lease [108] [82] (digest_of (session_document sample_session)) (str ''run'') [65] 1 1 3"

definition leased_fleet :: "run_store \<Rightarrow> fleet" where
  "leased_fleet s = queued_fleet\<lparr>leases := [sample_lease], registry := [grant 1 3 ready_runner], store := s\<rparr>"

definition sample_ref :: manual_ref where
  "sample_ref = \<lparr>mr_workspace = sample_id 100, mr_run = str ''run'', mr_attempt = [65], mr_runner = [82], mr_lease = [108],
     mr_epoch = 1\<rparr>"

definition sample_secret :: pytext where
  "sample_secret = replicate 43 97"

lemma at_desk_inv: "reachable no_control control_sample (at_desk d) \<Longrightarrow> fleet_inv d"
  using control.invar_reachable by (fastforce simp: control_inv_def at_desk_def)

lemma desk_leased:
  obtains s where "reachable no_control control_sample (at_desk (leased_fleet s))" "runs s = [leased_run]" "attempts s = []"
proof -
  note inv = at_desk_inv [OF desk_queued]
  have f: "find_runner [82] queued_fleet = Some ready_runner" "leases queued_fleet = []" "rn_status ready_runner = READY"
    "rn_epoch ready_runner = 0" "\<not> revoked ready_runner" "rn_session ready_runner = digest_of (session_document sample_session)"
    "runs (store queued_fleet) = [sealed_run]" "registry queued_fleet = [ready_runner]" "rn_id ready_runner = [82]"
    by (simp_all add: find_runner_def row_def queued_fleet_def ready_fleet_def ready_runner_def enrolled_runner_def new_runner_def
        clear_quarantine_def set_status_def revoked_def no_fleet_def no_runs_def)
  let ?lease = "queued_fleet\<lparr>leases := [sample_lease], registry := [grant 1 3 ready_runner]\<rparr>"
  have found: "find_run (sample_id 100) (str ''run'') (store queued_fleet) = Some sealed_run"
    by (simp add: find_run_def f(7) row_def) (simp add: sealed_run_def)
  have checks: "runner_checks (grant 1 3 ready_runner)"
    using inv f(3,8) by (auto simp: fleet_inv_def runner_checks_def grant_def set_status_def)
  have lease: "new_lease [108] [82] (rn_session ready_runner) (str ''run'') [65] 1 1 3 = sample_lease" "lease_checks sample_lease"
    by (simp_all add: f(6) sample_lease_def new_lease_def lease_checks_def)
  define why where "why = service_cause [111] (str ''run.leased'') (str ''runner-control-plane'') (str ''DESKTOP_LEASE_ADMITTED'')"
  have red: "admit_to_desktop (row_to_state sealed_run) 1 (Some (run_state.revision (row_to_state sealed_run))) = Inr (row_to_state leased_run)"
    by (simp add: admit_to_desktop_def reducer_defs row_to_state_def sealed_run_def leased_run_def cancellation_requested_def)
  have law: "lawful (\<lambda>s. admit_to_desktop s 1 (Some (run_state.revision s)))"
    by (auto simp: lawful_def intro: tranclp.r_into_trancl run_step.desktop_admitted)
  have st: "store_inv (store queued_fleet)" using inv by (simp add: fleet_inv_def)
  have quiet: "column read_moment (cancel_requested_at (row_to_state leased_run)) = Inr None"
    "column read_moment (stop_acknowledged_at (row_to_state leased_run)) = Inr None"
    by (simp_all add: row_to_state_def leased_run_def sealed_run_def)
  obtain s where s: "apply_transition read_moment (sample_id 100) (str ''run'') (\<lambda>s. admit_to_desktop s 1 (Some (run_state.revision s))) why
      (Some (c_revision sealed_run)) 3 (store queued_fleet) = Inr (s, row_to_state leased_run)"
    and rs: "runs s = [set_columns (row_to_state leased_run) None None 3 sealed_run]"
    using applies [where reducer = "\<lambda>s. admit_to_desktop s 1 (Some (run_state.revision s))", OF st found law red quiet f(7)] by blast
  have rs: "runs s = [leased_run]"
    by (simp add: rs leased_run_def sealed_run_def set_columns_def row_to_state_def)
  have ch: "change_runner [82] (grant 1 3) (queued_fleet\<lparr>leases := [sample_lease]\<rparr>) = Inr ?lease"
    using checks by (simp add: change_runner_def f(8,9))
  have admit: "admit_lease open_gates read_moment (sample_id 100) [108] [82] (str ''run'') [65] 1 [111] 3 queued_fleet =
      Inr (leased_fleet s, 1)"
    using f(3-5) lease s
    by (simp add: admit_lease_def f(1,2) Let_def lease_conflict_def found ch load_run_def move_run_def
        why_def [symmetric] leased_fleet_def open_gates_def row_to_state_def)
  from apply_transition_Inr [OF s] st have au: "claims (leased_fleet s) = claims queued_fleet" "attempts s = attempts (store queued_fleet)"
    by (auto simp: claims_def leased_fleet_def store_inv_def is_claim_def audit_row_def why_def service_cause_def)
  have "reachable no_control control_sample (at_desk (leased_fleet s))"
    using desk_queued fleet_step.leased [OF admit]
  proof (rule desk_step)
    show "identities_kept (seals (given_consents owned_workspace)) (store queued_fleet) (store (leased_fleet s))"
      by (rule sealed_identity [where r = leased_run]) (simp_all add: leased_fleet_def rs leased_run_def sealed_run_def)
    show "claims (leased_fleet s) = claims queued_fleet" by (rule au(1))
  qed (simp add: leased_fleet_def)
  moreover have "attempts s = []" by (simp add: au queued_fleet_def no_runs_def)
  ultimately show thesis using rs that by blast
qed

lemma desk_attempted:
  obtains s where "reachable no_control control_sample (at_desk (leased_fleet s))" "runs s = [leased_run]"
    "attempts s = [\<lparr>attempt_id = [65], attempt_workspace = sample_id 100, attempt_run = str ''run'', attempt_epoch = 1\<rparr>]"
proof (rule desk_leased)
  fix s assume r: "reachable no_control control_sample (at_desk (leased_fleet s))" "runs s = [leased_run]" "attempts s = []"
  define s' where "s' = s\<lparr>attempts := [\<lparr>attempt_id = [65], attempt_workspace = sample_id 100, attempt_run = str ''run'', attempt_epoch = 1\<rparr>]\<rparr>"
  have "start_attempt (sample_id 100) [65] (str ''run'') (sample_id 100) 1 s = Inr s'"
    using r by (simp add: start_attempt_def s'_def) (simp add: leased_run_def sealed_run_def)
  then have "start_attempt (sample_id 100) [65] (str ''run'') (sample_id 100) 1 (store (desk (at_desk (leased_fleet s)))) = Inr s'"
    by (simp add: at_desk_def leased_fleet_def)
  then have "reachable no_control control_sample ((at_desk (leased_fleet s))\<lparr>desk := (desk (at_desk (leased_fleet s)))\<lparr>store := s'\<rparr>\<rparr>)"
    by (intro reach_step [OF r(1)] attempt_started)
  moreover have "(at_desk (leased_fleet s))\<lparr>desk := (desk (at_desk (leased_fleet s)))\<lparr>store := s'\<rparr>\<rparr> = at_desk (leased_fleet s')"
    by (simp add: at_desk_def leased_fleet_def)
  ultimately show thesis using that [of s'] r(2) by (simp add: s'_def)
qed

lemma control_event: "claims (note_event e d) = (if is_claim e then claims d @ [e] else claims d)"
  by (simp add: claims_def note_event_def)

text \<open>The deadline of the lease is a moment of the calendar, and not yet past.\<close>

lemma lease_in_time: "is_expired (written 3) (written (l_deadline sample_lease)) = Inr False" "3 < l_deadline sample_lease"
proof -
  let ?i = "Instant 1 1 1 0 0 1 3"
  have d: "l_deadline sample_lease = 1000003" by (simp add: sample_lease_def new_lease_def seconds_def)
  have "valid_instant ?i \<and> of_instant ?i = 1000003"
    by (simp add: valid_instant_def days_in_month_def of_instant_def day_number_def days_before_year_def days_before_month_def)
  then have "calendar_moment 1000003" unfolding calendar_moment_def by blast
  then show "is_expired (written 3) (written (l_deadline sample_lease)) = Inr False"
    using calendar_micros [of 3] by (simp add: d expired_moment moment_written)
  show "3 < l_deadline sample_lease" by (simp add: d)
qed

lemma sample_profiles:
  "item sample_manifest ''runnerProfileDigest'' = PStr (digest_of (profile_document sample_profile))"
  by (simp add: item_def get_item_def sample_manifest_def sealed_inputs_def str_def sample_inputs_def)

lemma sample_seal_found: "find_sealed_manifest (sl_digest sample_seal) (given_consents owned_workspace) = Some sample_seal"
  by (simp add: find_sealed_manifest_def seals_given)

lemma sample_manual:
  assumes "registry d = [grant 1 3 ready_runner]" and "leases d = [sample_lease]" and "runs (store d) = [q]"
    and "preflights d = preflights ready_fleet"
    and "q = leased_run \<and> phase = LEASED \<or> q = running_run \<and> phase = RUNNING"
  shows "manual_authorized any_manifest open_gates sample_ref phase 3 (at_desk d\<lparr>tickets := ts\<rparr>) = Inr sample_manifest"
proof -
  have q: "find_run (sample_id 100) (str ''run'') (store d) = Some q" "c_manifest_digest q = sl_digest sample_seal"
    "column_text (c_authorization q) = sample_id 99" "c_status q = phase" "c_lease_epoch q = 1" "c_cancel_requested_at q = None"
    "\<not> c_quarantined q"
    using assms(3,5) by (auto simp: find_run_def row_def leased_run_def running_run_def sealed_run_def column_text_def)
  have r: "find_runner [82] d = Some (grant 1 3 ready_runner)" "\<not> revoked (grant 1 3 ready_runner)"
    "rn_status (grant 1 3 ready_runner) = BUSY" "rn_epoch (grant 1 3 ready_runner) = 1"
    "rn_profile_digest (grant 1 3 ready_runner) = digest_of (profile_document sample_profile)"
    by (simp_all add: find_runner_def row_def assms(1) ready_runner_def enrolled_runner_def new_runner_def
        clear_quarantine_def set_status_def revoked_def grant_def)
  have l: "l_id sample_lease = [108]" "l_runner sample_lease = [82]" "l_run sample_lease = str ''run''" "l_epoch sample_lease = 1"
    "active sample_lease" "l_cancel_at sample_lease = None"
    by (simp_all add: sample_lease_def new_lease_def active_def)
  have p: "preflights d = [preflight_entry [112] enrolled_runner bound_preflight 2]"
    by (simp add: assms(4) ready_fleet_def no_fleet_def)
  have v: "fst (preflight_verdict enrolled_runner bound_preflight)"
    using bound_successful by (simp add: preflight_verdict_def enrolled_runner_def new_runner_def bound_preflight_def)
  have pre: "assert_preflight [82] 1 (digest_of (profile_document sample_profile)) (en_digest sample_environment) (sl_digest sample_seal) d
      = Inr ()"
    using v by (simp add: assert_preflight_def latest_preflight_def p preflight_entry_def enrolled_runner_def new_runner_def
        bound_preflight_def)
  have ready: "assert_dispatch_ready open_gates (sample_id 100) [82] [108] 1 (str ''run'') (digest_of (profile_document sample_profile))
      (en_digest sample_environment) (sl_digest sample_seal) phase 3 d = Inr ()"
    by (simp add: assert_dispatch_ready_def open_gates_def r l assms(2) lease_in_time q pre)
  have s: "sl_id sample_seal = str ''s''" by (simp add: sample_seal_def)
  show ?thesis
    by (simp add: manual_authorized_def sample_ref_def at_desk_def q sample_seal_found s given_authorized sample_items sample_profiles ready)
qed

text \<open>The commitment, its ticket, and the two ways on: consumed, or given up.\<close>

definition sample_ticket :: dispatch_ticket where
  "sample_ticket = \<lparr>tk_id = [84], tk_reference = sample_ref, tk_digest = hex (sha256 (replicate 43 97)), tk_created = 3, tk_expires = 4,
     tk_accepted = None, tk_revoked = None\<rparr>"

lemma secret_digest: "digest_token sample_secret = Inr (hex (sha256 (replicate 43 97)))" "length sample_secret = 43"
  "list_all (\<lambda>c. c < 128) sample_secret"
proof -
  have "concat (map utf8_char (replicate n 97)) = replicate n 97" for n by (induction n) (simp_all add: utf8_char_def)
  moreover have "list_all scalar sample_secret"
    by (simp add: sample_secret_def list_all_iff scalar_def high_surrogate_def low_surrogate_def)
  ultimately show "digest_token sample_secret = Inr (hex (sha256 (replicate 43 97)))"
    by (simp add: digest_token_def encode_utf8_def sample_secret_def)
qed (simp_all add: sample_secret_def list_all_iff)

lemma sample_committed:
  obtains db s s' where "reachable no_control control_sample db"
    "db = (at_desk (leased_fleet s'))\<lparr>tickets := [sample_ticket]\<rparr>" "runs s' = [running_run]"
    "commit_dispatch any_manifest open_gates read_moment [112] [84] sample_secret sample_ref 1 3 (at_desk (leased_fleet s)) = Inr db"
    "manual_attempt_authorized any_manifest open_gates sample_ref 3 db = Inr sample_manifest"
proof (rule desk_attempted)
  fix s assume r: "reachable no_control control_sample (at_desk (leased_fleet s))" "runs s = [leased_run]"
    "attempts s = [\<lparr>attempt_id = [65], attempt_workspace = sample_id 100, attempt_run = str ''run'', attempt_epoch = 1\<rparr>]"
  note inv = at_desk_inv [OF r(1)]
  have fs: "store (leased_fleet s) = s" "leases (leased_fleet s) = [sample_lease]" "registry (leased_fleet s) = [grant 1 3 ready_runner]"
    "preflights (leased_fleet s) = preflights ready_fleet" for s
    by (simp_all add: leased_fleet_def queued_fleet_def)
  have red: "progress (row_to_state leased_run) None = Inr (row_to_state running_run)"
    by (simp add: progress_def reducer_defs row_to_state_def leased_run_def running_run_def sealed_run_def cancellation_requested_def
      NORMAL_PROGRESSION_def)
  have law: "lawful (\<lambda>s. progress s None)" using progress_not_cancelling by (simp add: not_cancelling_def)
  have quiet: "column read_moment (cancel_requested_at (row_to_state running_run)) = Inr None"
    "column read_moment (stop_acknowledged_at (row_to_state running_run)) = Inr None"
    by (simp_all add: row_to_state_def running_run_def leased_run_def sealed_run_def)
  have lr: "c_id leased_run = str ''run''" "c_workspace leased_run = sample_id 100" "c_revision leased_run = 1"
    by (simp_all add: leased_run_def sealed_run_def)
  obtain s' where s': "move_run read_moment (sample_id 100) (str ''run'') (\<lambda>s. progress s None) (claim_cause [112] sample_ref) (Some 1) 3
      (leased_fleet s) = Inr ((leased_fleet s)\<lparr>store := s'\<rparr>)"
    and rs: "runs s' = [set_columns (row_to_state running_run) None None 3 leased_run]"
    using moves [where reducer = "\<lambda>s. progress s None" and why = "claim_cause [112] sample_ref" and now = 3,
        OF inv _ lr(1,2) law red quiet, of "Some 1"] by (simp add: fs r(2) lr(3)) blast
  have rs: "runs s' = [running_run]"
    by (simp add: rs running_run_def leased_run_def sealed_run_def set_columns_def row_to_state_def)
  let ?d = "leased_fleet s'"
  have d: "(leased_fleet s)\<lparr>store := s'\<rparr> = ?d" by (simp add: leased_fleet_def)
  have au: "attempts s' = attempts s" "committed sample_ref ?d"
  proof -
    from inv s' [unfolded d] show "attempts s' = attempts s"
      by (rule move_run_audit) (simp add: fs)
    have "control_inv (sample_id 100) (at_desk (leased_fleet s))" by (rule control.invar_reachable [OF r(1)])
    then obtain e where "claims ?d = claims (leased_fleet s) @ [e]" "claim_of sample_ref e"
      using commit_fleet(2) [of "sample_id 100" "at_desk (leased_fleet s)" sample_ref read_moment "[112]" 1 3 ?d] s' d
      by (auto simp: at_desk_def sample_ref_def)
    then show "committed sample_ref ?d" by (auto simp: committed_claims)
  qed
  have l: "l_id sample_lease = [108]" "l_runner sample_lease = [82]" "l_run sample_lease = str ''run''" "l_epoch sample_lease = 1"
    "l_attempt sample_lease = [65]" by (simp_all add: sample_lease_def new_lease_def)
  have pair: "paired sample_ref (leased_fleet s)" "paired sample_ref ?d" "exactly_leased sample_ref ?d"
    using r(3) by (simp_all add: paired_def exactly_leased_def fs au l sample_ref_def)
  have m: "manual_authorized any_manifest open_gates sample_ref LEASED 3 (at_desk (leased_fleet s)) = Inr sample_manifest"
    "manual_authorized any_manifest open_gates sample_ref RUNNING 3 (at_desk ?d\<lparr>tickets := ts\<rparr>) = Inr sample_manifest" for ts
    using sample_manual [of "leased_fleet s" leased_run LEASED "[]"] sample_manual [of ?d running_run RUNNING ts]
    by (simp_all add: fs r(2) rs) (simp add: at_desk_def)
  then have a: "manual_attempt_authorized any_manifest open_gates sample_ref 3 (at_desk ?d\<lparr>tickets := ts\<rparr>) = Inr sample_manifest" for ts
    unfolding attempt_Inr using pair(2) au(2) by (simp add: at_desk_def)
  have bounds: "dispatch_bounds (sample_id 100) [108] (at_desk ?d) = Some (l_deadline sample_lease, 4)"
  proof -
    have "find_run (sample_id 100) (str ''run'') s' = Some running_run" "c_authorization running_run = Some (sample_id 99)"
      by (simp_all add: find_run_def rs row_def) (simp_all add: running_run_def leased_run_def sealed_run_def)
    moreover have "approvals (given_consents owned_workspace) = [sample_approval_row]" "ap_id sample_approval_row = sample_id 99"
      "ap_expires sample_approval_row = 4"
      by (simp_all add: sample_consent_defs note_consent_def sample_approval_row_def)
    ultimately show ?thesis by (simp add: dispatch_bounds_def find_lease_def at_desk_def fs l row_def)
  qed
  have issued: "issue_ticket any_manifest open_gates [84] sample_secret sample_ref 3 (at_desk ?d) =
      Inr (at_desk ?d\<lparr>tickets := [sample_ticket]\<rparr>)"
  proof -
    have "moment_of (written 4) = Inr 4" using moment_written calendar_micros [of 4] by simp
    moreover have "4 \<le> l_deadline sample_lease" using lease_in_time(2) by simp
    moreover have "at_desk ?d\<lparr>tickets := []\<rparr> = at_desk ?d" by (simp add: at_desk_def)
    moreover have "min (3 + seconds 30) (min (l_deadline sample_lease) (min 4 4)) = 4"
      using calculation(2) by (simp add: seconds_def)
    moreover have "mr_workspace sample_ref = sample_id 100" "mr_lease sample_ref = [108]" "mr_epoch sample_ref = 1"
      by (simp_all add: sample_ref_def)
    ultimately show ?thesis
      using a [of "[]"] bounds pair(3)
      by (simp add: issue_ticket_def sample_items secret_digest Let_def) (simp add: at_desk_def sample_ticket_def)
  qed
  let ?db = "at_desk ?d\<lparr>tickets := [sample_ticket]\<rparr>"
  have commit: "commit_dispatch any_manifest open_gates read_moment [112] [84] sample_secret sample_ref 1 3 (at_desk (leased_fleet s)) = Inr ?db"
  proof -
    have "find_run (sample_id 100) (str ''run'') (store (desk (at_desk (leased_fleet s)))) = Some leased_run"
      by (simp add: find_run_def at_desk_def fs r(2) row_def lr)
    moreover have "identities_kept (seals (given_consents owned_workspace)) s s'"
      by (rule sealed_identity [where r = running_run]) (simp_all add: rs running_run_def leased_run_def sealed_run_def)
    moreover have "find_lease [108] (leased_fleet s) = Some sample_lease" by (simp add: find_lease_def fs row_def l)
    moreover have "mr_workspace sample_ref = sample_id 100" "mr_lease sample_ref = [108]" "mr_run sample_ref = str ''run''"
      by (simp_all add: sample_ref_def)
    moreover have "(at_desk (leased_fleet s))\<lparr>desk := ?d\<rparr> = at_desk ?d" by (simp add: at_desk_def)
    moreover have "desk (at_desk (leased_fleet s)) = leased_fleet s" "seals (consents (at_desk (leased_fleet s))) = seals (given_consents owned_workspace)"
      by (simp_all add: at_desk_def)
    ultimately show ?thesis
      using m(1) pair(1) s' lease_in_time(2) issued
      by (simp add: commit_dispatch_def lr d fs)
  qed
  have "control_sample (at_desk (leased_fleet s)) ?db"
    by (rule run_committed [OF _ commit]) (simp add: sample_ref_def)
  with r(1) have "reachable no_control control_sample ?db" by (rule reach_step)
  then show thesis using rs commit a by (intro that [of ?db s' s]) simp_all
qed

lemma sample_accepted:
  obtains db db' where "reachable no_control control_sample db" "sample_ticket \<in> set (tickets db)"
    "accept_ticket any_manifest open_gates (sample_id 100) [84] sample_secret 3 3 db = Inr (db', sample_ref)"
proof (rule sample_committed)
  fix db s' assume r: "reachable no_control control_sample db" "db = (at_desk (leased_fleet s'))\<lparr>tickets := [sample_ticket]\<rparr>"
    "manual_attempt_authorized any_manifest open_gates sample_ref 3 db = Inr sample_manifest"
  have t: "row tk_id [84] (tickets db) = Some sample_ticket" "tk_reference sample_ticket = sample_ref" "tk_accepted sample_ticket = None"
    "tk_revoked sample_ticket = None" "tk_expires sample_ticket = 4" "tk_digest sample_ticket = hex (sha256 (replicate 43 97))"
    by (simp_all add: r(2) row_def sample_ticket_def)
  from t r(3) secret_digest show thesis
    by (intro that [OF r(1), of "db\<lparr>tickets := update_where (\<lambda>q. tk_id q = [84]) (\<lambda>q. q\<lparr>tk_accepted := Some 3\<rparr>) (tickets db),
       desk := note_event (acceptance_event sample_ticket 3) (desk db)\<rparr>"])
      (simp_all add: r(2) accept_ticket_def sample_ref_def)
qed


theorem run_is_started_once_witness:
  "\<exists>db db1. accept_ticket any_manifest open_gates (sample_id 100) [84] sample_secret 3 3 db = Inr (db1, sample_ref) \<and>
     \<not> succeeds (commit_dispatch any_manifest open_gates read_moment [112] [85] [98] sample_ref 2 3 db1)"
proof (rule sample_accepted)
  fix db db1 assume a: "reachable no_control control_sample db"
    "accept_ticket any_manifest open_gates (sample_id 100) [84] sample_secret 3 3 db = Inr (db1, sample_ref)"
  from run_is_started_once [OF a rtranclp.rtrancl_refl] a(2) show ?thesis by blast
qed

lemma sample_lost:
  obtains db db1 where "reachable no_control control_sample db" "find_run (sample_id 100) (str ''run'') (store (desk db)) = Some running_run"
    "interrupt_manual_handoff read_moment [113] sample_ref 5 db = Inr db1"
proof (rule sample_committed)
  fix db s' assume r: "reachable no_control control_sample db" "db = (at_desk (leased_fleet s'))\<lparr>tickets := [sample_ticket]\<rparr>"
    "runs s' = [running_run]" "manual_attempt_authorized any_manifest open_gates sample_ref 3 db = Inr sample_manifest"
  define d where "d = leased_fleet s'"
  have desk: "desk db = d" "consents db = given_consents owned_workspace" by (simp_all add: r(2) d_def at_desk_def)
  have inv: "fleet_inv d" using control.invar_reachable [OF r(1)] by (simp add: control_inv_def desk)
  have com: "paired sample_ref d" "committed sample_ref d" using r(4) by (simp_all add: attempt_Inr desk)
  have fs: "store d = s'" "leases d = [sample_lease]" "registry d = [grant 1 3 ready_runner]"
    by (simp_all add: d_def leased_fleet_def)
  have l: "l_id sample_lease = [108]" "l_runner sample_lease = [82]" "l_run sample_lease = str ''run''" "l_epoch sample_lease = 1"
    "l_attempt sample_lease = [65]" "lease_checks sample_lease" by (simp_all add: sample_lease_def new_lease_def lease_checks_def)
  have ref: "mr_workspace sample_ref = sample_id 100" "mr_run sample_ref = str ''run''" "mr_attempt sample_ref = [65]"
    "mr_runner sample_ref = [82]" "mr_lease sample_ref = [108]" "mr_epoch sample_ref = 1" by (simp_all add: sample_ref_def)
  have ex: "exactly_leased sample_ref d" using com(1) by (simp add: exactly_leased_def fs l ref)
  have run: "find_run (sample_id 100) (str ''run'') s' = Some running_run" "c_id running_run = str ''run''"
    "c_workspace running_run = sample_id 100" "c_status running_run = RUNNING" "c_lease_epoch running_run = 1"
    by (simp_all add: find_run_def r(3) row_def) (simp_all add: running_run_def leased_run_def sealed_run_def)
  have rn: "rn_id ready_runner = [82]" "rn_id (grant 1 3 ready_runner) = [82]" "rn_epoch (grant 1 3 ready_runner) = 1"
    by (simp_all add: ready_runner_def enrolled_runner_def new_runner_def clear_quarantine_def set_status_def grant_def)
  have checks: "runner_checks (grant 1 3 ready_runner)" using inv fs(3) by (simp add: fleet_inv_def)
  define q where "q = (set_status QUARANTINED 5 (grant 1 3 ready_runner))\<lparr>rn_quarantine := Some AMBIGUOUS_ACTION, rn_quarantined_at := Some 5\<rparr>"
  have qc: "runner_checks q" using checks by (simp add: q_def runner_checks_def set_status_def)
  define m where "m = release_lease RELEASED_AMBIGUOUS 5 sample_lease"
  have mc: "lease_checks m" using release_checks [OF l(6)] by (simp add: m_def)
  define d1 where "d1 = d\<lparr>leases := [m]\<rparr>"
  define d2 where "d2 = d1\<lparr>registry := [q]\<rparr>"
  have c1: "change_lease (\<lambda>l. l_id l = [108]) (release_lease RELEASED_AMBIGUOUS 5) d = Inr d1"
    using mc by (simp add: change_lease_def fs l d1_def m_def)
  then have i1: "fleet_inv d1" by (rule change_lease_inv [OF inv]) simp
  have c2: "quarantine [82] AMBIGUOUS_ACTION 5 d1 = Inr d2"
    using qc by (simp add: quarantine_def change_runner_def d1_def d2_def fs rn q_def)
  have i2: "fleet_inv d2" using quarantine_inv [OF i1 c2] by blast
  define after where "after = (row_to_state running_run)\<lparr>status := INTERRUPTED, run_outcome := INCONCLUSIVE,
    ambiguity_reason := Some (str ''MANUAL_HANDOFF_UNKNOWN''), quarantined := True, run_state.revision := run_state.revision (row_to_state running_run) + 1\<rparr>"
  have reason: "\<not> blank (str ''MANUAL_HANDOFF_UNKNOWN'')" by (simp add: blank_def str_def py_space_def)
  have red: "interrupt (row_to_state running_run) (str ''MANUAL_HANDOFF_UNKNOWN'') None = Inr after"
    using reason by (simp add: interrupt_def require_expected_revision_def require_nonterminal_def opening_checks_def advance_def
      row_to_state_def run after_def is_terminal_def TERMINAL_STATUSES_def)
  have quiet: "column read_moment (cancel_requested_at after) = Inr None" "column read_moment (stop_acknowledged_at after) = Inr None"
    by (simp_all add: after_def row_to_state_def running_run_def leased_run_def sealed_run_def)
  define why where "why = service_cause [113] (str ''run.interrupted'') (str ''manual-run-controller'')
    (str ''RUN_INTERRUPTED_MANUAL_HANDOFF_UNKNOWN'')"
  have d2s: "store d2 = s'" "runs (store d2) = [running_run]" by (simp_all add: d2_def d1_def fs r(3))
  obtain s2 where s2: "move_run read_moment (sample_id 100) (str ''run'') (\<lambda>s. interrupt s (str ''MANUAL_HANDOFF_UNKNOWN'') None) why
      (Some (c_revision running_run)) 5 d2 = Inr (d2\<lparr>store := s2\<rparr>)" "runs s2 = [set_columns after None None 5 running_run]"
    using moves [where reducer = "\<lambda>s. interrupt s (str ''MANUAL_HANDOFF_UNKNOWN'') None" and why = why and now = 5,
        OF i2 d2s(2) run(2,3) lawful_interrupt_any red quiet refl] by blast
  have kept: "identities_kept (seals (given_consents owned_workspace)) s' s2"
    by (rule sealed_identity [OF _ _ _ _ _ s2(2)]) (simp_all add: set_columns_def running_run_def leased_run_def sealed_run_def)
  show thesis
  proof (rule that [OF r(1)])
    show "find_run (sample_id 100) (str ''run'') (store (desk db)) = Some running_run" by (simp add: desk fs run)
    show "interrupt_manual_handoff read_moment [113] sample_ref 5 db = Inr (db\<lparr>desk := d2\<lparr>store := s2\<rparr>,
        tickets := update_where (\<lambda>t. mr_run (tk_reference t) = mr_run sample_ref \<and> tk_revoked t = None)
          (\<lambda>t. t\<lparr>tk_revoked := Some 5\<rparr>) (tickets db)\<rparr>)"
      using ex com(2) c1 c2 s2(1) kept
      by (simp add: interrupt_manual_handoff_def desk ref fs run find_runner_def row_def rn why_def [symmetric])
  qed
qed

theorem lost_handoff_is_final_witness:
  "\<exists>db db1. interrupt_manual_handoff read_moment [113] sample_ref 5 db = Inr db1 \<and>
     (\<exists>q' \<in> set (runs (store (desk db1))). c_id q' = mr_run sample_ref \<and> c_status q' = INTERRUPTED) \<and>
     \<not> succeeds (commit_dispatch any_manifest open_gates read_moment [112] [85] [98] sample_ref 3 5 db1)"
proof (rule sample_lost)
  fix db db1 assume a: "reachable no_control control_sample db" "find_run (sample_id 100) (str ''run'') (store (desk db)) = Some running_run"
    "interrupt_manual_handoff read_moment [113] sample_ref 5 db = Inr db1"
  have ref: "mr_workspace sample_ref = sample_id 100" "find_run (sample_id 100) (mr_run sample_ref) (store (desk db)) = Some running_run"
    "c_status running_run \<noteq> INTERRUPTED"
    using a(2) by (simp_all add: sample_ref_def running_run_def)
  from lost_handoff_is_final [OF a(1) ref(1) a(3) ref(2,3) rtranclp.rtrancl_refl] a(3) show ?thesis by blast
qed

end
