(* ===== verification/Spec2Isabelle.thy ===== *)
theory Spec2Isabelle
  imports Run_Lifecycle Canonical_Digest Authority Authorization Rules Patch_Policy Sealed_Journeys Submission Preflight Sequencer Verified_Evidence Operations
    Desktop_Guarantees Consent Handoffs
begin

text \<open>
  AccessForge runs a screen reader over a web application and reports whether a journey works for a
  person who uses one. The program's own logic is deciding who may act on a physical desktop, recording
  what happened so that it cannot be rewritten, and saying no more in a verdict than the evidence shows.
  This library models that logic as it stands in the Python packages under \<open>src/packages\<close> and in two
  modules of \<open>src/apps/orchestrator\<close>. File names below are relative to the package they are in.

  Shared vocabulary. Prelude: results of code that may raise (\<open>Inl\<close> the exception, \<open>Inr\<close> the value), Python
  text as a list of code points, and reachable states of a step relation. Payload and Identifiers: decoded
  JSON and how the code takes it apart. Regex: the fragment of \<open>re\<close> the patterns use. Sha256: the hash.
  Moments and Tables: \<open>timestamptz\<close> values, and UPDATE and SELECT over a table kept as a list of rows.

  Domain package (\<open>accessforge_domain\<close>).
  States, Reducers and Run_Lifecycle (\<open>states.py\<close>, \<open>reducers.py\<close>): the states of a run and the nine reducers;
  in every history of reducers status and outcome are an admissible pair, a cancelled run was asked to
  stop and did so afterwards, and every run can be interrupted.
  Timestamps (\<open>timestamps.py\<close>): the RFC3339 pattern, parsing and the two comparisons.
  Canonical, Canonical_Digest and Portable (\<open>canonical.py\<close>): RFC8785 serialization; the form is prefix free,
  so a digest fixes its document up to a SHA-256 collision the theorem exhibits, and a value has a digest
  exactly when it is portable.
  Authority and Authorization (\<open>authority.py\<close>, \<open>authorization\<close>): approvals, standing grants, exact children and
  their revalidation at dispatch; roles and the access list of evidence submission.
  Effect_Monitor, Functional_Validation, Outcome, Assertions, Assertion_Contracts, Verdicts and Rules
  (\<open>effect_monitor.py\<close>, \<open>functional_validation.py\<close>, \<open>outcome.py\<close>, \<open>journeys/assertions.py\<close>, \<open>evaluation\<close>): what
  a protected contract asks, how captures are judged against it, and how the outcome follows.
  Patch_Policy (\<open>patch_policy.py\<close>): which files a proposed repair may touch.
  Journeys and Sealed_Journeys (\<open>journeys\<close>): validation of a draft and what its compiled digests fix.
  Gate (\<open>runners/gate.py\<close>), Preflight (\<open>runners/preflight.py\<close>, \<open>identity.py\<close>, \<open>runtime_profile.py\<close>): the gate
  of every action and what makes a runner ready.

  Navigation (\<open>agent-tools/navigation\<close>) and Submission (\<open>navigator/submission.py\<close>, \<open>checkpoints.py\<close> of the
  orchestrator): the gateway between a model's proposals and the desktop; calls of \<open>submit\<close> interleave as a
  transition system in which one invocation dispatches at most once.

  Evidence package (\<open>accessforge_evidence\<close>). Evidence_Bundle, Evidence_Verifier and Verified_Evidence: the
  exported bundle, the offline verifier, and what its report is worth.

  Persistence package (\<open>accessforge_persistence\<close>). A transaction is one operation on a record of tables; it
  returns the new tables or the error that rolls it back, and a row lock is the atomicity of the operation.
  CHECK constraints, unique indexes, foreign keys and triggers of the migrations are errors. Identifiers the
  code draws at random, and the time, are arguments. The tables hold what a session of one workspace sees.
  Sequencer (\<open>sequencer.py\<close>): the evidence chain of a run.
  Operations (\<open>idempotency.py\<close>): reservations by request key.
  Outbox (\<open>outbox.py\<close>): messages and jobs handed out under leases of five minutes.
  Run_Store and Run_Journal (\<open>runs.py\<close>): the run table around the reducers. The locale \<open>timestamptz_column\<close> is
  what a column promises of text written to it; it is interpreted on \<open>read_moment\<close>, the reader of the texts
  that \<open>to_rfc3339_utc\<close> writes.
  Desktops, Desktop_Exclusion and Desktop_Guarantees (\<open>runners.py\<close>): enrollment, preflight, leases, the action
  journal, expiry, reset and termination of runs. \<open>fleet_step\<close> is any operation a workspace can perform, over
  a store of runs driven by any reducer of \<open>reducers.py\<close> but \<open>cancel\<close>, which the code calls in
  \<open>terminalize_cancellation\<close> only; \<open>fleet_inv\<close> is the invariant every operation preserves, from which
  exclusivity (INV-10), quarantine, readiness and proof of stop follow for every history.

  Members and Membership (\<open>memberships.py\<close>, \<open>invitations.py\<close>): who belongs to a workspace. Every workspace
  keeps an enabled owner, every change of standing is an owner's recorded decision, and an invitation admits
  its holder once at most.
  Consents and Consent (\<open>projects.py\<close>, \<open>approvals.py\<close>, \<open>execution_approvals.py\<close>): environments, source and
  build identities, seals and the approval of one exact execution. Authorization rests on a decision taken
  while the seal was current, withdrawing it is final, and a seal is current until its expiry or its
  environment's supersession; the approver's removal from the workspace is not noticed.
  Dispatch and Handoffs (\<open>runners.py\<close>, \<open>supervisor_dispatch.py\<close>, \<open>manual_dispatch.py\<close> of the orchestrator):
  the checks rerun before work starts on a desktop, the commitment of a run to one attempt, the ticket its
  receiver consumes, and recovery when no answer comes. \<open>dispatch_step\<close> is the product of the fleet's and the
  consents' histories with these operations; \<open>control_inv\<close> pairs every ticket with the audit row of its
  commitment. A receiver starts only where lease, runner, preflight, run and a person's consent agree at one
  moment, a run is started once at most, and a handoff given up is never taken up again.

  Contracts between components are locales, interpreted on the model's own definitions in the theory that
  provides them: \<open>invariant_system\<close> (a transition system with an inductive invariant: runs, runners, submissions,
  evidence chains and streams, the outbox, the run store, desktops, dispatch), \<open>revisioned\<close> (each step moves a revision
  forward), \<open>expiry_clock\<close> (parsing and comparing times), \<open>hash_chain\<close> (links that name their predecessor's hash)
  and \<open>timestamptz_column\<close>.

  Parameters. \<open>str.lower\<close> beyond ASCII, the clock, the ownership of an attempt, the session's random
  identifiers and the signature scheme are arguments. The record \<open>run_gates\<close> is what the candidate and
  baseline verification say of a run when a lease is granted; nothing is assumed of it. Loops are structural
  recursions or carry termination proofs; no fuel is used. Integers of the program are unbounded, except in
  SHA-256, whose words are 32 bits wide; a deadline past the year 9999, which Python refuses, is accepted.

  Not modelled. HTTP routes, the processes of the orchestrator and of the build worker and the TypeScript
  supervisor and adapters are I/O around the operations above. Of the persistence layer the tables of patch
  verification, diagnosis, GitHub and retention are left out, and so is \<open>restore.py\<close>, whose reconciliation of a
  restored database rewrites run, lease and runner rows without the reducers: histories here do not contain
  it. Of the modelled files, the texts meant for people (refusals, printed reports) and read-only listings
  are left out.
\<close>

end
